theory Spec2Isabelle
  imports Main "HOL-Library.Char_ord" "HOL-Library.List_Lexorder" "HOL-Library.Multiset"
begin

section \<open>The run contract of utils/run\_contract.py\<close>

text \<open>
  The contract document is a JSON object; the engine reads and mutates it as nested
  Python dicts. The embedding fixes the keys the engine uses as record fields. A field
  that the code tests for \<^verbatim>\<open>None\<close> or for truthiness is an option; a field the code
  only ever reads through \<^verbatim>\<open>x or default\<close> is a string, the empty string standing
  for an absent or null value as well. The id of an asset is an option, since the code
  reads it both as \<^verbatim>\<open>str(x)\<close> and as \<^verbatim>\<open>str(x or "")\<close>; the id of a task is a
  string. A string is the UTF-8 encoding of the Python \<^verbatim>\<open>str\<close>: a character outside
  ASCII is two to four bytes, none of which is an ASCII byte.
\<close>

subsection \<open>JSON values and Python truthiness\<close>

datatype json =
    JNull
  | JBool bool
  | JInt int
  | JStr string
  | JList "json list"
  | JObj "(string \<times> json) list"

text \<open>\<^verbatim>\<open>bool(v)\<close> of a parsed JSON value (numbers are integers here).\<close>

fun truthy :: "json \<Rightarrow> bool" where
  "truthy JNull = False"
| "truthy (JBool b) = b"
| "truthy (JInt i) = (i \<noteq> 0)"
| "truthy (JStr s) = (s \<noteq> [])"
| "truthy (JList xs) = (xs \<noteq> [])"
| "truthy (JObj kvs) = (kvs \<noteq> [])"

type_synonym pydict = "(string \<times> json) list"

text \<open>\<^verbatim>\<open>bool(x)\<close> for an optional string and an optional dict.\<close>

definition truthy_str :: "string option \<Rightarrow> bool" where
  "truthy_str s = (case s of None \<Rightarrow> False | Some v \<Rightarrow> v \<noteq> [])"

definition truthy_dict :: "pydict option \<Rightarrow> bool" where
  "truthy_dict d = (case d of None \<Rightarrow> False | Some kvs \<Rightarrow> kvs \<noteq> [])"

text \<open>\<^verbatim>\<open>str(x)\<close> and \<^verbatim>\<open>str(x or "")\<close> of an optional string.\<close>

definition py_str :: "string option \<Rightarrow> string" where
  "py_str s = (case s of None \<Rightarrow> ''None'' | Some v \<Rightarrow> v)"

definition str_or_empty :: "string option \<Rightarrow> string" where
  "str_or_empty s = (case s of None \<Rightarrow> [] | Some v \<Rightarrow> v)"

text \<open>\<^verbatim>\<open>a or b\<close> on optional strings.\<close>

definition or_str :: "string option \<Rightarrow> string option \<Rightarrow> string option" where
  "or_str a b = (if truthy_str a then a else b)"

text \<open>\<^verbatim>\<open>key in d\<close> and \<^verbatim>\<open>d.get(key)\<close> on a dict.\<close>

definition has_key :: "pydict \<Rightarrow> string \<Rightarrow> bool" where
  "has_key d k = (k \<in> set (map fst d))"

definition dict_get :: "pydict \<Rightarrow> string \<Rightarrow> json" where
  "dict_get d k = (case map_of d k of None \<Rightarrow> JNull | Some v \<Rightarrow> v)"

subsection \<open>String operations\<close>

definition startswith :: "string \<Rightarrow> string \<Rightarrow> bool" where
  "startswith s p = (take (length p) s = p)"

definition endswith :: "string \<Rightarrow> string \<Rightarrow> bool" where
  "endswith s p = (length p \<le> length s \<and> drop (length s - length p) s = p)"

text \<open>\<^verbatim>\<open>p in s\<close> for strings.\<close>

fun contains :: "string \<Rightarrow> string \<Rightarrow> bool" where
  "contains [] p = (p = [])"
| "contains (c # cs) p = (startswith (c # cs) p \<or> contains cs p)"

text \<open>
  \<^verbatim>\<open>s.strip()\<close>. Python strips the code points U+0009 to U+000D, U+001C to U+0020,
  U+0085, U+00A0, U+1680, U+2000 to U+200A, U+2028, U+2029, U+202F, U+205F and U+3000;
  below are their encodings of one, two and three bytes.
\<close>

definition is_space1 :: "char \<Rightarrow> bool" where
  "is_space1 a = (a \<in> set [CHR 0x09, CHR 0x0A, CHR 0x0B, CHR 0x0C, CHR 0x0D,
                           CHR 0x1C, CHR 0x1D, CHR 0x1E, CHR 0x1F, CHR 0x20])"

definition is_space2 :: "char \<Rightarrow> char \<Rightarrow> bool" where
  "is_space2 a b = (a = CHR 0xC2 \<and> b \<in> set [CHR 0x85, CHR 0xA0])"

definition is_space3 :: "char \<Rightarrow> char \<Rightarrow> char \<Rightarrow> bool" where
  "is_space3 a b c =
     ((a = CHR 0xE1 \<and> b = CHR 0x9A \<and> c = CHR 0x80)
      \<or> (a = CHR 0xE2 \<and> b = CHR 0x80
           \<and> c \<in> set [CHR 0x80, CHR 0x81, CHR 0x82, CHR 0x83, CHR 0x84, CHR 0x85, CHR 0x86,
                        CHR 0x87, CHR 0x88, CHR 0x89, CHR 0x8A, CHR 0xA8, CHR 0xA9, CHR 0xAF])
      \<or> (a = CHR 0xE2 \<and> b = CHR 0x81 \<and> c = CHR 0x9F)
      \<or> (a = CHR 0xE3 \<and> b = CHR 0x80 \<and> c = CHR 0x80))"

text \<open>
  Dropping the whitespace at the front of a string; \<open>p2\<close> and \<open>p3\<close> recognise the
  encodings of two and three bytes, so that the same function reads a reversed string.
\<close>

fun drop_spaces ::
  "(char \<Rightarrow> char \<Rightarrow> bool) \<Rightarrow> (char \<Rightarrow> char \<Rightarrow> char \<Rightarrow> bool) \<Rightarrow> string \<Rightarrow> string" where
  "drop_spaces p2 p3 [] = []"
| "drop_spaces p2 p3 [a] = (if is_space1 a then [] else [a])"
| "drop_spaces p2 p3 [a, b] =
     (if is_space1 a then drop_spaces p2 p3 [b] else if p2 a b then [] else [a, b])"
| "drop_spaces p2 p3 (a # b # c # s) =
     (if is_space1 a then drop_spaces p2 p3 (b # c # s)
      else if p2 a b then drop_spaces p2 p3 (c # s)
      else if p3 a b c then drop_spaces p2 p3 s
      else a # b # c # s)"

definition lstrip_ws :: "string \<Rightarrow> string" where
  "lstrip_ws s = drop_spaces is_space2 is_space3 s"

definition rstrip_ws :: "string \<Rightarrow> string" where
  "rstrip_ws s = rev (drop_spaces (\<lambda>a b. is_space2 b a) (\<lambda>a b c. is_space3 c b a) (rev s))"

definition strip :: "string \<Rightarrow> string" where
  "strip s = rstrip_ws (lstrip_ws s)"

text \<open>\<^verbatim>\<open>s.rstrip("/")\<close>.\<close>

definition rstrip_slash :: "string \<Rightarrow> string" where
  "rstrip_slash s = rev (dropWhile (\<lambda>c. c = CHR ''/'') (rev s))"

definition lower_char :: "char \<Rightarrow> char" where
  "lower_char c =
     (case List.find (\<lambda>p. fst p = c)
             (zip ''ABCDEFGHIJKLMNOPQRSTUVWXYZ'' ''abcdefghijklmnopqrstuvwxyz'') of
        None \<Rightarrow> c
      | Some p \<Rightarrow> snd p)"

text \<open>
  \<^verbatim>\<open>s.lower()\<close> on the ASCII letters. The engine only searches the result for
  \<^verbatim>\<open>matched no objects\<close> and compares it with the words of \<^verbatim>\<open>_parse_bool\<close>; the two
  code points outside ASCII whose lower case holds an ASCII letter give \<^verbatim>\<open>k\<close> and
  \<^verbatim>\<open>i\<close>, which occur in none of these, so the other letters can stay as they are.
\<close>

definition lower :: "string \<Rightarrow> string" where
  "lower s = map lower_char s"

text \<open>\<^verbatim>\<open>s.replace("\n", " ")\<close>.\<close>

definition replace_newlines :: "string \<Rightarrow> string" where
  "replace_newlines s = map (\<lambda>c. if c = CHR 0x0A then CHR '' '' else c) s"

text \<open>
  \<^verbatim>\<open>s.splitlines()\<close>: a line ends at a line break, and a last line with no break is
  kept when it is not empty. The line breaks of Python are CR LF (one break), U+000A to
  U+000D, U+001C to U+001E, U+0085, U+2028 and U+2029.
\<close>

definition is_linebreak :: "char \<Rightarrow> bool" where
  "is_linebreak c = (c \<in> set [CHR 0x0A, CHR 0x0B, CHR 0x0C, CHR 0x0D, CHR 0x1C, CHR 0x1D, CHR 0x1E])"

definition is_linebreak2 :: "char \<Rightarrow> char \<Rightarrow> bool" where
  "is_linebreak2 a b = ((a = CHR 0x0D \<and> b = CHR 0x0A) \<or> (a = CHR 0xC2 \<and> b = CHR 0x85))"

definition is_linebreak3 :: "char \<Rightarrow> char \<Rightarrow> char \<Rightarrow> bool" where
  "is_linebreak3 a b c = (a = CHR 0xE2 \<and> b = CHR 0x80 \<and> c \<in> set [CHR 0xA8, CHR 0xA9])"

fun splitlines_from :: "string \<Rightarrow> string \<Rightarrow> string list" where
  "splitlines_from cur [] = (if cur = [] then [] else [rev cur])"
| "splitlines_from cur [a] = (if is_linebreak a then [rev cur] else [rev (a # cur)])"
| "splitlines_from cur [a, b] =
     (if is_linebreak2 a b then [rev cur]
      else if is_linebreak a then rev cur # splitlines_from [] [b]
      else splitlines_from (a # cur) [b])"
| "splitlines_from cur (a # b # c # s) =
     (if is_linebreak2 a b then rev cur # splitlines_from [] (c # s)
      else if is_linebreak a then rev cur # splitlines_from [] (b # c # s)
      else if is_linebreak3 a b c then rev cur # splitlines_from [] s
      else splitlines_from (a # cur) (b # c # s))"

definition splitlines :: "string \<Rightarrow> string list" where
  "splitlines s = splitlines_from [] s"

text \<open>\<^verbatim>\<open>s.split("/")\<close> and \<^verbatim>\<open>"/".join(parts)\<close>.\<close>

fun split_slash :: "string \<Rightarrow> string list" where
  "split_slash [] = [[]]"
| "split_slash (c # cs) =
     (if c = CHR ''/'' then [] # split_slash cs
      else (case split_slash cs of
              [] \<Rightarrow> [[c]]
            | p # ps \<Rightarrow> (c # p) # ps))"

fun join_slash :: "string list \<Rightarrow> string" where
  "join_slash [] = []"
| "join_slash [p] = p"
| "join_slash (p # q # ps) = p @ CHR ''/'' # join_slash (q # ps)"

text \<open>\<^verbatim>\<open>s.rfind("/")\<close>; \<^verbatim>\<open>None\<close> stands for the result -1.\<close>

fun rfind_slash :: "string \<Rightarrow> nat option" where
  "rfind_slash [] = None"
| "rfind_slash (c # cs) =
     (case rfind_slash cs of
        Some i \<Rightarrow> Some (Suc i)
      | None \<Rightarrow> (if c = CHR ''/'' then Some 0 else None))"

text \<open>\<^verbatim>\<open>str(n)\<close> of an integer.\<close>

fun str_nat :: "nat \<Rightarrow> string" where
  "str_nat n = (if n < 10 then [''0123456789'' ! n] else str_nat (n div 10) @ [''0123456789'' ! (n mod 10)])"

declare str_nat.simps [simp del]

definition str_int :: "int \<Rightarrow> string" where
  "str_int i = (if i < 0 then CHR ''-'' # str_nat (nat (- i)) else str_nat (nat i))"

text \<open>\<^verbatim>\<open>sorted(set(xs))\<close> on strings.\<close>

definition sorted_set :: "string list \<Rightarrow> string list" where
  "sorted_set xs = sort (remdups xs)"

subsection \<open>Canonical object-storage URIs\<close>

text \<open>
  One pass of \<^verbatim>\<open>rest.replace("//", "/")\<close> (left to right, not overlapping), and the
  loop \<^verbatim>\<open>while "//" in rest\<close> around it.
\<close>

fun replace_dslash :: "string \<Rightarrow> string" where
  "replace_dslash [] = []"
| "replace_dslash [c] = [c]"
| "replace_dslash (c # d # cs) =
     (if c = CHR ''/'' \<and> d = CHR ''/'' then CHR ''/'' # replace_dslash cs
      else c # replace_dslash (d # cs))"

lemma replace_dslash_length_le: "length (replace_dslash s) \<le> length s"
  by (induction s rule: replace_dslash.induct) auto

lemma replace_dslash_shorter: "contains s ''//'' \<Longrightarrow> length (replace_dslash s) < length s"
proof (induction s rule: replace_dslash.induct)
  case 1
  then show ?case by simp
next
  case (2 c)
  then show ?case by (simp add: startswith_def)
next
  case (3 c d cs)
  show ?case
  proof (cases "c = CHR ''/'' \<and> d = CHR ''/''")
    case True
    then show ?thesis
      using replace_dslash_length_le [of cs] by simp
  next
    case False
    with 3 show ?thesis by (auto simp: startswith_def)
  qed
qed

function collapse_slashes :: "string \<Rightarrow> string" where
  "collapse_slashes s = (if contains s ''//'' then collapse_slashes (replace_dslash s) else s)"
  by pat_completeness auto
termination
  by (relation "measure length") (auto simp: replace_dslash_shorter)

declare collapse_slashes.simps [simp del]

definition normalize_gs_uri :: "string \<Rightarrow> string" where
  "normalize_gs_uri uri =
     (let v = strip uri in
      if \<not> startswith v ''gs://'' then v
      else ''gs://'' @ rstrip_slash (collapse_slashes (drop 5 v)))"

subsection \<open>The document: tasks, assets, contract\<close>

text \<open>
  An asset of the \<^verbatim>\<open>assets\<close> list. \<^verbatim>\<open>asset_id\<close> is \<^verbatim>\<open>None\<close> when the key is
  absent or null. The four location descriptors are optional strings; \<^verbatim>\<open>exists\<close> and \<^verbatim>\<open>corrupt\<close> are the tri-states (\<^verbatim>\<open>None\<close> is unknown);
  \<^verbatim>\<open>error\<close> is an optional JSON object; \<^verbatim>\<open>matched_outputs\<close> is absent until a check
  stores it. \<^verbatim>\<open>required\<close> holds \<^verbatim>\<open>bool(asset.get("required", True))\<close>.
\<close>

record asset =
  asset_id :: "string option"
  task_id :: string
  role :: string
  kind :: string
  required :: bool
  uri :: "string option"
  local_path :: "string option"
  local_glob :: "string option"
  gcs_glob :: "string option"
  extra :: pydict
  expected :: bool
  produced :: bool
  status :: string
  created_at :: string
  exists :: "bool option"
  exists_reason :: "string option"
  corrupt :: "bool option"
  corrupt_reason :: "string option"
  matched_outputs :: "string list option"
  error :: "pydict option"

text \<open>A task of the \<^verbatim>\<open>tasks\<close> list; its keys carry the prefix \<open>t_\<close> here.\<close>

record task =
  t_task_id :: string
  t_labels :: pydict
  t_status :: string
  t_created_at :: string
  t_started_at :: "string option"
  t_finished_at :: "string option"
  t_error :: "pydict option"
  t_asset_ids :: "string list"

text \<open>
  A dict comprehension \<^verbatim>\<open>{key(x): x for x in xs}\<close> keeps, for a repeated key, the
  last element. The dict holds references into the list, so the index of the element
  stands for the reference: a write through the dict is a write at that index.
\<close>

fun last_index :: "('a \<Rightarrow> bool) \<Rightarrow> 'a list \<Rightarrow> nat option" where
  "last_index P [] = None"
| "last_index P (x # xs) =
     (case last_index P xs of
        Some i \<Rightarrow> Some (Suc i)
      | None \<Rightarrow> (if P x then Some 0 else None))"

fun first_index :: "('a \<Rightarrow> bool) \<Rightarrow> 'a list \<Rightarrow> nat option" where
  "first_index P [] = None"
| "first_index P (x # xs) =
     (if P x then Some 0 else map_option Suc (first_index P xs))"

definition task_index :: "task list \<Rightarrow> string \<Rightarrow> nat option" where
  "task_index ts k = last_index (\<lambda>t. t_task_id t = k) ts"

text \<open>\<^verbatim>\<open>aid = str(asset.get("asset_id") or "")\<close>, as the loops over the assets read the id.\<close>

definition asset_aid :: "asset \<Rightarrow> string" where
  "asset_aid a = str_or_empty (asset_id a)"

text \<open>\<^verbatim>\<open>_task_index\<close> and \<^verbatim>\<open>_asset_index\<close>; the latter has the key \<^verbatim>\<open>str(asset.get("asset_id"))\<close>.\<close>

definition asset_index :: "asset list \<Rightarrow> string \<Rightarrow> nat option" where
  "asset_index as k = last_index (\<lambda>a. py_str (asset_id a) = k) as"

subsection \<open>The outside world\<close>

text \<open>
  The filesystem, the \<^verbatim>\<open>gsutil\<close> command and the JSON parser are outside the engine.
  One pass sees one snapshot of them: \<open>fs_resolve\<close> is \<^verbatim>\<open>_normalize_local_path\<close>,
  \<open>fs_glob\<close> is \<^verbatim>\<open>glob.glob(pattern, recursive=True)\<close>, \<open>fs_size\<close>, \<open>fs_read_text\<close>
  and \<open>json_loads\<close> give \<^verbatim>\<open>None\<close> where the Python call raises, and each
  \<open>gsutil_*_run\<close> is the finished process of that command line.
\<close>

record proc =
  returncode :: int
  stdout :: string
  stderr :: string

record world =
  fs_resolve :: "string \<Rightarrow> string"
  fs_exists :: "string \<Rightarrow> bool"
  fs_is_file :: "string \<Rightarrow> bool"
  fs_glob :: "string \<Rightarrow> string list"
  fs_size :: "string \<Rightarrow> nat option"
  fs_read_text :: "string \<Rightarrow> string option"
  json_loads :: "string \<Rightarrow> json option"
  gsutil_present :: bool
  gsutil_stat_run :: "string \<Rightarrow> proc"
  gsutil_ls_run :: "string \<Rightarrow> proc"
  gsutil_cat_run :: "string \<Rightarrow> proc"

subsection \<open>Existence checker\<close>

text \<open>The lines of a listing that \<^verbatim>\<open>_gsutil_ls\<close> keeps, each made canonical.\<close>

definition ls_keep :: "string \<Rightarrow> bool" where
  "ls_keep item = (item \<noteq> [] \<and> startswith item ''gs://'' \<and> \<not> endswith item ''/'')"

definition ls_items :: "string list \<Rightarrow> string list" where
  "ls_items lines = map normalize_gs_uri (filter ls_keep (map strip lines))"

definition gsutil_ls :: "world \<Rightarrow> string \<Rightarrow> string list option \<times> string" where
  "gsutil_ls w pattern =
     (if \<not> gsutil_present w then (None, ''gsutil_unavailable'')
      else
        let p = gsutil_ls_run w pattern in
        if returncode p \<noteq> 0 then
          (let err = replace_newlines (strip (stderr p)) in
           if contains (lower err) ''matched no objects'' then (Some [], ''gcs_glob'')
           else (None, ''gsutil_ls_failed:'' @ (if err \<noteq> [] then err else str_int (returncode p))))
        else (Some (sorted_set (ls_items (splitlines (stdout p)))), ''gcs_glob''))"

definition gsutil_exists :: "world \<Rightarrow> string \<Rightarrow> bool option \<times> string" where
  "gsutil_exists w u =
     (if \<not> gsutil_present w then (None, ''gsutil_unavailable'')
      else if returncode (gsutil_stat_run w u) = 0 then (Some True, ''gcs_uri'')
      else (Some False, ''gcs_uri''))"

definition asset_exists :: "world \<Rightarrow> asset \<Rightarrow> bool option \<times> string \<times> string list" where
  "asset_exists w a =
     (if truthy_str (local_path a) then
        (let resolved = fs_resolve w (py_str (local_path a));
             ex = fs_exists w resolved
         in (Some ex, ''local_path'', if ex then [resolved] else []))
      else if truthy_str (uri a) \<and> startswith (py_str (uri a)) ''gs://'' then
        (let normalized_uri = normalize_gs_uri (py_str (uri a));
             r = gsutil_exists w normalized_uri
         in (fst r, snd r, if fst r = Some True then [normalized_uri] else []))
      else if truthy_str (local_glob a) then
        (let matches = sorted_set (map (fs_resolve w)
                         (filter (fs_is_file w) (fs_glob w (py_str (local_glob a)))))
         in (Some (matches \<noteq> []), ''local_glob'', matches))
      else if truthy_str (gcs_glob a) then
        (case gsutil_ls w (py_str (gcs_glob a)) of
           (None, reason) \<Rightarrow> (None, reason, [])
         | (Some matches, reason) \<Rightarrow> (Some (matches \<noteq> []), reason, matches))
      else (None, ''no_location'', []))"

subsection \<open>Corruption auditor\<close>

text \<open>
  \<^verbatim>\<open>_read_json_from_asset\<close>: the parsed content, \<open>JNull\<close> being Python's \<^verbatim>\<open>None\<close>
  (what the function returns on every failure, and what a parsed \<^verbatim>\<open>null\<close> is).
  The bytes of an object are passed to the parser as they are.
\<close>

definition json_or_none :: "json option \<Rightarrow> json" where
  "json_or_none r = (case r of None \<Rightarrow> JNull | Some v \<Rightarrow> v)"

definition read_json_from_asset :: "world \<Rightarrow> asset \<Rightarrow> nat \<Rightarrow> json" where
  "read_json_from_asset w a max_bytes =
     (if truthy_str (local_path a) then
        (let path = py_str (local_path a) in
         if \<not> fs_exists w path \<or> \<not> fs_is_file w path then JNull
         else (case fs_size w path of
                 None \<Rightarrow> JNull
               | Some sz \<Rightarrow>
                   if sz > max_bytes then JNull
                   else (case fs_read_text w path of
                           None \<Rightarrow> JNull
                         | Some txt \<Rightarrow> json_or_none (json_loads w txt))))
      else if truthy_str (uri a) \<and> startswith (py_str (uri a)) ''gs://'' then
        (if \<not> gsutil_present w then JNull
         else
           let p = gsutil_cat_run w (py_str (uri a)) in
           if returncode p \<noteq> 0 then JNull
           else if length (stdout p) > max_bytes then JNull
           else json_or_none (json_loads w (stdout p)))
      else JNull)"

definition max_bytes_default :: nat where
  "max_bytes_default = 2000000"

text \<open>The corruption step of the finalize loop: \<^verbatim>\<open>(corrupt, corrupt_reason)\<close>.\<close>

definition audit_asset :: "world \<Rightarrow> bool \<Rightarrow> bool option \<Rightarrow> asset \<Rightarrow> bool option \<times> string option" where
  "audit_asset w audit_corruption ex a =
     (if audit_corruption \<and> ex = Some True \<and> kind a = ''metadata'' then
        (case read_json_from_asset w a max_bytes_default of
           JObj meta \<Rightarrow>
             if has_key meta ''corrupt'' then
               (Some (truthy (dict_get meta ''corrupt'')), Some ''metadata.corrupt'')
             else if has_key meta ''success'' then
               (Some (\<not> truthy (dict_get meta ''success'')), Some ''metadata.success'')
             else (None, None)
         | _ \<Rightarrow> (None, None))
      else (None, None))"

subsection \<open>Asset status on a finalize pass and on a preflight pass\<close>

text \<open>
  \<^verbatim>\<open>asset.get("uri") or asset.get("local_path") or asset.get("local_glob") or
  asset.get("gcs_glob")\<close> as a condition.
\<close>

definition has_location :: "asset \<Rightarrow> bool" where
  "has_location a =
     (truthy_str (uri a) \<or> truthy_str (local_path a) \<or> truthy_str (local_glob a) \<or> truthy_str (gcs_glob a))"

definition finalize_status :: "asset \<Rightarrow> bool option \<Rightarrow> bool option \<Rightarrow> string" where
  "finalize_status a ex cor =
     (if truthy_dict (error a) then ''failed''
      else if ex = Some False \<and> has_location a then ''missing''
      else if cor = Some True then ''corrupt''
      else if ex = Some True then ''ok''
      else if ex = None \<and> has_location a then ''unknown''
      else if produced a then ''produced'' else ''expected'')"

text \<open>The body of the loop over the assets in \<^verbatim>\<open>_cmd_finalize\<close>, up to the status.\<close>

definition finalize_asset :: "world \<Rightarrow> bool \<Rightarrow> asset \<Rightarrow> asset" where
  "finalize_asset w audit_corruption a =
     (case asset_exists w a of
        (ex, reason, matched) \<Rightarrow>
          (case audit_asset w audit_corruption ex a of
             (cor, cor_reason) \<Rightarrow>
               a\<lparr>exists := ex,
                 exists_reason := Some reason,
                 matched_outputs := (if matched \<noteq> [] then Some (take 200 matched) else matched_outputs a),
                 corrupt := cor,
                 corrupt_reason := cor_reason,
                 status := finalize_status a ex cor\<rparr>))"

text \<open>The body of the loop over the input assets in \<^verbatim>\<open>_cmd_preflight\<close>.\<close>

definition preflight_status :: "bool option \<Rightarrow> string" where
  "preflight_status ex =
     (if ex = Some True then ''ok'' else if ex = Some False then ''missing'' else ''unknown'')"

definition preflight_asset :: "world \<Rightarrow> asset \<Rightarrow> asset" where
  "preflight_asset w a =
     (case asset_exists w a of
        (ex, reason, matched) \<Rightarrow>
          a\<lparr>exists := ex,
            exists_reason := Some reason,
            matched_outputs := (if matched \<noteq> [] then Some (take 200 matched) else matched_outputs a),
            status := preflight_status ex\<rparr>)"

subsection \<open>Tasks and assets by id\<close>

record contract =
  tasks :: "task list"
  assets :: "asset list"
  run_status :: string
  run_completed_at :: "string option"
  run_output_location :: "string option"
  verification :: pydict
  preflight :: pydict

text \<open>
  The other sections of the document (schema version, configuration, input data, paths,
  the rest of the run metadata) pass through every operation below unchanged and are
  left out. The clock \<^verbatim>\<open>_utc_now_iso()\<close> is the parameter \<open>now_iso\<close>.
\<close>

definition new_task :: "string \<Rightarrow> string \<Rightarrow> task" where
  "new_task now_iso tid =
     \<lparr>t_task_id = tid, t_labels = [], t_status = ''running'', t_created_at = now_iso,
      t_started_at = Some now_iso, t_finished_at = None, t_error = None, t_asset_ids = []\<rparr>"

text \<open>\<^verbatim>\<open>_ensure_task\<close>: the new task list and the position of the task returned.\<close>

definition ensure_task :: "string \<Rightarrow> task list \<Rightarrow> string \<Rightarrow> task list \<times> nat" where
  "ensure_task now_iso ts tid =
     (case first_index (\<lambda>t. t_task_id t = tid) ts of
        Some i \<Rightarrow> (ts, i)
      | None \<Rightarrow> (ts @ [new_task now_iso tid], length ts))"

definition new_asset :: "string \<Rightarrow> string \<Rightarrow> string \<Rightarrow> asset" where
  "new_asset now_iso aid tid =
     \<lparr>asset_id = Some aid, task_id = tid, role = ''output'', kind = ''output'', required = True,
      uri = None, local_path = None, local_glob = None, gcs_glob = None, extra = [],
      expected = False, produced = True, status = ''produced'', created_at = now_iso,
      exists = None, exists_reason = None, corrupt = None, corrupt_reason = None,
      matched_outputs = None, error = None\<rparr>"

definition ensure_asset :: "string \<Rightarrow> asset list \<Rightarrow> string \<Rightarrow> string \<Rightarrow> asset list \<times> nat" where
  "ensure_asset now_iso as aid tid =
     (case first_index (\<lambda>a. py_str (asset_id a) = aid) as of
        Some i \<Rightarrow> (as, i)
      | None \<Rightarrow> (as @ [new_asset now_iso aid tid], length as))"

subsection \<open>Setting a task's status\<close>

definition finished_statuses :: "string list" where
  "finished_statuses =
     [''succeeded'', ''failed'', ''succeeded_with_missing_outputs'',
      ''succeeded_with_corrupt_outputs'', ''succeeded_with_unverified_outputs'']"

definition mark_failed :: "pydict option \<Rightarrow> asset \<Rightarrow> asset" where
  "mark_failed err a =
     (case err of
        None \<Rightarrow> a\<lparr>status := ''failed''\<rparr>
      | Some e \<Rightarrow> a\<lparr>status := ''failed'', error := Some e\<rparr>)"

text \<open>
  The loop over \<^verbatim>\<open>asset_ids\<close> in \<^verbatim>\<open>_set_task_status\<close>; \<open>idx\<close> is the dict
  \<^verbatim>\<open>_asset_index(contract)\<close>, built once before the loop.
\<close>

fun fail_assets :: "pydict option \<Rightarrow> (string \<Rightarrow> nat option) \<Rightarrow> string list \<Rightarrow> asset list \<Rightarrow> asset list" where
  "fail_assets err idx [] as = as"
| "fail_assets err idx (aid # aids) as =
     (case idx aid of
        None \<Rightarrow> fail_assets err idx aids as
      | Some i \<Rightarrow> fail_assets err idx aids (as[i := mark_failed err (as ! i)]))"

definition set_task_status :: "string \<Rightarrow> contract \<Rightarrow> string \<Rightarrow> string \<Rightarrow> pydict option \<Rightarrow> contract" where
  "set_task_status now_iso c tid st err =
     (case ensure_task now_iso (tasks c) tid of
        (ts, i) \<Rightarrow>
          let t0 = ts ! i;
              t1 = (if st = ''running'' \<and> \<not> truthy_str (t_started_at t0)
                    then t0\<lparr>t_started_at := Some now_iso\<rparr> else t0);
              t2 = (if st \<in> set finished_statuses then t1\<lparr>t_finished_at := Some now_iso\<rparr> else t1);
              t3 = t2\<lparr>t_status := st\<rparr>;
              t4 = (case err of None \<Rightarrow> t3 | Some e \<Rightarrow> t3\<lparr>t_error := Some e\<rparr>)
          in c\<lparr>tasks := ts[i := t4],
               assets := (if st = ''failed''
                          then fail_assets err (asset_index (assets c)) (t_asset_ids t4) (assets c)
                          else assets c)\<rparr>)"

subsection \<open>Finalize: repairing the task references\<close>

text \<open>
  One round of the loop \<^verbatim>\<open>for asset in assets\<close> that follows
  \<^verbatim>\<open># Ensure task references are consistent\<close>: the state is the task list and the
  dict \<^verbatim>\<open>task_map\<close>.
\<close>

definition repair_asset ::
  "string \<Rightarrow> asset \<Rightarrow> task list \<Rightarrow> (string \<Rightarrow> nat option) \<Rightarrow> asset \<times> task list \<times> (string \<Rightarrow> nat option)" where
  "repair_asset now_iso a ts tm =
     (let tid = (if task_id a = [] then ''unassigned'' else task_id a);
          a1 = (if task_id a = [] then a\<lparr>task_id := ''unassigned''\<rparr> else a);
          aid = asset_aid a
      in case (case tm tid of
                 Some i \<Rightarrow> (ts, tm, i)
               | None \<Rightarrow> (case ensure_task now_iso ts tid of
                            (ts1, i) \<Rightarrow> (ts1, tm(tid \<mapsto> i), i))) of
           (ts1, tm1, i) \<Rightarrow>
             let asset_ids = t_asset_ids (ts1 ! i) in
             if aid \<noteq> [] \<and> aid \<notin> set asset_ids
             then (a1, ts1[i := (ts1 ! i)\<lparr>t_asset_ids := sorted_set (asset_ids @ [aid])\<rparr>], tm1)
             else (a1, ts1, tm1))"

fun repair_loop ::
  "string \<Rightarrow> asset list \<Rightarrow> task list \<Rightarrow> (string \<Rightarrow> nat option) \<Rightarrow> asset list \<times> task list \<times> (string \<Rightarrow> nat option)" where
  "repair_loop now_iso [] ts tm = ([], ts, tm)"
| "repair_loop now_iso (a # as) ts tm =
     (case repair_asset now_iso a ts tm of
        (a', ts1, tm1) \<Rightarrow>
          (case repair_loop now_iso as ts1 tm1 of
             (as', ts2, tm2) \<Rightarrow> (a' # as', ts2, tm2)))"

definition repair_references :: "string \<Rightarrow> contract \<Rightarrow> contract" where
  "repair_references now_iso c =
     (case repair_loop now_iso (assets c) (tasks c) (task_index (tasks c)) of
        (as', ts', tm') \<Rightarrow> c\<lparr>tasks := ts', assets := as'\<rparr>)"

subsection \<open>Finalize: rollups\<close>

definition status_in :: "string list \<Rightarrow> asset \<Rightarrow> bool" where
  "status_in sts a = (required a \<and> status a \<in> set sts)"

text \<open>
  The lists \<^verbatim>\<open>missing_required\<close>, \<^verbatim>\<open>corrupt_required\<close> and \<^verbatim>\<open>unknown_required\<close>
  that the asset loop appends to, in the order of the assets.
\<close>

definition missing_required_of :: "asset list \<Rightarrow> string list" where
  "missing_required_of as = map asset_aid (filter (status_in [''missing'', ''failed'']) as)"

definition corrupt_required_of :: "asset list \<Rightarrow> string list" where
  "corrupt_required_of as = map asset_aid (filter (status_in [''corrupt'']) as)"

definition unknown_required_of :: "asset list \<Rightarrow> string list" where
  "unknown_required_of as = map asset_aid (filter (status_in [''unknown'']) as)"

text \<open>\<^verbatim>\<open>str(asset.get("status") or "unknown")\<close>.\<close>

definition status_or_unknown :: "string \<Rightarrow> string" where
  "status_or_unknown s = (if s = [] then ''unknown'' else s)"

text \<open>
  \<^verbatim>\<open>required_assets\<close> of a task: the assets that \<^verbatim>\<open>asset_map\<close> holds for the ids of
  the task and that are required.
\<close>

definition required_assets_of :: "asset list \<Rightarrow> (string \<Rightarrow> nat option) \<Rightarrow> task \<Rightarrow> asset list" where
  "required_assets_of as idx t =
     List.map_filter
       (\<lambda>aid. case idx aid of
                None \<Rightarrow> None
              | Some i \<Rightarrow> if required (as ! i) then Some (as ! i) else None)
       (t_asset_ids t)"

definition rollup_status :: "string \<Rightarrow> string list \<Rightarrow> string" where
  "rollup_status existing_status required_statuses =
     (if existing_status = ''failed'' then ''failed''
      else if required_statuses \<noteq> [] then
        (if ''failed'' \<in> set required_statuses then ''failed''
         else if ''missing'' \<in> set required_statuses then ''succeeded_with_missing_outputs''
         else if ''corrupt'' \<in> set required_statuses then ''succeeded_with_corrupt_outputs''
         else if ''unknown'' \<in> set required_statuses then ''succeeded_with_unverified_outputs''
         else if list_all (\<lambda>s. s = ''ok'') required_statuses then ''succeeded''
         else if existing_status \<noteq> [] then existing_status else ''unknown'')
      else if existing_status \<in> set [[], ''expected'', ''running'', ''produced''] then ''succeeded''
      else if existing_status \<noteq> [] then existing_status else ''unknown'')"

definition task_final_status :: "asset list \<Rightarrow> (string \<Rightarrow> nat option) \<Rightarrow> task \<Rightarrow> string" where
  "task_final_status as idx t =
     rollup_status (t_status t)
       (map (\<lambda>a. status_or_unknown (status a)) (required_assets_of as idx t))"

definition finalize_task :: "string \<Rightarrow> asset list \<Rightarrow> (string \<Rightarrow> nat option) \<Rightarrow> task \<Rightarrow> task" where
  "finalize_task now_iso as idx t =
     t\<lparr>t_status := task_final_status as idx t,
       t_finished_at := (if truthy_str (t_finished_at t) then t_finished_at t else Some now_iso)\<rparr>"

text \<open>A dict of counts, as \<^verbatim>\<open>d[k] = d.get(k, 0) + 1\<close> builds it.\<close>

fun bump :: "string \<Rightarrow> (string \<times> nat) list \<Rightarrow> (string \<times> nat) list" where
  "bump k [] = [(k, 1)]"
| "bump k ((k', n) # r) = (if k' = k then (k', Suc n) # r else (k', n) # bump k r)"

definition status_counts :: "string list \<Rightarrow> (string \<times> nat) list" where
  "status_counts ss = foldl (\<lambda>m s. bump s m) [] ss"

definition counts_get :: "(string \<times> nat) list \<Rightarrow> string \<Rightarrow> nat" where
  "counts_get m k = (case map_of m k of None \<Rightarrow> 0 | Some n \<Rightarrow> n)"

definition counts_json :: "(string \<times> nat) list \<Rightarrow> json" where
  "counts_json m = JObj (map (\<lambda>(k, n). (k, JInt (int n))) m)"

definition compute_run_status :: "nat \<Rightarrow> string list \<Rightarrow> string list \<Rightarrow> string list \<Rightarrow> string" where
  "compute_run_status failed_count missing_required corrupt_required unknown_required =
     (if failed_count > 0 then ''FAILED''
      else if missing_required \<noteq> [] \<or> corrupt_required \<noteq> [] then ''FINISHED_WITH_ISSUES''
      else if unknown_required \<noteq> [] then ''FINISHED_WITH_UNVERIFIED_OUTPUTS''
      else ''FINISHED'')"

subsection \<open>Finalize: the operation\<close>

text \<open>\<^verbatim>\<open>d[k] = v\<close> and \<^verbatim>\<open>d.update(e)\<close> on a dict that keeps its insertion order.\<close>

fun dict_set :: "string \<Rightarrow> json \<Rightarrow> pydict \<Rightarrow> pydict" where
  "dict_set k v [] = [(k, v)]"
| "dict_set k v ((k', v') # r) = (if k' = k then (k', v) # r else (k', v') # dict_set k v r)"

definition dict_update :: "pydict \<Rightarrow> pydict \<Rightarrow> pydict" where
  "dict_update d e = foldl (\<lambda>m kv. dict_set (fst kv) (snd kv) m) d e"

definition parse_bool :: "string option \<Rightarrow> bool \<Rightarrow> bool" where
  "parse_bool raw dflt =
     (case raw of
        None \<Rightarrow> dflt
      | Some r \<Rightarrow>
          let v = lower (strip r) in
          if v \<in> set [''1'', ''true'', ''yes'', ''y'', ''on''] then True
          else if v \<in> set [''0'', ''false'', ''no'', ''n'', ''off''] then False
          else dflt)"

record finalize_args =
  fa_status :: "string option"
  fa_output_location :: "string option"
  fa_verification_json :: "json option"
  fa_audit_corruption :: "string option"
  fa_strict :: bool

definition ids_json :: "string list \<Rightarrow> json" where
  "ids_json ids = JList (map JStr (sorted_set ids))"

definition count_where :: "('a \<Rightarrow> bool) \<Rightarrow> 'a list \<Rightarrow> json" where
  "count_where P xs = JInt (int (length (filter P xs)))"

text \<open>
  The \<^verbatim>\<open>verification\<close> dict before \<^verbatim>\<open>verification.update(extra)\<close>. The keys
  \<^verbatim>\<open>unexpected_outputs\<close>, \<^verbatim>\<open>unexpected_outputs_count\<close> (the directory scan) and
  \<^verbatim>\<open>folder_uploads\<close> (the publisher) are left out.
\<close>

definition build_verification :: "string \<Rightarrow> asset list \<Rightarrow> task list \<Rightarrow> pydict" where
  "build_verification now_iso as ts =
     [(''finished_at'', JStr now_iso),
      (''expected_assets_count'', count_where expected as),
      (''produced_assets_count'', count_where produced as),
      (''required_assets_count'', count_where required as),
      (''asset_status_counts'',
         counts_json (status_counts (map (\<lambda>a. status_or_unknown (status a)) as))),
      (''input_asset_status_counts'',
         counts_json (status_counts (map (\<lambda>a. status_or_unknown (status a))
                        (filter (\<lambda>a. role a = ''input'') as)))),
      (''output_asset_status_counts'',
         counts_json (status_counts (map (\<lambda>a. status_or_unknown (status a))
                        (filter (\<lambda>a. role a \<noteq> ''input'') as)))),
      (''task_status_counts'', counts_json (status_counts (map t_status ts))),
      (''missing_required_asset_ids'', ids_json (missing_required_of as)),
      (''missing_required_input_ids'',
         ids_json (map asset_aid (filter (\<lambda>a. role a = ''input'' \<and>
                     status_or_unknown (status a) \<in> set [''missing'', ''failed''] \<and> required a) as))),
      (''corrupt_required_asset_ids'', ids_json (corrupt_required_of as)),
      (''unverified_required_asset_ids'', ids_json (unknown_required_of as))]"

definition strict_failure :: "pydict \<Rightarrow> nat \<Rightarrow> bool" where
  "strict_failure ver failed_count =
     (truthy (dict_get ver ''missing_required_asset_ids'')
      \<or> truthy (dict_get ver ''corrupt_required_asset_ids'')
      \<or> truthy (dict_get ver ''unverified_required_asset_ids'')
      \<or> failed_count > 0)"

text \<open>
  \<^verbatim>\<open>_cmd_finalize\<close> on the loaded contract: \<open>Inl\<close> is the \<^verbatim>\<open>ValueError\<close> (nothing
  is written; \<^verbatim>\<open>main\<close> turns it into the return value 1), \<open>Inr\<close> the document written
  and the value returned.
\<close>

definition cmd_finalize :: "string \<Rightarrow> world \<Rightarrow> finalize_args \<Rightarrow> contract \<Rightarrow> string + contract \<times> int" where
  "cmd_finalize now_iso w args c =
     (let audit_corruption = parse_bool (fa_audit_corruption args) True;
          asset_map = asset_index (assets c);
          c1 = repair_references now_iso c;
          as = map (finalize_asset w audit_corruption) (assets c1);
          missing_required = missing_required_of as;
          corrupt_required = corrupt_required_of as;
          unknown_required = unknown_required_of as;
          ts = map (finalize_task now_iso as asset_map) (tasks c1);
          task_status_counts = status_counts (map t_status ts);
          failed_count = counts_get task_status_counts ''failed'';
          ver0 = build_verification now_iso as ts
      in case (case fa_verification_json args of
                 None \<Rightarrow> Inr ver0
               | Some (JObj ex) \<Rightarrow> Inr (dict_update ver0 ex)
               | Some _ \<Rightarrow> Inl ''--verification-json-file must be a JSON object'') of
           Inl e \<Rightarrow> Inl e
         | Inr ver \<Rightarrow>
             let given = strip (case fa_status args of None \<Rightarrow> [] | Some s \<Rightarrow> s);
                 run_st = (if given \<noteq> [] then given
                           else compute_run_status failed_count missing_required
                                  corrupt_required unknown_required)
             in Inr (c1\<lparr>tasks := ts, assets := as, run_status := run_st,
                        run_completed_at := Some now_iso,
                        run_output_location := or_str (fa_output_location args) (run_output_location c1),
                        verification := ver\<rparr>,
                     if fa_strict args \<and> strict_failure ver failed_count then 2 else 0))"

subsection \<open>Preflight: the operation\<close>

definition cmd_preflight :: "string \<Rightarrow> world \<Rightarrow> bool \<Rightarrow> contract \<Rightarrow> contract \<times> int" where
  "cmd_preflight now_iso w strict c =
     (let as = map (\<lambda>a. if role a = ''input'' then preflight_asset w a else a) (assets c);
          input_assets = filter (\<lambda>a. role a = ''input'') as;
          missing_required = map asset_aid (filter (\<lambda>a. exists a = Some False \<and> required a) input_assets);
          missing_optional = map asset_aid (filter (\<lambda>a. exists a = Some False \<and> \<not> required a) input_assets);
          ok_count = length (filter (\<lambda>a. exists a = Some True) input_assets)
      in (c\<lparr>assets := as,
            preflight :=
              [(''checked_at'', JStr now_iso),
               (''total_inputs'', JInt (int (length input_assets))),
               (''ok'', JInt (int ok_count)),
               (''missing_required'', JList (map JStr missing_required)),
               (''missing_required_count'', JInt (int (length missing_required))),
               (''missing_optional'', JList (map JStr missing_optional)),
               (''missing_optional_count'', JInt (int (length missing_optional)))]\<rparr>,
          if strict \<and> missing_required \<noteq> [] then 2 else 0))"

subsection \<open>Folder partitioner\<close>

definition has_wildcard :: "string \<Rightarrow> bool" where
  "has_wildcard part = list_ex (\<lambda>ch. ch \<in> set part) ''*?[]''"

definition gcs_folder :: "asset \<Rightarrow> string option" where
  "gcs_folder a =
     (if truthy_str (uri a) \<and> startswith (py_str (uri a)) ''gs://'' then
        (let normalized = normalize_gs_uri (py_str (uri a)) in
         case rfind_slash normalized of
           None \<Rightarrow> None
         | Some idx \<Rightarrow> if idx > length ''gs://'' then Some (take idx normalized) else None)
      else if truthy_str (gcs_glob a) \<and> startswith (py_str (gcs_glob a)) ''gs://'' then
        (let normalized = normalize_gs_uri (py_str (gcs_glob a));
             folder_parts = takeWhile (\<lambda>part. \<not> has_wildcard part) (split_slash normalized)
         in if length folder_parts > 2 then Some (rstrip_slash (join_slash folder_parts)) else None)
      else None)"

text \<open>\<^verbatim>\<open>groups.setdefault(folder, []).append(asset)\<close> on a dict that keeps its insertion order.\<close>

fun setdefault_append :: "string \<Rightarrow> asset \<Rightarrow> (string \<times> asset list) list \<Rightarrow> (string \<times> asset list) list" where
  "setdefault_append f a [] = [(f, [a])]"
| "setdefault_append f a ((k, l) # g) =
     (if k = f then (k, l @ [a]) # g else (k, l) # setdefault_append f a g)"

fun group_loop :: "asset list \<Rightarrow> (string \<times> asset list) list \<Rightarrow> (string \<times> asset list) list" where
  "group_loop [] groups = groups"
| "group_loop (a # as) groups =
     (case gcs_folder a of
        None \<Rightarrow> group_loop as groups
      | Some folder \<Rightarrow> group_loop as (setdefault_append folder a groups))"

definition group_assets_by_folder :: "asset list \<Rightarrow> (string \<times> asset list) list" where
  "group_assets_by_folder as = group_loop as []"

text \<open>
  The two conditions under which \<^verbatim>\<open>_gcs_folder\<close> looks at a location at all: the asset
  has a \<^verbatim>\<open>gs://\<close> URI or a \<^verbatim>\<open>gs://\<close> glob.
\<close>

definition gcs_destined :: "asset \<Rightarrow> bool" where
  "gcs_destined a =
     ((truthy_str (uri a) \<and> startswith (py_str (uri a)) ''gs://'')
      \<or> (truthy_str (gcs_glob a) \<and> startswith (py_str (gcs_glob a)) ''gs://''))"

subsection \<open>Recording a produced asset\<close>

record produced_args =
  pa_task_id :: string
  pa_asset_id :: "string option"
  pa_kind :: "string option"
  pa_required :: "string option"
  pa_uri :: "string option"
  pa_local_path :: "string option"
  pa_local_glob :: "string option"
  pa_gcs_glob :: "string option"
  pa_extra_json :: "json option"

text \<open>The assignments to the asset in \<^verbatim>\<open>_cmd_record_produced\<close>, before \<^verbatim>\<open>extra\<close>.\<close>

definition record_produced_asset :: "produced_args \<Rightarrow> string \<Rightarrow> asset \<Rightarrow> asset" where
  "record_produced_asset args tid a =
     a\<lparr>task_id := tid,
       kind := py_str (or_str (or_str (pa_kind args) (Some (kind a))) (Some ''output'')),
       required := parse_bool (pa_required args) (required a),
       uri := or_str (pa_uri args) (uri a),
       local_path := or_str (pa_local_path args) (local_path a),
       local_glob := or_str (pa_local_glob args) (local_glob a),
       gcs_glob := or_str (pa_gcs_glob args) (gcs_glob a),
       produced := True,
       status := ''produced''\<rparr>"

text \<open>
  \<^verbatim>\<open>_cmd_record_produced\<close> on the loaded contract; \<open>sha12\<close> is the first twelve hex
  digits of the SHA-1 of a string.
\<close>

definition cmd_record_produced ::
  "string \<Rightarrow> (string \<Rightarrow> string) \<Rightarrow> produced_args \<Rightarrow> contract \<Rightarrow> string + contract" where
  "cmd_record_produced now_iso sha12 args c =
     (let tid = strip (pa_task_id args) in
      if tid = [] then Inl ''--task-id is required''
      else
        case ensure_task now_iso (tasks c) tid of
          (ts, i) \<Rightarrow>
            let t0 = ts ! i;
                t1 = (if \<not> truthy_str (t_started_at t0) then t0\<lparr>t_started_at := Some now_iso\<rparr> else t0);
                t2 = (if t_status t1 \<in> set [''expected'', []] then t1\<lparr>t_status := ''running''\<rparr> else t1);
                seed = py_str (or_str (or_str (or_str (or_str (pa_uri args) (pa_local_path args))
                                 (pa_local_glob args)) (pa_gcs_glob args))
                                 (Some (tid @ '':'' @ now_iso)));
                aid = py_str (or_str (pa_asset_id args) (Some (tid @ ''/produced/'' @ sha12 seed)))
            in case ensure_asset now_iso (assets c) aid tid of
                 (as, j) \<Rightarrow>
                   let a1 = record_produced_asset args tid (as ! j) in
                   (case (case pa_extra_json args of
                            None \<Rightarrow> Inr a1
                          | Some (JObj ex) \<Rightarrow> Inr (a1\<lparr>extra := dict_update (extra a1) ex\<rparr>)
                          | Some _ \<Rightarrow> Inl ''--extra-json-file must be a JSON object'') of
                      Inl e \<Rightarrow> Inl e
                    | Inr a2 \<Rightarrow>
                        let ids = t_asset_ids t2;
                            t3 = t2\<lparr>t_asset_ids := sorted_set (if aid \<in> set ids then ids else ids @ [aid])\<rparr>
                        in Inr (c\<lparr>tasks := ts[i := t3], assets := as[j := a2]\<rparr>)))"

subsection \<open>What an operation leaves behind\<close>

text \<open>
  \<^verbatim>\<open>main\<close> returns the handler's value, and 1 when the handler raises \<^verbatim>\<open>ValueError\<close>;
  the document is written only when the handler does not raise.
\<close>

definition exit_code :: "string + contract \<times> int \<Rightarrow> int" where
  "exit_code r = (case r of Inl e \<Rightarrow> 1 | Inr x \<Rightarrow> snd x)"

definition assets_written :: "string + contract \<times> int \<Rightarrow> asset list" where
  "assets_written r = (case r of Inl e \<Rightarrow> [] | Inr x \<Rightarrow> assets (fst x))"

definition tasks_written :: "string + contract \<times> int \<Rightarrow> task list" where
  "tasks_written r = (case r of Inl e \<Rightarrow> [] | Inr x \<Rightarrow> tasks (fst x))"

definition run_status_written :: "string + contract \<times> int \<Rightarrow> string option" where
  "run_status_written r = (case r of Inl e \<Rightarrow> None | Inr x \<Rightarrow> Some (run_status (fst x)))"

text \<open>What the repair of the task references does to an asset.\<close>

definition fix_task_id :: "asset \<Rightarrow> asset" where
  "fix_task_id a = (if task_id a = [] then a\<lparr>task_id := ''unassigned''\<rparr> else a)"

subsection \<open>Invariants of the repair loop\<close>

text \<open>Two facts the repair loop keeps: tasks only grow, and \<^verbatim>\<open>task_map\<close> points at tasks of its key.\<close>

definition tasks_grow :: "task list \<Rightarrow> task list \<Rightarrow> bool" where
  "tasks_grow ts ts' =
     (length ts \<le> length ts'
      \<and> (\<forall>i < length ts. t_task_id (ts' ! i) = t_task_id (ts ! i)
            \<and> set (t_asset_ids (ts ! i)) \<subseteq> set (t_asset_ids (ts' ! i))))"

definition task_map_ok :: "task list \<Rightarrow> (string \<Rightarrow> nat option) \<Rightarrow> bool" where
  "task_map_ok ts tm = (\<forall>k i. tm k = Some i \<longrightarrow> i < length ts \<and> t_task_id (ts ! i) = k)"

subsection \<open>Bytes brought into memory by the corruption auditor\<close>

text \<open>
  The size of the content that \<^verbatim>\<open>_read_json_from_asset\<close> holds in memory. A local
  file is read (\<^verbatim>\<open>path.read_text\<close>) only below the test of \<^verbatim>\<open>st_size\<close>; the output of
  \<^verbatim>\<open>gsutil cat\<close> is captured whole by \<^verbatim>\<open>subprocess.run(..., capture_output=True)\<close>
  before its length is compared with \<^verbatim>\<open>max_bytes\<close>.
\<close>

definition bytes_fetched :: "world \<Rightarrow> asset \<Rightarrow> nat \<Rightarrow> nat" where
  "bytes_fetched w a max_bytes =
     (if truthy_str (local_path a) then
        (let path = py_str (local_path a) in
         if \<not> fs_exists w path \<or> \<not> fs_is_file w path then 0
         else (case fs_size w path of
                 None \<Rightarrow> 0
               | Some sz \<Rightarrow> if sz > max_bytes then 0 else sz))
      else if truthy_str (uri a) \<and> startswith (py_str (uri a)) ''gs://'' then
        (if \<not> gsutil_present w then 0
         else length (stdout (gsutil_cat_run w (py_str (uri a)))))
      else 0)"

subsection \<open>Example worlds and documents\<close>

definition proc_failed :: proc where
  "proc_failed = \<lparr>returncode = 1, stdout = [], stderr = []\<rparr>"

text \<open>A machine with one local file and no \<^verbatim>\<open>gsutil\<close>.\<close>

definition world_local :: world where
  "world_local =
     \<lparr>fs_resolve = (\<lambda>p. p),
      fs_exists = (\<lambda>p. p = ''/data/in.csv''),
      fs_is_file = (\<lambda>p. p = ''/data/in.csv''),
      fs_glob = (\<lambda>p. []),
      fs_size = (\<lambda>p. Some 12),
      fs_read_text = (\<lambda>p. Some ''{}''),
      json_loads = (\<lambda>s. Some (JObj [])),
      gsutil_present = False,
      gsutil_stat_run = (\<lambda>u. proc_failed),
      gsutil_ls_run = (\<lambda>u. proc_failed),
      gsutil_cat_run = (\<lambda>u. proc_failed)\<rparr>"

text \<open>The same machine with \<^verbatim>\<open>gsutil\<close>, every call of which finishes as \<open>p\<close>.\<close>

definition world_gsutil :: "proc \<Rightarrow> world" where
  "world_gsutil p =
     world_local\<lparr>gsutil_present := True, gsutil_stat_run := (\<lambda>u. p),
                 gsutil_ls_run := (\<lambda>u. p), gsutil_cat_run := (\<lambda>u. p)\<rparr>"

definition proc_listing :: proc where
  "proc_listing =
     \<lparr>returncode = 0,
      stdout = ''gs://bkt/out/b.tif'' @ [CHR 0x0A] @ ''gs://bkt/out/'' @ [CHR 0x0A]
                 @ ''  gs://bkt//out/a.tif'' @ [CHR 0x0A] @ ''gs://bkt/out/b.tif'' @ [CHR 0x0A],
      stderr = []\<rparr>"

definition proc_empty_listing :: proc where
  "proc_empty_listing = \<lparr>returncode = 0, stdout = [], stderr = []\<rparr>"

definition proc_no_match :: proc where
  "proc_no_match =
     \<lparr>returncode = 1, stdout = [], stderr = ''CommandException: One or more URLs matched no objects.''\<rparr>"

definition proc_denied :: proc where
  "proc_denied = \<lparr>returncode = 1, stdout = [], stderr = ''AccessDenied''\<rparr>"

definition asset_out :: asset where
  "asset_out = new_asset ''t0'' ''out/a'' ''build''"

definition asset_glob :: asset where
  "asset_glob = asset_out\<lparr>gcs_glob := Some ''gs://bkt/out/*.tif''\<rparr>"

text \<open>An input asset whose file is there and that carries an error.\<close>

definition asset_in :: asset where
  "asset_in = (new_asset ''t0'' ''in/a'' ''build'')
                \<lparr>role := ''input'', local_path := Some ''/data/in.csv'',
                 error := Some [(''message'', JStr ''boom'')]\<rparr>"

definition task_build :: task where
  "task_build = new_task ''t0'' ''build''"

definition doc_of :: "task list \<Rightarrow> asset list \<Rightarrow> contract" where
  "doc_of ts as =
     \<lparr>tasks = ts, assets = as, run_status = ''STARTED'', run_completed_at = None,
      run_output_location = None, verification = [], preflight = []\<rparr>"

definition doc_in :: contract where
  "doc_in = doc_of [task_build\<lparr>t_asset_ids := [''in/a'']\<rparr>] [asset_in]"

definition args_strict :: finalize_args where
  "args_strict = \<lparr>fa_status = None, fa_output_location = None, fa_verification_json = None,
                  fa_audit_corruption = None, fa_strict = True\<rparr>"

text \<open>A required asset that is missing, an optional one that failed, and the task that lists both.\<close>

definition assets_mixed :: "asset list" where
  "assets_mixed =
     [asset_out\<lparr>status := ''missing''\<rparr>,
      asset_out\<lparr>asset_id := Some ''out/b'', required := False, status := ''failed''\<rparr>]"

definition task_two :: task where
  "task_two = task_build\<lparr>t_asset_ids := [''out/a'', ''out/b'']\<rparr>"

text \<open>A required asset with an empty id that carries an error.\<close>

definition doc_noid :: contract where
  "doc_noid = doc_of [task_build]
                [asset_out\<lparr>asset_id := Some [], error := Some [(''message'', JStr ''boom'')]\<rparr>]"

text \<open>A required input in object storage, on the machine without \<^verbatim>\<open>gsutil\<close>.\<close>

definition doc_remote_in :: contract where
  "doc_remote_in = doc_of [task_build\<lparr>t_asset_ids := [''in/a'']\<rparr>]
                     [asset_in\<lparr>local_path := None, uri := Some ''gs://bkt/in.csv'', error := None\<rparr>]"

text \<open>The same arguments without strict mode.\<close>

definition args_lenient :: finalize_args where
  "args_lenient = args_strict\<lparr>fa_strict := False\<rparr>"

text \<open>An output whose file is there, owned by the task \<^verbatim>\<open>build\<close>.\<close>

definition doc_local_out :: contract where
  "doc_local_out = doc_of [task_build\<lparr>t_asset_ids := [''out/a'']\<rparr>]
                     [asset_out\<lparr>local_path := Some ''/data/in.csv''\<rparr>]"

text \<open>An asset of a task that the document does not list, and one with an empty id.\<close>

definition doc_orphan :: contract where
  "doc_orphan = doc_of [] [asset_out\<lparr>task_id := []\<rparr>]"

definition doc_orphan_noid :: contract where
  "doc_orphan_noid = doc_of [] [asset_out\<lparr>asset_id := Some [], task_id := ''ghost''\<rparr>]"

text \<open>Assets in two folders of a bucket, and a glob with a wildcard in the bucket name.\<close>

definition asset_d1 :: asset where
  "asset_d1 = asset_out\<lparr>uri := Some ''gs://bkt/d/f.tif''\<rparr>"

definition asset_d2 :: asset where
  "asset_d2 = asset_out\<lparr>asset_id := Some ''out/b'', gcs_glob := Some ''gs://bkt/d/*.json''\<rparr>"

definition asset_e1 :: asset where
  "asset_e1 = asset_out\<lparr>asset_id := Some ''out/c'', uri := Some ''gs://bkt/e/g.tif''\<rparr>"

definition asset_any_bucket :: asset where
  "asset_any_bucket = asset_out\<lparr>asset_id := Some ''out/w'', gcs_glob := Some ''gs://bkt-*/out/x.tif''\<rparr>"

text \<open>Metadata assets, a parser with a fixed result, and an object of 2,000,001 bytes.\<close>

definition world_json :: "json \<Rightarrow> world" where
  "world_json j = world_local\<lparr>json_loads := (\<lambda>s. Some j)\<rparr>"

definition asset_meta :: asset where
  "asset_meta = asset_in\<lparr>kind := ''metadata'', error := None\<rparr>"

definition asset_meta_gs :: asset where
  "asset_meta_gs = asset_out\<lparr>kind := ''metadata'', uri := Some ''gs://bkt/meta.json''\<rparr>"

definition proc_big :: proc where
  "proc_big = \<lparr>returncode = 0, stdout = replicate 2000001 (CHR ''x''), stderr = []\<rparr>"

text \<open>Two required assets that carry the same id: the first has no file, the second has one.\<close>

definition doc_twins :: contract where
  "doc_twins = doc_of [task_build\<lparr>t_asset_ids := [''out/a'']\<rparr>]
                 [asset_out\<lparr>local_path := Some ''/data/gone.csv''\<rparr>,
                  asset_out\<lparr>local_path := Some ''/data/in.csv''\<rparr>]"

text \<open>The assets of \<open>assets_mixed\<close> and a required asset that failed and that no task lists.\<close>

definition assets_unlisted :: "asset list" where
  "assets_unlisted =
     assets_mixed @ [asset_out\<lparr>asset_id := Some ''out/c'', status := ''failed''\<rparr>]"

text \<open>An asset whose only location is the glob \<^verbatim>\<open>gs://\<close>, and one whose glob has no wildcard.\<close>

definition asset_scheme_only :: asset where
  "asset_scheme_only = asset_out\<lparr>asset_id := Some ''out/s'', gcs_glob := Some ''gs://''\<rparr>"

definition asset_plain_glob :: asset where
  "asset_plain_glob = asset_out\<lparr>asset_id := Some ''out/p'', gcs_glob := Some ''gs://bkt/d/x.tif''\<rparr>"

definition asset_bucket_uri :: asset where
  "asset_bucket_uri = asset_out\<lparr>asset_id := Some ''out/u'', uri := Some ''gs://bkt''\<rparr>"

text \<open>
  Listings of \<^verbatim>\<open>gsutil ls -r\<close> for a glob that matches a folder: the objects of the folder
  come under a header line, the name of the folder followed by a colon. In the second
  listing the folder holds its placeholder object only.
\<close>

definition asset_glob_all :: asset where
  "asset_glob_all = asset_out\<lparr>gcs_glob := Some ''gs://bkt/out/*''\<rparr>"

definition proc_recursive_listing :: proc where
  "proc_recursive_listing =
     \<lparr>returncode = 0,
      stdout = ''gs://bkt/out/a.tif'' @ [CHR 0x0A] @ [CHR 0x0A]
                 @ ''gs://bkt/out/sub/:'' @ [CHR 0x0A] @ ''gs://bkt/out/sub/b.tif'' @ [CHR 0x0A],
      stderr = []\<rparr>"

definition proc_folder_only :: proc where
  "proc_folder_only =
     \<lparr>returncode = 0,
      stdout = ''gs://bkt/out/sub/:'' @ [CHR 0x0A] @ ''gs://bkt/out/sub/'' @ [CHR 0x0A],
      stderr = []\<rparr>"

text \<open>Listings that fail and write nothing to the error stream.\<close>

definition proc_killed :: proc where
  "proc_killed = \<lparr>returncode = - 9, stdout = [], stderr = []\<rparr>"

definition proc_failed_silent :: proc where
  "proc_failed_silent = \<lparr>returncode = 2, stdout = [], stderr = [CHR 0x0A]\<rparr>"

section \<open>Properties\<close>

subsection \<open>Auxiliary facts\<close>

lemma set_sorted_set: "set (sorted_set xs) = set xs"
  by (simp add: sorted_set_def)

lemma sorted_sorted_set: "sorted (sorted_set xs)"
  by (simp add: sorted_set_def)

lemma distinct_sorted_set: "distinct (sorted_set xs)"
  by (simp add: sorted_set_def)

lemma sorted_set_Nil_iff: "sorted_set xs = [] \<longleftrightarrow> xs = []"
  using set_sorted_set [of xs] by (metis set_empty)

lemma finalize_asset_fields:
  "error (finalize_asset w au a) = error a"
  "produced (finalize_asset w au a) = produced a"
  "has_location (finalize_asset w au a) = has_location a"
  "asset_id (finalize_asset w au a) = asset_id a"
  "asset_aid (finalize_asset w au a) = asset_aid a"
  "task_id (finalize_asset w au a) = task_id a"
  "required (finalize_asset w au a) = required a"
  "role (finalize_asset w au a) = role a"
  by (simp_all add: finalize_asset_def has_location_def asset_aid_def split: prod.splits)

lemma finalize_asset_status:
  "status (finalize_asset w au a) =
     finalize_status a (exists (finalize_asset w au a)) (corrupt (finalize_asset w au a))"
  by (simp add: finalize_asset_def split: prod.splits)

lemma preflight_asset_status:
  "status (preflight_asset w a) = preflight_status (exists (preflight_asset w a))"
  by (simp add: preflight_asset_def split: prod.splits)

lemma preflight_asset_role: "role (preflight_asset w a) = role a"
  by (simp add: preflight_asset_def split: prod.splits)

lemma cmd_finalize_assets:
  assumes "cmd_finalize now_iso w args c = Inr (c', rc)"
  shows "assets c' = map (finalize_asset w (parse_bool (fa_audit_corruption args) True))
                        (assets (repair_references now_iso c))"
  using assms
  by (auto simp: cmd_finalize_def Let_def split: option.splits json.splits sum.splits)

lemma gsutil_ls_cases:
  "gsutil_ls w pat =
     (if \<not> gsutil_present w then (None, ''gsutil_unavailable'')
      else if returncode (gsutil_ls_run w pat) = 0
        then (Some (sorted_set (ls_items (splitlines (stdout (gsutil_ls_run w pat))))), ''gcs_glob'')
      else if contains (lower (replace_newlines (strip (stderr (gsutil_ls_run w pat))))) ''matched no objects''
        then (Some [], ''gcs_glob'')
      else (None, ''gsutil_ls_failed:'' @
              (if replace_newlines (strip (stderr (gsutil_ls_run w pat))) \<noteq> []
               then replace_newlines (strip (stderr (gsutil_ls_run w pat)))
               else str_int (returncode (gsutil_ls_run w pat)))))"
  by (simp add: gsutil_ls_def Let_def)

lemma asset_exists_gcs_glob:
  assumes "\<not> truthy_str (local_path a)" "\<not> truthy_str (uri a)" "\<not> truthy_str (local_glob a)"
    and "truthy_str (gcs_glob a)"
  shows "asset_exists w a =
     (case gsutil_ls w (py_str (gcs_glob a)) of
        (None, reason) \<Rightarrow> (None, reason, [])
      | (Some matches, reason) \<Rightarrow> (Some (matches \<noteq> []), reason, matches))"
  using assms by (simp add: asset_exists_def)

lemma counts_get_bump: "counts_get (bump s m) k = counts_get m k + (if s = k then 1 else 0)"
  by (induction s m rule: bump.induct) (auto simp: counts_get_def)

lemma counts_get_foldl_bump:
  "counts_get (foldl (\<lambda>m s. bump s m) m ss) k = counts_get m k + count_list ss k"
  by (induction ss arbitrary: m) (auto simp: counts_get_bump)

lemma counts_get_status_counts: "counts_get (status_counts ss) k = count_list ss k"
  by (simp add: status_counts_def counts_get_foldl_bump) (simp add: counts_get_def)

lemma count_list_pos_iff: "0 < count_list ss k \<longleftrightarrow> k \<in> set ss"
  by (induction ss) auto

lemma counts_get_pos_iff: "0 < counts_get (status_counts ss) k \<longleftrightarrow> k \<in> set ss"
  by (simp add: counts_get_status_counts count_list_pos_iff)

lemma last_index_bound: "last_index P xs = Some i \<Longrightarrow> i < length xs \<and> P (xs ! i)"
  by (induction xs arbitrary: i) (auto split: option.splits if_splits)

lemma last_index_map: "last_index P (map f xs) = last_index (\<lambda>x. P (f x)) xs"
  by (induction xs) auto

lemma asset_index_map:
  assumes "\<And>a. asset_id (f a) = asset_id a"
  shows "asset_index (map f as) = asset_index as"
  by (rule ext) (simp add: asset_index_def last_index_map assms)

lemma asset_index_bound: "asset_index as k = Some i \<Longrightarrow> i < length as \<and> py_str (asset_id (as ! i)) = k"
  unfolding asset_index_def by (drule last_index_bound) simp

lemma repair_asset_fst: "fst (repair_asset now_iso a ts tm) = fix_task_id a"
  by (simp add: repair_asset_def fix_task_id_def Let_def split: option.splits prod.splits)

lemma repair_loop_assets: "fst (repair_loop now_iso as ts tm) = map fix_task_id as"
proof (induction as arbitrary: ts tm)
  case Nil
  then show ?case by simp
next
  case (Cons a as)
  obtain a' ts1 tm1 where s: "repair_asset now_iso a ts tm = (a', ts1, tm1)"
    by (cases "repair_asset now_iso a ts tm") auto
  obtain as' ts2 tm2 where r: "repair_loop now_iso as ts1 tm1 = (as', ts2, tm2)"
    by (cases "repair_loop now_iso as ts1 tm1") auto
  have "a' = fix_task_id a" using repair_asset_fst [of now_iso a ts tm] s by simp
  moreover have "as' = map fix_task_id as" using Cons.IH [of ts1 tm1] r by simp
  ultimately show ?case using s r by simp
qed

lemma repair_references_assets: "assets (repair_references now_iso c) = map fix_task_id (assets c)"
  using repair_loop_assets [of now_iso "assets c" "tasks c" "task_index (tasks c)"]
  by (cases "repair_loop now_iso (assets c) (tasks c) (task_index (tasks c))")
     (simp add: repair_references_def)

lemma fix_task_id_fields:
  "asset_id (fix_task_id a) = asset_id a"
  "asset_aid (fix_task_id a) = asset_aid a"
  "error (fix_task_id a) = error a"
  "required (fix_task_id a) = required a"
  "status (fix_task_id a) = status a"
  by (simp_all add: fix_task_id_def asset_aid_def)

lemma cmd_finalize_asset_index:
  assumes "cmd_finalize now_iso w args c = Inr (c', rc)"
  shows "asset_index (assets c') = asset_index (assets c)"
proof -
  have "assets c' = map (\<lambda>a. finalize_asset w (parse_bool (fa_audit_corruption args) True) (fix_task_id a)) (assets c)"
    using cmd_finalize_assets [OF assms] by (simp add: repair_references_assets)
  then show ?thesis
    by (simp add: asset_index_map finalize_asset_fields fix_task_id_fields)
qed

lemma cmd_finalize_tasks:
  assumes "cmd_finalize now_iso w args c = Inr (c', rc)"
  shows "tasks c' = map (finalize_task now_iso (assets c') (asset_index (assets c')))
                       (tasks (repair_references now_iso c))"
proof -
  have "tasks c' = map (finalize_task now_iso (assets c') (asset_index (assets c)))
                       (tasks (repair_references now_iso c))"
    using assms
    by (auto simp: cmd_finalize_def Let_def split: option.splits json.splits sum.splits)
  then show ?thesis by (simp add: cmd_finalize_asset_index [OF assms])
qed

lemma cmd_finalize_run_status:
  assumes "cmd_finalize now_iso w args c = Inr (c', rc)"
  shows "run_status c' =
     (if strip (case fa_status args of None \<Rightarrow> [] | Some s \<Rightarrow> s) \<noteq> []
      then strip (case fa_status args of None \<Rightarrow> [] | Some s \<Rightarrow> s)
      else compute_run_status (counts_get (status_counts (map t_status (tasks c'))) ''failed'')
             (missing_required_of (assets c')) (corrupt_required_of (assets c'))
             (unknown_required_of (assets c')))"
  using assms
  by (auto simp: cmd_finalize_def Let_def split: option.splits json.splits sum.splits)

lemma cmd_finalize_rc:
  assumes "cmd_finalize now_iso w args c = Inr (c', rc)"
  shows "rc = (if fa_strict args \<and>
                 strict_failure (verification c')
                   (counts_get (status_counts (map t_status (tasks c'))) ''failed'')
               then 2 else 0)"
  using assms
  by (auto simp: cmd_finalize_def Let_def split: option.splits json.splits sum.splits)

lemma cmd_finalize_verification_plain:
  assumes "cmd_finalize now_iso w args c = Inr (c', rc)" and "fa_verification_json args = None"
  shows "verification c' = build_verification now_iso (assets c') (tasks c')"
  using assms
  by (auto simp: cmd_finalize_def Let_def split: option.splits json.splits sum.splits)

lemma cmd_finalize_total:
  "(\<exists>c' rc. cmd_finalize now_iso w args c = Inr (c', rc))
   \<or> (\<exists>v. fa_verification_json args = Some v \<and> (\<forall>ex. v \<noteq> JObj ex)
         \<and> cmd_finalize now_iso w args c = Inl ''--verification-json-file must be a JSON object'')"
  by (auto simp: cmd_finalize_def Let_def split: option.splits json.splits sum.splits)

lemma required_assets_required: "a \<in> set (required_assets_of as idx t) \<Longrightarrow> required a"
  by (auto simp: required_assets_of_def map_filter_def split: option.splits if_splits)

lemma required_statuses_map:
  assumes ids: "\<And>a. asset_id (f a) = asset_id a"
    and req: "\<And>a. required (f a) = required a"
    and st: "\<And>a. required a \<Longrightarrow> status (f a) = status a"
    and rng: "\<And>k i. idx k = Some i \<Longrightarrow> i < length as"
  shows "map (\<lambda>a. status_or_unknown (status a)) (required_assets_of (map f as) idx t)
       = map (\<lambda>a. status_or_unknown (status a)) (required_assets_of as idx t)"
proof -
  have "map (\<lambda>a. status_or_unknown (status a))
          (List.map_filter (\<lambda>aid. case idx aid of None \<Rightarrow> None
              | Some i \<Rightarrow> if required (map f as ! i) then Some (map f as ! i) else None) ids)
      = map (\<lambda>a. status_or_unknown (status a))
          (List.map_filter (\<lambda>aid. case idx aid of None \<Rightarrow> None
              | Some i \<Rightarrow> if required (as ! i) then Some (as ! i) else None) ids)" for ids
  proof (induction ids)
    case Nil
    then show ?case by (simp add: map_filter_simps)
  next
    case (Cons k ids)
    show ?case
    proof (cases "idx k")
      case None
      then show ?thesis using Cons by (simp add: map_filter_simps)
    next
      case (Some i)
      then have "i < length as" by (rule rng)
      then have "map f as ! i = f (as ! i)" by simp
      then show ?thesis using Cons Some by (simp add: map_filter_simps req st)
    qed
  qed
  then show ?thesis by (simp add: required_assets_of_def)
qed

lemma missing_required_nonempty:
  "missing_required_of as \<noteq> [] \<longleftrightarrow> (\<exists>a \<in> set as. required a \<and> status a \<in> {''missing'', ''failed''})"
  by (auto simp: missing_required_of_def status_in_def filter_empty_conv)

lemma corrupt_required_nonempty:
  "corrupt_required_of as \<noteq> [] \<longleftrightarrow> (\<exists>a \<in> set as. required a \<and> status a = ''corrupt'')"
  by (auto simp: corrupt_required_of_def status_in_def filter_empty_conv)

lemma unknown_required_nonempty:
  "unknown_required_of as \<noteq> [] \<longleftrightarrow> (\<exists>a \<in> set as. required a \<and> status a = ''unknown'')"
  by (auto simp: unknown_required_of_def status_in_def filter_empty_conv)

lemma failed_count_pos:
  "0 < counts_get (status_counts (map t_status ts)) ''failed'' \<longleftrightarrow> (\<exists>t \<in> set ts. t_status t = ''failed'')"
proof -
  have "''failed'' \<in> set (map t_status ts) \<longleftrightarrow> (\<exists>t \<in> set ts. t_status t = ''failed'')"
    by (induction ts) auto
  then show ?thesis by (simp only: counts_get_pos_iff)
qed

lemma preflight_input_status:
  assumes "a \<in> set (assets (fst (cmd_preflight now_iso w strict c)))" and "role a = ''input''"
  shows "status a = preflight_status (exists a)"
proof -
  from assms(1)
  have "a \<in> (\<lambda>a. if role a = ''input'' then preflight_asset w a else a) ` set (assets c)"
    by (simp add: cmd_preflight_def Let_def)
  then obtain b where "a = (if role b = ''input'' then preflight_asset w b else b)" by blast
  with assms(2) show ?thesis
    by (auto simp: preflight_asset_status preflight_asset_role split: if_splits)
qed

lemma cmd_preflight_rc:
  "snd (cmd_preflight now_iso w strict c) =
     (if strict \<and> (\<exists>a \<in> set (assets (fst (cmd_preflight now_iso w strict c))).
                      role a = ''input'' \<and> exists a = Some False \<and> required a)
      then 2 else 0)"
  by (auto simp: cmd_preflight_def Let_def filter_empty_conv)

lemma truthy_ids_json: "truthy (ids_json ids) \<longleftrightarrow> ids \<noteq> []"
  by (simp add: ids_json_def sorted_set_Nil_iff)

lemma verification_lists:
  "dict_get (build_verification now_iso as ts) ''missing_required_asset_ids'' = ids_json (missing_required_of as)"
  "dict_get (build_verification now_iso as ts) ''corrupt_required_asset_ids'' = ids_json (corrupt_required_of as)"
  "dict_get (build_verification now_iso as ts) ''unverified_required_asset_ids'' = ids_json (unknown_required_of as)"
  by (simp_all add: build_verification_def dict_get_def)

lemma first_index_bound: "first_index P xs = Some i \<Longrightarrow> i < length xs \<and> P (xs ! i)"
  by (induction xs arbitrary: i) (auto split: if_splits)

lemma mark_failed_fields:
  "status (mark_failed err a) = ''failed''"
  "error (mark_failed err a) = (case err of None \<Rightarrow> error a | Some e \<Rightarrow> Some e)"
  "asset_id (mark_failed err a) = asset_id a"
  by (simp_all add: mark_failed_def split: option.splits)

lemma mark_failed_idem: "mark_failed err (mark_failed err a) = mark_failed err a"
  by (simp add: mark_failed_def split: option.splits)

lemma fail_assets_length: "length (fail_assets err idx ids as) = length as"
  by (induction ids arbitrary: as) (auto split: option.splits)

lemma fail_assets_nth:
  assumes "\<And>k i. idx k = Some i \<Longrightarrow> i < length as" and "j < length as"
  shows "fail_assets err idx ids as ! j =
           (if \<exists>aid \<in> set ids. idx aid = Some j then mark_failed err (as ! j) else as ! j)"
  using assms
proof (induction ids arbitrary: as)
  case Nil
  then show ?case by simp
next
  case (Cons k ids)
  show ?case
  proof (cases "idx k")
    case None
    then show ?thesis using Cons by simp
  next
    case (Some i)
    let ?as = "as[i := mark_failed err (as ! i)]"
    have "fail_assets err idx ids ?as ! j =
           (if \<exists>aid \<in> set ids. idx aid = Some j then mark_failed err (?as ! j) else ?as ! j)"
      by (rule Cons.IH) (use Cons.prems in auto)
    then show ?thesis using Some Cons.prems(2)
      by (cases "i = j") (auto simp: mark_failed_idem)
  qed
qed

lemma finalize_asset_error_failed:
  "truthy_dict (error a) \<Longrightarrow> status (finalize_asset w au a) = ''failed''"
  by (simp add: finalize_asset_status finalize_status_def)

lemma set_task_status_failed:
  assumes "first_index (\<lambda>t. t_task_id t = tid) (tasks c) = Some i"
  shows "tasks (set_task_status now_iso c tid ''failed'' err) ! i
           = (case err of None \<Rightarrow> (tasks c ! i)\<lparr>t_finished_at := Some now_iso, t_status := ''failed''\<rparr>
              | Some e \<Rightarrow> (tasks c ! i)\<lparr>t_finished_at := Some now_iso, t_status := ''failed'', t_error := Some e\<rparr>)"
    and "assets (set_task_status now_iso c tid ''failed'' err)
           = fail_assets err (asset_index (assets c)) (t_asset_ids (tasks c ! i)) (assets c)"
  using assms first_index_bound [OF assms]
  by (auto simp: set_task_status_def ensure_task_def Let_def finished_statuses_def split: option.splits)

lemma tasks_grow_refl: "tasks_grow ts ts"
  by (simp add: tasks_grow_def)

lemma tasks_grow_trans: "tasks_grow a b \<Longrightarrow> tasks_grow b c \<Longrightarrow> tasks_grow a c"
proof -
  assume ab: "tasks_grow a b" and bc: "tasks_grow b c"
  have "length a \<le> length c" using ab bc by (simp add: tasks_grow_def)
  moreover have "t_task_id (c ! i) = t_task_id (a ! i)
      \<and> set (t_asset_ids (a ! i)) \<subseteq> set (t_asset_ids (c ! i))" if "i < length a" for i
  proof -
    from that ab have ib: "i < length b" by (simp add: tasks_grow_def)
    from that ab have 1: "t_task_id (b ! i) = t_task_id (a ! i)"
      "set (t_asset_ids (a ! i)) \<subseteq> set (t_asset_ids (b ! i))"
      by (simp_all add: tasks_grow_def)
    from ib bc have 2: "t_task_id (c ! i) = t_task_id (b ! i)"
      "set (t_asset_ids (b ! i)) \<subseteq> set (t_asset_ids (c ! i))"
      by (simp_all add: tasks_grow_def)
    from 1 2 show ?thesis by auto
  qed
  ultimately show "tasks_grow a c" by (simp add: tasks_grow_def)
qed

lemma tasks_grow_append: "tasks_grow ts (ts @ [t])"
  by (simp add: tasks_grow_def nth_append)

lemma tasks_grow_update:
  assumes "i < length ts" "t_task_id t = t_task_id (ts ! i)"
    "set (t_asset_ids (ts ! i)) \<subseteq> set (t_asset_ids t)"
  shows "tasks_grow ts (ts[i := t])"
  using assms by (auto simp: tasks_grow_def nth_list_update)

lemma task_map_ok_grow: "task_map_ok ts tm \<Longrightarrow> tasks_grow ts ts' \<Longrightarrow> task_map_ok ts' tm"
  unfolding task_map_ok_def tasks_grow_def by (metis order_less_le_trans)

lemma task_map_ok_index: "task_map_ok ts (task_index ts)"
  unfolding task_map_ok_def task_index_def using last_index_bound by fastforce

lemma ensure_task_props:
  assumes "ensure_task now_iso ts tid = (ts', i)"
  shows "i < length ts' \<and> t_task_id (ts' ! i) = tid \<and> tasks_grow ts ts'"
  using assms first_index_bound [of "\<lambda>t. t_task_id t = tid" ts]
  by (auto simp: ensure_task_def new_task_def tasks_grow_refl tasks_grow_append nth_append
      split: option.splits)

lemma repair_asset_unfold:
  assumes "tid = task_id (fix_task_id a)"
  shows "repair_asset now_iso a ts tm =
     (case (case tm tid of
              Some i \<Rightarrow> (ts, tm, i)
            | None \<Rightarrow> (case ensure_task now_iso ts tid of
                         (ts1, i) \<Rightarrow> (ts1, tm(tid \<mapsto> i), i))) of
        (ts1, tm1, i) \<Rightarrow>
          if asset_aid a \<noteq> [] \<and> asset_aid a \<notin> set (t_asset_ids (ts1 ! i))
          then (fix_task_id a,
                ts1[i := (ts1 ! i)\<lparr>t_asset_ids := sorted_set (t_asset_ids (ts1 ! i) @ [asset_aid a])\<rparr>],
                tm1)
          else (fix_task_id a, ts1, tm1))"
proof (cases "task_id a = []")
  case True
  then have f: "fix_task_id a = a\<lparr>task_id := ''unassigned''\<rparr>"
    by (simp add: fix_task_id_def)
  have t: "tid = ''unassigned''" using assms by (simp add: f)
  show ?thesis unfolding f t by (simp add: repair_asset_def Let_def True)
next
  case False
  then have f: "fix_task_id a = a"
    by (simp add: fix_task_id_def)
  have t: "tid = task_id a" using assms by (simp add: f)
  show ?thesis unfolding f t by (simp add: repair_asset_def Let_def False)
qed

lemma repair_asset_props:
  assumes ok: "task_map_ok ts tm" and step: "repair_asset now_iso a ts tm = (a', ts', tm')"
  shows "task_map_ok ts' tm' \<and> tasks_grow ts ts' \<and> a' = fix_task_id a \<and> task_id a' \<noteq> []
     \<and> (\<exists>i < length ts'. t_task_id (ts' ! i) = task_id a'
            \<and> (asset_aid a' \<noteq> [] \<longrightarrow> asset_aid a' \<in> set (t_asset_ids (ts' ! i))))"
proof -
  define tid where "tid = task_id (fix_task_id a)"
  have a': "a' = fix_task_id a" using repair_asset_fst [of now_iso a ts tm] step by simp
  have tid: "task_id a' = tid" "tid \<noteq> []" "asset_aid a' = asset_aid a"
    by (auto simp: a' fix_task_id_def tid_def asset_aid_def)
  define found where "found = (case tm tid of Some i \<Rightarrow> (ts, tm, i)
      | None \<Rightarrow> (case ensure_task now_iso ts tid of (ts1, i) \<Rightarrow> (ts1, tm(tid \<mapsto> i), i)))"
  obtain ts1 tm1 i where look0: "found = (ts1, tm1, i)"
    by (cases found)
  then have look:
    "(case tm tid of Some i \<Rightarrow> (ts, tm, i)
      | None \<Rightarrow> (case ensure_task now_iso ts tid of (ts1, i) \<Rightarrow> (ts1, tm(tid \<mapsto> i), i))) = (ts1, tm1, i)"
    by (simp add: found_def)
  have p1: "task_map_ok ts1 tm1 \<and> tasks_grow ts ts1 \<and> i < length ts1 \<and> t_task_id (ts1 ! i) = tid"
  proof (cases "tm tid")
    case (Some k)
    then show ?thesis using look ok by (auto simp: tasks_grow_refl task_map_ok_def)
  next
    case None
    obtain ts2 k where e: "ensure_task now_iso ts tid = (ts2, k)" by (cases "ensure_task now_iso ts tid")
    from None look e have eq: "ts1 = ts2" "tm1 = tm(tid \<mapsto> k)" "i = k" by auto
    from ensure_task_props [OF e] task_map_ok_grow [OF ok, of ts2]
    show ?thesis unfolding eq by (auto simp: task_map_ok_def)
  qed
  let ?ids = "t_asset_ids (ts1 ! i)"
  let ?t = "(ts1 ! i)\<lparr>t_asset_ids := sorted_set (?ids @ [asset_aid a])\<rparr>"
  have res: "(ts', tm') = (if asset_aid a \<noteq> [] \<and> asset_aid a \<notin> set ?ids then (ts1[i := ?t], tm1) else (ts1, tm1))"
    using step unfolding repair_asset_unfold [OF tid_def] found_def [symmetric] look0
    by (auto split: if_splits)
  show ?thesis
  proof (cases "asset_aid a \<noteq> [] \<and> asset_aid a \<notin> set ?ids")
    case True
    then have eq: "ts' = ts1[i := ?t]" "tm' = tm1" using res by auto
    have g: "tasks_grow ts1 ts'" unfolding eq
      by (rule tasks_grow_update) (use p1 in \<open>auto simp: set_sorted_set\<close>)
    have "t_task_id (ts' ! i) = tid \<and> asset_aid a \<in> set (t_asset_ids (ts' ! i)) \<and> i < length ts'"
      using p1 by (simp add: eq set_sorted_set)
    then show ?thesis
      using p1 g task_map_ok_grow [of ts1 tm1 ts'] tasks_grow_trans [of ts ts1 ts'] a' tid eq
      by auto
  next
    case False
    then have eq: "ts' = ts1" "tm' = tm1" using res by auto
    then show ?thesis using p1 False a' tid by auto
  qed
qed

lemma repair_loop_props:
  assumes "task_map_ok ts tm" and "repair_loop now_iso as ts tm = (as', ts', tm')"
  shows "task_map_ok ts' tm' \<and> tasks_grow ts ts'
     \<and> (\<forall>a \<in> set as'. task_id a \<noteq> []
           \<and> (\<exists>i < length ts'. t_task_id (ts' ! i) = task_id a
                 \<and> (asset_aid a \<noteq> [] \<longrightarrow> asset_aid a \<in> set (t_asset_ids (ts' ! i)))))"
  using assms
proof (induction as arbitrary: ts tm as' ts' tm')
  case Nil
  then show ?case by (simp add: tasks_grow_refl)
next
  case (Cons a as)
  obtain a1 ts1 tm1 where s: "repair_asset now_iso a ts tm = (a1, ts1, tm1)"
    by (cases "repair_asset now_iso a ts tm")
  obtain as2 ts2 tm2 where r: "repair_loop now_iso as ts1 tm1 = (as2, ts2, tm2)"
    by (cases "repair_loop now_iso as ts1 tm1")
  from Cons.prems(2) s r have eq: "as' = a1 # as2" "ts' = ts2" "tm' = tm2" by auto
  note p = repair_asset_props [OF Cons.prems(1) s]
  from p have ok1: "task_map_ok ts1 tm1" by blast
  note q = Cons.IH [OF ok1 r]
  from p obtain i where i: "i < length ts1" "t_task_id (ts1 ! i) = task_id a1"
    "asset_aid a1 \<noteq> [] \<longrightarrow> asset_aid a1 \<in> set (t_asset_ids (ts1 ! i))"
    by blast
  from q have g: "tasks_grow ts1 ts2" by blast
  from g i have "i < length ts2 \<and> t_task_id (ts2 ! i) = task_id a1
      \<and> (asset_aid a1 \<noteq> [] \<longrightarrow> asset_aid a1 \<in> set (t_asset_ids (ts2 ! i)))"
    unfolding tasks_grow_def by (metis order_less_le_trans subsetD)
  then have h: "\<exists>i < length ts2. t_task_id (ts2 ! i) = task_id a1
      \<and> (asset_aid a1 \<noteq> [] \<longrightarrow> asset_aid a1 \<in> set (t_asset_ids (ts2 ! i)))"
    by blast
  from p q g h show ?case unfolding eq
    using tasks_grow_trans [of ts ts1 ts2] by auto
qed

lemma repair_references_props:
  assumes "a \<in> set (assets (repair_references now_iso c))"
  shows "task_id a \<noteq> []
     \<and> (\<exists>t \<in> set (tasks (repair_references now_iso c)). t_task_id t = task_id a
           \<and> (asset_aid a \<noteq> [] \<longrightarrow> asset_aid a \<in> set (t_asset_ids t)))"
proof -
  obtain as' ts' tm' where r: "repair_loop now_iso (assets c) (tasks c) (task_index (tasks c)) = (as', ts', tm')"
    by (cases "repair_loop now_iso (assets c) (tasks c) (task_index (tasks c))")
  then have eq: "assets (repair_references now_iso c) = as'" "tasks (repair_references now_iso c) = ts'"
    by (simp_all add: repair_references_def)
  from repair_loop_props [OF task_map_ok_index r] assms
  show ?thesis unfolding eq by (metis nth_mem)
qed

lemma repair_references_grow: "tasks_grow (tasks c) (tasks (repair_references now_iso c))"
proof -
  obtain as' ts' tm' where r: "repair_loop now_iso (assets c) (tasks c) (task_index (tasks c)) = (as', ts', tm')"
    by (cases "repair_loop now_iso (assets c) (tasks c) (task_index (tasks c))")
  then have eq: "tasks (repair_references now_iso c) = ts'"
    by (simp add: repair_references_def)
  from repair_loop_props [OF task_map_ok_index r] show ?thesis unfolding eq by blast
qed

lemma finalize_task_fields:
  "t_task_id (finalize_task now_iso as idx t) = t_task_id t"
  "t_asset_ids (finalize_task now_iso as idx t) = t_asset_ids t"
  by (simp_all add: finalize_task_def)

lemma map_of_setdefault_append:
  "map_of (setdefault_append f a g) k =
     (if k = f then Some ((case map_of g f of None \<Rightarrow> [] | Some l \<Rightarrow> l) @ [a]) else map_of g k)"
  by (induction f a g rule: setdefault_append.induct) auto

lemma keys_setdefault_append: "fst ` set (setdefault_append f a g) = insert f (fst ` set g)"
  by (induction f a g rule: setdefault_append.induct) auto

lemma distinct_setdefault_append:
  "distinct (map fst g) \<Longrightarrow> distinct (map fst (setdefault_append f a g))"
proof (induction f a g rule: setdefault_append.induct)
  case (1 f a)
  then show ?case by simp
next
  case (2 f a k l g)
  then show ?case using keys_setdefault_append [of f a g] by auto
qed

lemma mset_setdefault_append:
  "mset (concat (map snd (setdefault_append f a g))) = mset (concat (map snd g)) + {#a#}"
  by (induction f a g rule: setdefault_append.induct) auto

lemma group_loop_inv:
  assumes "distinct (map fst g)"
    and "\<And>k. map_of g k = (if filter (\<lambda>a. gcs_folder a = Some k) p = [] then None
                             else Some (filter (\<lambda>a. gcs_folder a = Some k) p))"
  shows "distinct (map fst (group_loop as g))
     \<and> (\<forall>k. map_of (group_loop as g) k =
            (if filter (\<lambda>a. gcs_folder a = Some k) (p @ as) = [] then None
             else Some (filter (\<lambda>a. gcs_folder a = Some k) (p @ as))))"
  using assms
proof (induction as arbitrary: g p)
  case Nil
  then show ?case by simp
next
  case (Cons a as)
  show ?case
  proof (cases "gcs_folder a")
    case None
    have "distinct (map fst (group_loop as g))
     \<and> (\<forall>k. map_of (group_loop as g) k =
            (if filter (\<lambda>a. gcs_folder a = Some k) ((p @ [a]) @ as) = [] then None
             else Some (filter (\<lambda>a. gcs_folder a = Some k) ((p @ [a]) @ as))))"
      by (rule Cons.IH) (use Cons.prems None in auto)
    then show ?thesis using None by simp
  next
    case (Some f)
    let ?g = "setdefault_append f a g"
    have "distinct (map fst (group_loop as ?g))
     \<and> (\<forall>k. map_of (group_loop as ?g) k =
            (if filter (\<lambda>a. gcs_folder a = Some k) ((p @ [a]) @ as) = [] then None
             else Some (filter (\<lambda>a. gcs_folder a = Some k) ((p @ [a]) @ as))))"
    proof (rule Cons.IH)
      show "distinct (map fst ?g)" using Cons.prems(1) by (rule distinct_setdefault_append)
      show "map_of ?g k = (if filter (\<lambda>a. gcs_folder a = Some k) (p @ [a]) = [] then None
                             else Some (filter (\<lambda>a. gcs_folder a = Some k) (p @ [a])))" for k
        using Some Cons.prems(2) [of k] Cons.prems(2) [of f]
        by (auto simp: map_of_setdefault_append)
    qed
    then show ?thesis using Some by simp
  qed
qed

lemma group_loop_mset:
  "mset (concat (map snd (group_loop as g)))
     = mset (concat (map snd g)) + mset (filter (\<lambda>a. gcs_folder a \<noteq> None) as)"
proof (induction as arbitrary: g)
  case Nil
  then show ?case by simp
next
  case (Cons a as)
  then show ?case by (cases "gcs_folder a") (auto simp: mset_setdefault_append)
qed

lemma group_assets_map_of:
  "distinct (map fst (group_assets_by_folder as))"
  "map_of (group_assets_by_folder as) k =
     (if filter (\<lambda>a. gcs_folder a = Some k) as = [] then None
      else Some (filter (\<lambda>a. gcs_folder a = Some k) as))"
  using group_loop_inv [of "[]" "[]" as] by (simp_all add: group_assets_by_folder_def)

lemma group_assets_member:
  "(f, l) \<in> set (group_assets_by_folder as)
     \<longleftrightarrow> l \<noteq> [] \<and> l = filter (\<lambda>a. gcs_folder a = Some f) as"
proof -
  have "(f, l) \<in> set (group_assets_by_folder as) \<longleftrightarrow> map_of (group_assets_by_folder as) f = Some l"
    by (rule map_of_eq_Some_iff [symmetric, OF group_assets_map_of(1)])
  also have "\<dots> \<longleftrightarrow> l \<noteq> [] \<and> l = filter (\<lambda>a. gcs_folder a = Some f) as"
    unfolding group_assets_map_of(2) by auto
  finally show ?thesis .
qed

lemma gcs_folder_destined: "gcs_folder a = Some f \<Longrightarrow> gcs_destined a"
  by (auto simp: gcs_folder_def gcs_destined_def split: if_splits)

lemma has_key_map_of: "has_key d k \<longleftrightarrow> map_of d k \<noteq> None"
  by (simp add: has_key_def map_of_eq_None_iff)

lemma finalize_asset_corrupt:
  "(corrupt (finalize_asset w au a), corrupt_reason (finalize_asset w au a))
     = audit_asset w au (exists (finalize_asset w au a)) a"
  by (simp add: finalize_asset_def split: prod.splits)

lemma read_json_local:
  assumes "truthy_str (local_path a)"
  shows "read_json_from_asset w a mb =
     (if \<not> fs_exists w (py_str (local_path a)) \<or> \<not> fs_is_file w (py_str (local_path a)) then JNull
      else (case fs_size w (py_str (local_path a)) of
              None \<Rightarrow> JNull
            | Some sz \<Rightarrow>
                if sz > mb then JNull
                else (case fs_read_text w (py_str (local_path a)) of
                        None \<Rightarrow> JNull
                      | Some txt \<Rightarrow> json_or_none (json_loads w txt))))"
  using assms by (simp add: read_json_from_asset_def Let_def)

lemma read_json_gs:
  assumes "\<not> truthy_str (local_path a)" "truthy_str (uri a)" "startswith (py_str (uri a)) ''gs://''"
  shows "read_json_from_asset w a mb =
     (if \<not> gsutil_present w then JNull
      else if returncode (gsutil_cat_run w (py_str (uri a))) \<noteq> 0 then JNull
      else if length (stdout (gsutil_cat_run w (py_str (uri a)))) > mb then JNull
      else json_or_none (json_loads w (stdout (gsutil_cat_run w (py_str (uri a))))))"
  using assms by (simp add: read_json_from_asset_def Let_def)

subsection \<open>The id index and the required assets of a task\<close>

lemma last_index_None_iff: "last_index P xs = None \<longleftrightarrow> (\<forall>x \<in> set xs. \<not> P x)"
  by (induction xs) (auto split: option.splits)

lemma last_index_Some_iff:
  "last_index P xs = Some i \<longleftrightarrow>
     i < length xs \<and> P (xs ! i) \<and> (\<forall>j. i < j \<and> j < length xs \<longrightarrow> \<not> P (xs ! j))"
proof (induction xs arbitrary: i)
  case Nil
  then show ?case by simp
next
  case (Cons x xs)
  show ?case
  proof (cases "last_index P xs")
    case None
    then have no: "\<forall>y \<in> set xs. \<not> P y" by (simp add: last_index_None_iff)
    then have no': "\<not> P (xs ! k)" if "k < length xs" for k using that by simp
    show ?thesis
    proof (cases i)
      case 0
      have "(\<forall>j. 0 < j \<and> j < Suc (length xs) \<longrightarrow> \<not> P ((x # xs) ! j))"
        using no' by (auto simp: nth_Cons split: nat.splits)
      then show ?thesis using None 0 by auto
    next
      case (Suc k)
      then show ?thesis using None no' by auto
    qed
  next
    case (Some k)
    note ih = Cons.IH [of k]
    from Some ih have k: "k < length xs" "P (xs ! k)"
      "\<forall>j. k < j \<and> j < length xs \<longrightarrow> \<not> P (xs ! j)" by auto
    show ?thesis
    proof (cases i)
      case 0
      have "0 < Suc k \<and> Suc k < length (x # xs) \<and> P ((x # xs) ! Suc k)" using k by simp
      then have "\<not> (\<forall>j. 0 < j \<and> j < length (x # xs) \<longrightarrow> \<not> P ((x # xs) ! j))" by blast
      then show ?thesis using Some 0 by simp
    next
      case (Suc m)
      have "(\<forall>j. Suc m < j \<and> j < length (x # xs) \<longrightarrow> \<not> P ((x # xs) ! j))
          \<longleftrightarrow> (\<forall>j. m < j \<and> j < length xs \<longrightarrow> \<not> P (xs ! j))"
      proof
        assume h: "\<forall>j. Suc m < j \<and> j < length (x # xs) \<longrightarrow> \<not> P ((x # xs) ! j)"
        show "\<forall>j. m < j \<and> j < length xs \<longrightarrow> \<not> P (xs ! j)"
        proof (intro allI impI)
          fix j assume "m < j \<and> j < length xs"
          then have "Suc m < Suc j \<and> Suc j < length (x # xs)" by simp
          with h have "\<not> P ((x # xs) ! Suc j)" by blast
          then show "\<not> P (xs ! j)" by simp
        qed
      next
        assume h: "\<forall>j. m < j \<and> j < length xs \<longrightarrow> \<not> P (xs ! j)"
        show "\<forall>j. Suc m < j \<and> j < length (x # xs) \<longrightarrow> \<not> P ((x # xs) ! j)"
        proof (intro allI impI)
          fix j assume j: "Suc m < j \<and> j < length (x # xs)"
          then obtain j' where j': "j = Suc j'" by (cases j) auto
          with j have "m < j' \<and> j' < length xs" by simp
          with h have "\<not> P (xs ! j')" by blast
          then show "\<not> P ((x # xs) ! j)" by (simp add: j')
        qed
      qed
      then show ?thesis using Some Suc Cons.IH [of m] by auto
    qed
  qed
qed

lemma set_map_filter_eq: "set (List.map_filter f xs) = {y. \<exists>x \<in> set xs. f x = Some y}"
  by (auto simp: map_filter_def image_iff) (metis option.sel)

lemma set_required_assets:
  "set (required_assets_of as (asset_index as) t) =
     {a. required a \<and> (\<exists>aid \<in> set (t_asset_ids t). \<exists>i < length as. as ! i = a
           \<and> py_str (asset_id a) = aid
           \<and> (\<forall>j. i < j \<and> j < length as \<longrightarrow> py_str (asset_id (as ! j)) \<noteq> aid))}"
proof -
  have "(case asset_index as aid of None \<Rightarrow> None
         | Some i \<Rightarrow> if required (as ! i) then Some (as ! i) else None) = Some a
      \<longleftrightarrow> required a \<and> (\<exists>i < length as. as ! i = a \<and> py_str (asset_id a) = aid
           \<and> (\<forall>j. i < j \<and> j < length as \<longrightarrow> py_str (asset_id (as ! j)) \<noteq> aid))" for aid a
  proof (cases "asset_index as aid")
    case None
    then have "\<forall>b \<in> set as. py_str (asset_id b) \<noteq> aid"
      by (simp add: asset_index_def last_index_None_iff)
    then have "\<not> (\<exists>i < length as. as ! i = a \<and> py_str (asset_id a) = aid)"
      by (metis nth_mem)
    then show ?thesis using None by auto
  next
    case (Some k)
    then have k: "k < length as" "py_str (asset_id (as ! k)) = aid"
      "\<forall>j. k < j \<and> j < length as \<longrightarrow> py_str (asset_id (as ! j)) \<noteq> aid"
      by (simp_all add: asset_index_def last_index_Some_iff)
    have uniq: "i = k" if "i < length as" "py_str (asset_id (as ! i)) = aid"
      "\<forall>j. i < j \<and> j < length as \<longrightarrow> py_str (asset_id (as ! j)) \<noteq> aid" for i
      using that k by (metis linorder_neqE_nat)
    show ?thesis
    proof
      assume "(case asset_index as aid of None \<Rightarrow> None
         | Some i \<Rightarrow> if required (as ! i) then Some (as ! i) else None) = Some a"
      then have "required (as ! k)" "a = as ! k" using Some by (auto split: if_splits)
      then show "required a \<and> (\<exists>i < length as. as ! i = a \<and> py_str (asset_id a) = aid
           \<and> (\<forall>j. i < j \<and> j < length as \<longrightarrow> py_str (asset_id (as ! j)) \<noteq> aid))"
        using k by blast
    next
      assume r: "required a \<and> (\<exists>i < length as. as ! i = a \<and> py_str (asset_id a) = aid
           \<and> (\<forall>j. i < j \<and> j < length as \<longrightarrow> py_str (asset_id (as ! j)) \<noteq> aid))"
      then obtain i where i: "i < length as" "as ! i = a" "py_str (asset_id a) = aid"
        "\<forall>j. i < j \<and> j < length as \<longrightarrow> py_str (asset_id (as ! j)) \<noteq> aid" by blast
      then have "i = k" using uniq [of i] by simp
      then show "(case asset_index as aid of None \<Rightarrow> None
         | Some i \<Rightarrow> if required (as ! i) then Some (as ! i) else None) = Some a"
        using Some i r by simp
    qed
  qed
  then show ?thesis
    unfolding required_assets_of_def set_map_filter_eq by blast
qed

lemma last_of_distinct:
  assumes "distinct (map g xs)"
  shows "{a. P a \<and> (\<exists>k \<in> K. \<exists>i < length xs. xs ! i = a \<and> g a = k
            \<and> (\<forall>j. i < j \<and> j < length xs \<longrightarrow> g (xs ! j) \<noteq> k))}
       = {a \<in> set xs. P a \<and> g a \<in> K}"
proof (intro set_eqI iffI)
  fix a
  assume "a \<in> {a. P a \<and> (\<exists>k \<in> K. \<exists>i < length xs. xs ! i = a \<and> g a = k
            \<and> (\<forall>j. i < j \<and> j < length xs \<longrightarrow> g (xs ! j) \<noteq> k))}"
  then show "a \<in> {a \<in> set xs. P a \<and> g a \<in> K}" by auto
next
  fix a
  assume "a \<in> {a \<in> set xs. P a \<and> g a \<in> K}"
  then have a: "a \<in> set xs" "P a" "g a \<in> K" by auto
  then obtain i where i: "i < length xs" "xs ! i = a" by (auto simp: in_set_conv_nth)
  have "g (xs ! j) \<noteq> g a" if "i < j" "j < length xs" for j
  proof -
    have "i < length (map g xs)" "j < length (map g xs)" "i \<noteq> j" using that i by simp_all
    with assms have "map g xs ! i \<noteq> map g xs ! j"
      using nth_eq_iff_index_eq by blast
    then show ?thesis using that i by auto
  qed
  then show "a \<in> {a. P a \<and> (\<exists>k \<in> K. \<exists>i < length xs. xs ! i = a \<and> g a = k
            \<and> (\<forall>j. i < j \<and> j < length xs \<longrightarrow> g (xs ! j) \<noteq> k))}"
    using a i by blast
qed

subsection \<open>The folder of a location\<close>

lemma rfind_slash_last_index: "rfind_slash s = last_index (\<lambda>c. c = CHR ''/'') s"
  by (induction s) simp_all

lemma rfind_slash_Some_iff:
  "rfind_slash s = Some i \<longleftrightarrow>
     i < length s \<and> s ! i = CHR ''/'' \<and> (\<forall>j. i < j \<and> j < length s \<longrightarrow> s ! j \<noteq> CHR ''/'')"
  unfolding rfind_slash_last_index by (rule last_index_Some_iff)

lemma takeWhile_longer_than_two:
  "2 < length (takeWhile P xs) \<longleftrightarrow> 2 < length xs \<and> (\<forall>x \<in> set (take 3 xs). P x)"
proof (cases xs)
  case Nil
  then show ?thesis by simp
next
  case (Cons a r)
  show ?thesis
  proof (cases r)
    case Nil
    then show ?thesis using Cons by simp
  next
    case (Cons b r')
    note r = this
    show ?thesis
    proof (cases r')
      case Nil
      then show ?thesis using \<open>xs = a # r\<close> r by simp
    next
      case (Cons c r'')
      then show ?thesis using \<open>xs = a # r\<close> r by (simp add: numeral_3_eq_3)
    qed
  qed
qed

subsection \<open>Asset status on a pass\<close>

text \<open>
  Claim C1, as the code has it. After a finalize pass the status of every asset follows
  the priority order over the asset's own fields: an error gives \<^verbatim>\<open>failed\<close>; else a
  declared location with existence false gives \<^verbatim>\<open>missing\<close>; else corruption true gives
  \<^verbatim>\<open>corrupt\<close>; else existence true gives \<^verbatim>\<open>ok\<close>; else a declared location with
  existence unknown gives \<^verbatim>\<open>unknown\<close>; else \<^verbatim>\<open>produced\<close> or \<^verbatim>\<open>expected\<close> by the
  produced flag. A preflight pass re-checks the input assets only and sets their status
  from existence alone (\<^verbatim>\<open>ok\<close>, \<^verbatim>\<open>missing\<close>, \<^verbatim>\<open>unknown\<close>); every other asset is
  left as it was.
\<close>

theorem asset_status_recomputed:
  "(\<forall>c' rc a. cmd_finalize now_iso w args c = Inr (c', rc) \<and> a \<in> set (assets c') \<longrightarrow>
      status a =
        (if truthy_dict (error a) then ''failed''
         else if has_location a \<and> exists a = Some False then ''missing''
         else if corrupt a = Some True then ''corrupt''
         else if exists a = Some True then ''ok''
         else if has_location a \<and> exists a = None then ''unknown''
         else if produced a then ''produced'' else ''expected''))
   \<and> (\<forall>a \<in> set (assets (fst (cmd_preflight now_iso w strict c))).
        if role a = ''input''
        then status a =
               (if exists a = Some True then ''ok''
                else if exists a = Some False then ''missing'' else ''unknown'')
        else a \<in> set (assets c))"
proof (intro conjI allI impI ballI)
  fix c' rc a
  assume h: "cmd_finalize now_iso w args c = Inr (c', rc) \<and> a \<in> set (assets c')"
  then obtain b where b: "a = finalize_asset w (parse_bool (fa_audit_corruption args) True) b"
    using cmd_finalize_assets [of now_iso w args c c' rc] by auto
  show "status a =
        (if truthy_dict (error a) then ''failed''
         else if has_location a \<and> exists a = Some False then ''missing''
         else if corrupt a = Some True then ''corrupt''
         else if exists a = Some True then ''ok''
         else if has_location a \<and> exists a = None then ''unknown''
         else if produced a then ''produced'' else ''expected'')"
    unfolding b finalize_asset_status [of w _ b] finalize_asset_fields
    by (simp add: finalize_status_def)
next
  fix a
  assume "a \<in> set (assets (fst (cmd_preflight now_iso w strict c)))"
  then have "a \<in> (\<lambda>a. if role a = ''input'' then preflight_asset w a else a) ` set (assets c)"
    by (simp add: cmd_preflight_def Let_def)
  then obtain b where b: "b \<in> set (assets c)"
      "a = (if role b = ''input'' then preflight_asset w b else b)"
    by auto
  show "if role a = ''input''
        then status a =
               (if exists a = Some True then ''ok''
                else if exists a = Some False then ''missing'' else ''unknown'')
        else a \<in> set (assets c)"
    using b by (simp add: preflight_asset_status preflight_asset_role preflight_status_def)
qed

theorem asset_status_recomputed_witness:
  "status (hd (assets_written (cmd_finalize ''t1'' world_local args_strict doc_in))) = ''failed''
   \<and> status (hd (assets (fst (cmd_preflight ''t1'' world_local True doc_in)))) = ''ok''"
proof -
  let ?R = "cmd_finalize ''t1'' world_local args_strict doc_in"
  let ?P = "cmd_preflight ''t1'' world_local True doc_in"
  have r: "?R = Inr (fst (projr ?R), snd (projr ?R))" by code_simp
  have w: "assets_written ?R = assets (fst (projr ?R))" by code_simp
  have m: "hd (assets (fst (projr ?R))) \<in> set (assets (fst (projr ?R)))" by code_simp
  have e: "truthy_dict (error (hd (assets (fst (projr ?R)))))" by code_simp
  have m2: "hd (assets (fst ?P)) \<in> set (assets (fst ?P))" by code_simp
  have r2: "role (hd (assets (fst ?P))) = ''input''" by code_simp
  have e2: "exists (hd (assets (fst ?P))) = Some True" by code_simp
  note t = asset_status_recomputed [of "''t1''" world_local args_strict doc_in True]
  from t r m e have "status (hd (assets (fst (projr ?R)))) = ''failed''"
    by (metis (full_types))
  moreover from t m2 r2 e2 have "status (hd (assets (fst ?P))) = ''ok''"
    by (metis (full_types))
  ultimately show ?thesis using w by simp
qed

theorem preflight_ignores_error_counterexample:
  "status (hd (assets (fst (cmd_preflight ''t1'' world_local False doc_in)))) = ''ok''
   \<and> truthy_dict (error (hd (assets (fst (cmd_preflight ''t1'' world_local False doc_in)))))
   \<and> role (hd (assets (fst (cmd_preflight ''t1'' world_local False doc_in)))) = ''input''"
  by code_simp

subsection \<open>Failing a task\<close>

text \<open>
  Claim C2, as the code has it. Setting the status of a task to \<^verbatim>\<open>failed\<close>, with any
  error payload or none, sets to \<^verbatim>\<open>failed\<close> the status of every asset that the id
  index of the document holds for an id listed in the task's \<^verbatim>\<open>asset_ids\<close>. A payload
  that is given is copied onto each of these assets; with no payload their error field
  is left as it was. When the payload is a non-empty object, each of these assets keeps
  the status \<^verbatim>\<open>failed\<close> and the error on a later finalize pass, whatever the existence
  check finds.
\<close>

theorem failed_task_propagation:
  assumes task: "first_index (\<lambda>t. t_task_id t = tid) (tasks c) = Some i"
    and listed: "aid \<in> set (t_asset_ids (tasks c ! i))"
    and found: "asset_index (assets c) aid = Some j"
    and c1: "c1 = set_task_status now_iso c tid ''failed'' err"
  shows "t_status (tasks c1 ! i) = ''failed''
     \<and> status (assets c1 ! j) = ''failed''
     \<and> error (assets c1 ! j) = (case err of None \<Rightarrow> error (assets c ! j) | Some e \<Rightarrow> Some e)
     \<and> (truthy_dict err \<longrightarrow>
          (\<forall>now2 w args c2 rc. cmd_finalize now2 w args c1 = Inr (c2, rc) \<longrightarrow>
             status (assets c2 ! j) = ''failed'' \<and> error (assets c2 ! j) = err))"
proof -
  have j: "j < length (assets c)" using asset_index_bound [OF found] by simp
  have as1: "assets c1 = fail_assets err (asset_index (assets c)) (t_asset_ids (tasks c ! i)) (assets c)"
    unfolding c1 by (rule set_task_status_failed(2) [OF task])
  have nth: "assets c1 ! j = mark_failed err (assets c ! j)"
    unfolding as1 using fail_assets_nth [of "asset_index (assets c)" "assets c" j err "t_asset_ids (tasks c ! i)"]
      asset_index_bound j listed found by auto
  have 1: "t_status (tasks c1 ! i) = ''failed''"
    unfolding c1 set_task_status_failed(1) [OF task] by (simp split: option.splits)
  have 2: "status (assets c1 ! j) = ''failed''"
    and 3: "error (assets c1 ! j) = (case err of None \<Rightarrow> error (assets c ! j) | Some e \<Rightarrow> Some e)"
    unfolding nth by (simp_all add: mark_failed_fields)
  have 4: "truthy_dict err \<longrightarrow>
          (\<forall>now2 w args c2 rc. cmd_finalize now2 w args c1 = Inr (c2, rc) \<longrightarrow>
             status (assets c2 ! j) = ''failed'' \<and> error (assets c2 ! j) = err)"
  proof (intro impI allI)
    fix now2 w args c2 rc
    assume t: "truthy_dict err" and r: "cmd_finalize now2 w args c1 = Inr (c2, rc)"
    have e1: "error (assets c1 ! j) = err" using 3 t by (auto simp: truthy_dict_def split: option.splits)
    have j1: "j < length (assets c1)" using j by (simp add: as1 fail_assets_length)
    have "assets c2 = map (finalize_asset w (parse_bool (fa_audit_corruption args) True))
                        (map fix_task_id (assets c1))"
      using cmd_finalize_assets [OF r] by (simp add: repair_references_assets)
    then have "assets c2 ! j = finalize_asset w (parse_bool (fa_audit_corruption args) True)
                                 (fix_task_id (assets c1 ! j))"
      using j1 by simp
    then show "status (assets c2 ! j) = ''failed'' \<and> error (assets c2 ! j) = err"
      using e1 t by (simp add: finalize_asset_error_failed finalize_asset_fields fix_task_id_fields)
  qed
  from 1 2 3 4 show ?thesis by blast
qed

theorem failed_task_propagation_witness:
  "status (hd (assets (set_task_status ''t1'' doc_local_out ''build'' ''failed''
       (Some [(''message'', JStr ''boom'')])))) = ''failed''
   \<and> error (hd (assets (set_task_status ''t1'' doc_local_out ''build'' ''failed''
       (Some [(''message'', JStr ''boom'')])))) = Some [(''message'', JStr ''boom'')]
   \<and> status (hd (assets_written (cmd_finalize ''t2'' world_local args_lenient
       (set_task_status ''t1'' doc_local_out ''build'' ''failed''
          (Some [(''message'', JStr ''boom'')]))))) = ''failed''"
proof -
  let ?e = "Some [(''message'', JStr ''boom'')]"
  let ?c1 = "set_task_status ''t1'' doc_local_out ''build'' ''failed'' ?e"
  let ?R = "cmd_finalize ''t2'' world_local args_lenient ?c1"
  have h: "first_index (\<lambda>t. t_task_id t = ''build'') (tasks doc_local_out) = Some 0"
    "''out/a'' \<in> set (t_asset_ids (tasks doc_local_out ! 0))"
    "asset_index (assets doc_local_out) ''out/a'' = Some 0"
    by code_simp+
  have t: "truthy_dict ?e" by code_simp
  have r: "?R = Inr (fst (projr ?R), snd (projr ?R))" by code_simp
  have n: "hd (assets ?c1) = assets ?c1 ! 0" "hd (assets_written ?R) = assets (fst (projr ?R)) ! 0"
    by code_simp+
  note p = failed_task_propagation [OF h refl, of "''t1''" ?e]
  from p have "status (assets ?c1 ! 0) = ''failed''" by blast
  moreover from p have "error (assets ?c1 ! 0) = ?e" by simp
  moreover from p t r have "status (assets (fst (projr ?R)) ! 0) = ''failed''" by blast
  ultimately show ?thesis unfolding n by blast
qed

theorem failed_without_error_counterexample:
  "map status (assets (set_task_status ''t1'' doc_local_out ''build'' ''failed'' None)) = [''failed'']
   \<and> map error (assets (set_task_status ''t1'' doc_local_out ''build'' ''failed'' None)) = [None]
   \<and> map status (assets_written (cmd_finalize ''t2'' world_local args_lenient
        (set_task_status ''t1'' doc_local_out ''build'' ''failed'' None))) = [''ok'']
   \<and> map t_status (tasks_written (cmd_finalize ''t2'' world_local args_lenient
        (set_task_status ''t1'' doc_local_out ''build'' ''failed'' None))) = [''failed'']"
  by code_simp

subsection \<open>Task rollup\<close>

text \<open>
  Claim C3. The required assets \<open>R\<close> of a task are the assets that the id index holds for
  the ids the task lists and that are required: for every listed id, the last asset of
  the document whose id, read with \<^verbatim>\<open>str\<close>, is that id. \<open>S\<close> is the set of their
  statuses, an empty status read as \<^verbatim>\<open>unknown\<close>. At finalize a task that is already
  \<^verbatim>\<open>failed\<close> stays \<^verbatim>\<open>failed\<close>. Otherwise \<open>S\<close> decides: any \<^verbatim>\<open>failed\<close> gives \<^verbatim>\<open>failed\<close>;
  else any \<^verbatim>\<open>missing\<close> gives \<^verbatim>\<open>succeeded_with_missing_outputs\<close>; else any
  \<^verbatim>\<open>corrupt\<close> gives \<^verbatim>\<open>succeeded_with_corrupt_outputs\<close>; else any \<^verbatim>\<open>unknown\<close> gives
  \<^verbatim>\<open>succeeded_with_unverified_outputs\<close>; else all \<^verbatim>\<open>ok\<close> gives \<^verbatim>\<open>succeeded\<close>; a set
  with none of these four and a status other than \<^verbatim>\<open>ok\<close> leaves the status of the task
  (\<^verbatim>\<open>unknown\<close> when it was empty). A task with no required asset becomes \<^verbatim>\<open>succeeded\<close>
  when its status was empty, \<^verbatim>\<open>expected\<close>, \<^verbatim>\<open>running\<close> or \<^verbatim>\<open>produced\<close>, and keeps its
  status otherwise. When the ids of the assets are pairwise distinct, \<open>R\<close> is the set of
  the required assets of the document whose id the task lists. Changing the status of
  assets that are not required changes no rollup. The statuses of the tasks that
  finalize writes are these rollups.
\<close>

theorem task_rollup:
  assumes R: "R = {a. required a \<and> (\<exists>aid \<in> set (t_asset_ids t). \<exists>i < length as. as ! i = a
                     \<and> py_str (asset_id a) = aid
                     \<and> (\<forall>j. i < j \<and> j < length as \<longrightarrow> py_str (asset_id (as ! j)) \<noteq> aid))}"
    and S: "S = (\<lambda>a. status_or_unknown (status a)) ` R"
    and F: "F = task_final_status as (asset_index as) t"
  shows "(t_status t = ''failed'' \<longrightarrow> F = ''failed'')
    \<and> (t_status t \<noteq> ''failed'' \<and> ''failed'' \<in> S \<longrightarrow> F = ''failed'')
    \<and> (t_status t \<noteq> ''failed'' \<and> ''failed'' \<notin> S \<and> ''missing'' \<in> S \<longrightarrow>
          F = ''succeeded_with_missing_outputs'')
    \<and> (t_status t \<noteq> ''failed'' \<and> ''failed'' \<notin> S \<and> ''missing'' \<notin> S \<and> ''corrupt'' \<in> S \<longrightarrow>
          F = ''succeeded_with_corrupt_outputs'')
    \<and> (t_status t \<noteq> ''failed'' \<and> ''failed'' \<notin> S \<and> ''missing'' \<notin> S \<and> ''corrupt'' \<notin> S
          \<and> ''unknown'' \<in> S \<longrightarrow> F = ''succeeded_with_unverified_outputs'')
    \<and> (t_status t \<noteq> ''failed'' \<and> S \<noteq> {} \<and> S \<subseteq> {''ok''} \<longrightarrow> F = ''succeeded'')
    \<and> (t_status t \<noteq> ''failed'' \<and> S \<inter> {''failed'', ''missing'', ''corrupt'', ''unknown''} = {}
          \<and> \<not> S \<subseteq> {''ok''} \<longrightarrow> F = (if t_status t = [] then ''unknown'' else t_status t))
    \<and> (S = {} \<and> t_status t \<in> {[], ''expected'', ''running'', ''produced''} \<longrightarrow> F = ''succeeded'')
    \<and> (S = {} \<and> t_status t \<notin> {[], ''expected'', ''running'', ''produced''} \<longrightarrow> F = t_status t)
    \<and> (distinct (map (\<lambda>a. py_str (asset_id a)) as) \<longrightarrow>
          R = {a \<in> set as. required a \<and> py_str (asset_id a) \<in> set (t_asset_ids t)})
    \<and> (\<forall>f. (\<forall>a. asset_id (f a) = asset_id a \<and> required (f a) = required a
                  \<and> (required a \<longrightarrow> status (f a) = status a)) \<longrightarrow>
          task_final_status (map f as) (asset_index (map f as)) t = F)
    \<and> (\<forall>now_iso w args c c' rc. cmd_finalize now_iso w args c = Inr (c', rc) \<longrightarrow>
          map t_status (tasks c')
            = map (task_final_status (assets c') (asset_index (assets c')))
                  (tasks (repair_references now_iso c)))"
proof -
  define rs where "rs = map (\<lambda>a. status_or_unknown (status a)) (required_assets_of as (asset_index as) t)"
  have srs: "set rs = S"
    unfolding rs_def S R set_required_assets [symmetric] by simp
  have e: "rs = [] \<longleftrightarrow> S = {}" using srs by (metis set_empty)
  have ok: "list_all (\<lambda>s. s = ''ok'') rs \<longleftrightarrow> S \<subseteq> {''ok''}"
    using srs by (auto simp: list_all_iff)
  have fs: "F = rollup_status (t_status t) rs"
    by (simp add: F task_final_status_def rs_def)
  have 1: "t_status t = ''failed'' \<longrightarrow> F = ''failed''"
    by (simp add: fs rollup_status_def)
  have 2: "t_status t \<noteq> ''failed'' \<and> ''failed'' \<in> S \<longrightarrow> F = ''failed''"
    unfolding fs rollup_status_def srs e by auto
  have 3: "t_status t \<noteq> ''failed'' \<and> ''failed'' \<notin> S \<and> ''missing'' \<in> S \<longrightarrow>
          F = ''succeeded_with_missing_outputs''"
    unfolding fs rollup_status_def srs e by auto
  have 4: "t_status t \<noteq> ''failed'' \<and> ''failed'' \<notin> S \<and> ''missing'' \<notin> S \<and> ''corrupt'' \<in> S \<longrightarrow>
          F = ''succeeded_with_corrupt_outputs''"
    unfolding fs rollup_status_def srs e by auto
  have 5: "t_status t \<noteq> ''failed'' \<and> ''failed'' \<notin> S \<and> ''missing'' \<notin> S \<and> ''corrupt'' \<notin> S
          \<and> ''unknown'' \<in> S \<longrightarrow> F = ''succeeded_with_unverified_outputs''"
    unfolding fs rollup_status_def srs e by auto
  have 6: "t_status t \<noteq> ''failed'' \<and> S \<noteq> {} \<and> S \<subseteq> {''ok''} \<longrightarrow> F = ''succeeded''"
    unfolding fs rollup_status_def srs e ok by auto
  have 7: "t_status t \<noteq> ''failed'' \<and> S \<inter> {''failed'', ''missing'', ''corrupt'', ''unknown''} = {}
          \<and> \<not> S \<subseteq> {''ok''} \<longrightarrow> F = (if t_status t = [] then ''unknown'' else t_status t)"
    unfolding fs rollup_status_def srs e ok by auto
  have 8: "S = {} \<and> t_status t \<in> {[], ''expected'', ''running'', ''produced''} \<longrightarrow> F = ''succeeded''"
    unfolding fs rollup_status_def srs e by auto
  have 9: "S = {} \<and> t_status t \<notin> {[], ''expected'', ''running'', ''produced''} \<longrightarrow> F = t_status t"
    unfolding fs rollup_status_def srs e by auto
  have 10: "distinct (map (\<lambda>a. py_str (asset_id a)) as) \<longrightarrow>
          R = {a \<in> set as. required a \<and> py_str (asset_id a) \<in> set (t_asset_ids t)}"
    unfolding R using last_of_distinct [of "\<lambda>a. py_str (asset_id a)" as required "set (t_asset_ids t)"]
    by blast
  have 11: "\<forall>f. (\<forall>a. asset_id (f a) = asset_id a \<and> required (f a) = required a
                  \<and> (required a \<longrightarrow> status (f a) = status a)) \<longrightarrow>
          task_final_status (map f as) (asset_index (map f as)) t = F"
  proof (intro allI impI)
    fix f :: "asset \<Rightarrow> asset"
    assume h: "\<forall>a. asset_id (f a) = asset_id a \<and> required (f a) = required a
                  \<and> (required a \<longrightarrow> status (f a) = status a)"
    then have ix: "asset_index (map f as) = asset_index as"
      by (simp add: asset_index_map)
    have "map (\<lambda>a. status_or_unknown (status a)) (required_assets_of (map f as) (asset_index as) t)
        = map (\<lambda>a. status_or_unknown (status a)) (required_assets_of as (asset_index as) t)"
      by (rule required_statuses_map) (use h asset_index_bound in auto)
    then show "task_final_status (map f as) (asset_index (map f as)) t = F"
      by (simp add: F task_final_status_def ix)
  qed
  have 12: "\<forall>now_iso w args c c' rc. cmd_finalize now_iso w args c = Inr (c', rc) \<longrightarrow>
          map t_status (tasks c')
            = map (task_final_status (assets c') (asset_index (assets c')))
                  (tasks (repair_references now_iso c))"
    by (auto dest!: cmd_finalize_tasks simp: finalize_task_def)
  show ?thesis
    apply (intro conjI)
    apply (rule 1, rule 2, rule 3, rule 4, rule 5, rule 6, rule 7, rule 8, rule 9, rule 10, rule 11, rule 12)
    done
qed

theorem task_rollup_witness:
  "task_final_status assets_mixed (asset_index assets_mixed) task_two = ''succeeded_with_missing_outputs''
   \<and> task_final_status assets_mixed (asset_index assets_mixed) (task_two\<lparr>t_status := ''failed''\<rparr>) = ''failed''
   \<and> task_final_status [] (asset_index []) task_two = ''succeeded''
   \<and> task_final_status [] (asset_index []) (task_two\<lparr>t_status := ''succeeded_with_missing_outputs''\<rparr>)
        = ''succeeded_with_missing_outputs''
   \<and> set (required_assets_of assets_mixed (asset_index assets_mixed) task_two)
        = {a \<in> set assets_mixed. required a \<and> py_str (asset_id a) \<in> set (t_asset_ids task_two)}
   \<and> required_assets_of assets_mixed (asset_index assets_mixed) task_two
        = [asset_out\<lparr>status := ''missing''\<rparr>]
   \<and> task_final_status assets_unlisted (asset_index assets_unlisted) task_two
        = ''succeeded_with_missing_outputs''
   \<and> set (required_assets_of assets_unlisted (asset_index assets_unlisted) task_two)
        = {a \<in> set assets_unlisted. required a \<and> py_str (asset_id a) \<in> set (t_asset_ids task_two)}
   \<and> required_assets_of assets_unlisted (asset_index assets_unlisted) task_two
        = [asset_out\<lparr>status := ''missing''\<rparr>]"
proof -
  let ?ix = "asset_index assets_mixed"
  let ?S = "(\<lambda>a. status_or_unknown (status a)) ` set (required_assets_of assets_mixed ?ix task_two)"
  have a: "t_status task_two \<noteq> ''failed'' \<and> ''failed'' \<notin> ?S \<and> ''missing'' \<in> ?S"
    by code_simp
  have a': "distinct (map (\<lambda>a. py_str (asset_id a)) assets_mixed)"
    by code_simp
  note r1 = task_rollup [where t = task_two and as = assets_mixed, OF set_required_assets refl refl]
  have 1: "task_final_status assets_mixed ?ix task_two = ''succeeded_with_missing_outputs''"
    by (rule r1 [THEN conjunct2, THEN conjunct2, THEN conjunct1, rule_format, OF a])
  have 5: "set (required_assets_of assets_mixed ?ix task_two)
        = {a \<in> set assets_mixed. required a \<and> py_str (asset_id a) \<in> set (t_asset_ids task_two)}"
    by (rule r1 [THEN conjunct2, THEN conjunct2, THEN conjunct2, THEN conjunct2, THEN conjunct2,
          THEN conjunct2, THEN conjunct2, THEN conjunct2, THEN conjunct2, THEN conjunct1,
          rule_format, OF a'])
  have 6: "required_assets_of assets_mixed ?ix task_two = [asset_out\<lparr>status := ''missing''\<rparr>]"
    by code_simp
  have b: "t_status (task_two\<lparr>t_status := ''failed''\<rparr>) = ''failed''" by simp
  have 2: "task_final_status assets_mixed ?ix (task_two\<lparr>t_status := ''failed''\<rparr>) = ''failed''"
    by (rule task_rollup [where t = "task_two\<lparr>t_status := ''failed''\<rparr>" and as = assets_mixed,
      OF set_required_assets refl refl, THEN conjunct1, rule_format, OF b])
  have c: "(\<lambda>a. status_or_unknown (status a)) ` set (required_assets_of [] (asset_index []) task_two) = {}
    \<and> t_status task_two \<in> {[], ''expected'', ''running'', ''produced''}"
    by code_simp
  have 3: "task_final_status [] (asset_index []) task_two = ''succeeded''"
    by (rule task_rollup [where t = task_two and as = "[]", OF set_required_assets refl refl,
          THEN conjunct2, THEN conjunct2, THEN conjunct2, THEN conjunct2, THEN conjunct2,
          THEN conjunct2, THEN conjunct2, THEN conjunct1, rule_format, OF c])
  let ?t = "task_two\<lparr>t_status := ''succeeded_with_missing_outputs''\<rparr>"
  have d: "(\<lambda>a. status_or_unknown (status a)) ` set (required_assets_of [] (asset_index []) ?t) = {}
    \<and> t_status ?t \<notin> {[], ''expected'', ''running'', ''produced''}"
    by code_simp
  have d': "t_status ?t = ''succeeded_with_missing_outputs''" by simp
  have 4: "task_final_status [] (asset_index []) ?t = ''succeeded_with_missing_outputs''"
    using task_rollup [where t = ?t and as = "[]", OF set_required_assets refl refl,
          THEN conjunct2, THEN conjunct2, THEN conjunct2, THEN conjunct2, THEN conjunct2,
          THEN conjunct2, THEN conjunct2, THEN conjunct2, THEN conjunct1, rule_format, OF d]
    by (simp only: d')
  let ?iu = "asset_index assets_unlisted"
  let ?U = "(\<lambda>a. status_or_unknown (status a)) ` set (required_assets_of assets_unlisted ?iu task_two)"
  have g: "t_status task_two \<noteq> ''failed'' \<and> ''failed'' \<notin> ?U \<and> ''missing'' \<in> ?U"
    by code_simp
  have g': "distinct (map (\<lambda>a. py_str (asset_id a)) assets_unlisted)"
    by code_simp
  note r3 = task_rollup [where t = task_two and as = assets_unlisted, OF set_required_assets refl refl]
  have 7: "task_final_status assets_unlisted ?iu task_two = ''succeeded_with_missing_outputs''"
    by (rule r3 [THEN conjunct2, THEN conjunct2, THEN conjunct1, rule_format, OF g])
  have 8: "set (required_assets_of assets_unlisted ?iu task_two)
        = {a \<in> set assets_unlisted. required a \<and> py_str (asset_id a) \<in> set (t_asset_ids task_two)}"
    by (rule r3 [THEN conjunct2, THEN conjunct2, THEN conjunct2, THEN conjunct2, THEN conjunct2,
          THEN conjunct2, THEN conjunct2, THEN conjunct2, THEN conjunct2, THEN conjunct1,
          rule_format, OF g'])
  have 9: "required_assets_of assets_unlisted ?iu task_two = [asset_out\<lparr>status := ''missing''\<rparr>]"
    by code_simp
  show ?thesis
    apply (intro conjI)
    apply (rule 1, rule 2, rule 3, rule 4, rule 5, rule 6, rule 7, rule 8, rule 9)
    done
qed

text \<open>
  When an id repeats, the index holds the last asset with that id only: a required
  asset that is \<^verbatim>\<open>missing\<close> and shares its id with a later asset that is \<^verbatim>\<open>ok\<close> leaves
  the task \<^verbatim>\<open>succeeded\<close>, although the task lists the id of both.
\<close>

theorem repeated_asset_id_counterexample:
  "map (\<lambda>a. (py_str (asset_id a), required a, status a))
       (assets_written (cmd_finalize ''2024-01-01T00:00:00Z'' world_local args_strict doc_twins))
     = [(''out/a'', True, ''missing''), (''out/a'', True, ''ok'')]
   \<and> map (\<lambda>t. (t_asset_ids t, t_status t))
       (tasks_written (cmd_finalize ''2024-01-01T00:00:00Z'' world_local args_strict doc_twins))
     = [([''out/a''], ''succeeded'')]"
  by code_simp

subsection \<open>Run rollup\<close>

text \<open>
  Claim C4, as the code has it. When the caller gives no status (or a blank one), the
  run status is \<^verbatim>\<open>FAILED\<close> if a task's final status is \<^verbatim>\<open>failed\<close>; else
  \<^verbatim>\<open>FINISHED_WITH_ISSUES\<close> if a required asset is \<^verbatim>\<open>missing\<close>, \<^verbatim>\<open>failed\<close> or
  \<^verbatim>\<open>corrupt\<close>; else \<^verbatim>\<open>FINISHED_WITH_UNVERIFIED_OUTPUTS\<close> if a required asset is
  \<^verbatim>\<open>unknown\<close>; else \<^verbatim>\<open>FINISHED\<close>. A status given by the caller is stored instead,
  stripped of surrounding whitespace.
\<close>

theorem run_rollup:
  assumes "cmd_finalize now_iso w args c = Inr (c', rc)"
    and "given = strip (case fa_status args of None \<Rightarrow> [] | Some s \<Rightarrow> s)"
  shows "run_status c' =
     (if given \<noteq> [] then given
      else if \<exists>t \<in> set (tasks c'). t_status t = ''failed'' then ''FAILED''
      else if \<exists>a \<in> set (assets c'). required a \<and> status a \<in> {''missing'', ''failed'', ''corrupt''}
        then ''FINISHED_WITH_ISSUES''
      else if \<exists>a \<in> set (assets c'). required a \<and> status a = ''unknown''
        then ''FINISHED_WITH_UNVERIFIED_OUTPUTS''
      else ''FINISHED'')"
proof -
  have m: "(missing_required_of (assets c') \<noteq> [] \<or> corrupt_required_of (assets c') \<noteq> [])
      \<longleftrightarrow> (\<exists>a \<in> set (assets c'). required a \<and> status a \<in> {''missing'', ''failed'', ''corrupt''})"
    unfolding missing_required_nonempty corrupt_required_nonempty by blast
  show ?thesis
    unfolding cmd_finalize_run_status [OF assms(1)] assms(2) [symmetric] compute_run_status_def
      failed_count_pos m unknown_required_nonempty
    by simp
qed

theorem run_rollup_witness:
  "run_status_written (cmd_finalize ''t1'' world_local args_strict doc_in) = Some ''FAILED''
   \<and> run_status_written (cmd_finalize ''t1'' world_local (args_strict\<lparr>fa_status := Some '' DONE ''\<rparr>) doc_in)
       = Some ''DONE''"
proof -
  let ?R = "cmd_finalize ''t1'' world_local args_strict doc_in"
  have r: "?R = Inr (fst (projr ?R), snd (projr ?R))" by code_simp
  have w: "run_status_written ?R = Some (run_status (fst (projr ?R)))" by code_simp
  have g: "strip (case fa_status args_strict of None \<Rightarrow> [] | Some s \<Rightarrow> s) = []" by code_simp
  have f: "\<exists>t \<in> set (tasks (fst (projr ?R))). t_status t = ''failed''" by code_simp
  from run_rollup [OF r refl] g f have 1: "run_status (fst (projr ?R)) = ''FAILED''"
    by simp
  let ?A = "args_strict\<lparr>fa_status := Some '' DONE ''\<rparr>"
  let ?S = "cmd_finalize ''t1'' world_local ?A doc_in"
  have r': "?S = Inr (fst (projr ?S), snd (projr ?S))" by code_simp
  have w': "run_status_written ?S = Some (run_status (fst (projr ?S)))" by code_simp
  have g': "strip (case fa_status ?A of None \<Rightarrow> [] | Some s \<Rightarrow> s) = ''DONE''" by code_simp
  from run_rollup [OF r' refl] g' have 2: "run_status (fst (projr ?S)) = ''DONE''"
    by simp
  from 1 2 w w' show ?thesis by simp
qed

theorem failed_asset_run_status_counterexample:
  "run_status_written (cmd_finalize ''t1'' world_local args_lenient doc_noid) = Some ''FINISHED_WITH_ISSUES''
   \<and> map t_status (tasks_written (cmd_finalize ''t1'' world_local args_lenient doc_noid)) = [''succeeded'']
   \<and> map status (assets_written (cmd_finalize ''t1'' world_local args_lenient doc_noid)) = [''failed'']
   \<and> map required (assets_written (cmd_finalize ''t1'' world_local args_lenient doc_noid)) = [True]"
  by code_simp

subsection \<open>Folder partitioning\<close>

text \<open>
  Claim C5, as the code has it. The folder groups of a list of assets have distinct
  folders, and the group of a folder holds, in their order, exactly the assets of the
  list whose folder it is, so that: every asset from which a folder is derived is in
  the group of that folder and in no other; the union of the groups is the set of the
  assets from which a folder is derived, each occurring once; two different groups
  share no asset; an asset from which no folder is derived is in no group, and no
  folder is derived from an asset with neither a \<^verbatim>\<open>gs://\<close> URI nor a \<^verbatim>\<open>gs://\<close> glob.
  A folder is derived in exactly two cases. From a \<^verbatim>\<open>gs://\<close> URI whose canonical form
  has its last \<^verbatim>\<open>/\<close> at an index greater than 5: the folder is the canonical form before
  that \<^verbatim>\<open>/\<close>. From a \<^verbatim>\<open>gs://\<close> glob, when the asset has no \<^verbatim>\<open>gs://\<close> URI and the canonical
  form of the glob, split at \<^verbatim>\<open>/\<close>, has three parts or more of which the first three
  contain none of \<^verbatim>\<open>* ? [ ]\<close>: the folder is made of the parts before the first one that
  contains such a character, joined with \<^verbatim>\<open>/\<close>, the \<^verbatim>\<open>/\<close> at its end removed.
\<close>

theorem folder_partition:
  assumes "G = group_assets_by_folder as"
  shows "distinct (map fst G)
     \<and> (\<forall>(f, l) \<in> set G. l \<noteq> [] \<and> l = filter (\<lambda>a. gcs_folder a = Some f) as)
     \<and> (\<forall>a \<in> set as. \<forall>f. gcs_folder a = Some f \<longrightarrow> (\<exists>l. (f, l) \<in> set G \<and> a \<in> set l))
     \<and> \<Union> (set ` snd ` set G) = {a \<in> set as. gcs_folder a \<noteq> None}
     \<and> mset (concat (map snd G)) = mset (filter (\<lambda>a. gcs_folder a \<noteq> None) as)
     \<and> (\<forall>i < length G. \<forall>j < length G. i \<noteq> j \<longrightarrow> set (snd (G ! i)) \<inter> set (snd (G ! j)) = {})
     \<and> (\<forall>a. gcs_folder a = None \<longrightarrow> a \<notin> \<Union> (set ` snd ` set G))
     \<and> (\<forall>a. \<not> gcs_destined a \<longrightarrow> gcs_folder a = None)
     \<and> (\<forall>(a::asset) n. truthy_str (uri a) \<and> startswith (py_str (uri a)) ''gs://''
            \<and> n = normalize_gs_uri (py_str (uri a)) \<longrightarrow>
          (\<forall>f. gcs_folder a = Some f \<longleftrightarrow>
             (\<exists>i. 5 < i \<and> i < length n \<and> n ! i = CHR ''/''
                  \<and> (\<forall>j. i < j \<and> j < length n \<longrightarrow> n ! j \<noteq> CHR ''/'') \<and> f = take i n)))
     \<and> (\<forall>(a::asset) ps. \<not> (truthy_str (uri a) \<and> startswith (py_str (uri a)) ''gs://'')
            \<and> truthy_str (gcs_glob a) \<and> startswith (py_str (gcs_glob a)) ''gs://''
            \<and> ps = split_slash (normalize_gs_uri (py_str (gcs_glob a))) \<longrightarrow>
          (\<forall>f. gcs_folder a = Some f \<longleftrightarrow>
             2 < length ps \<and> (\<forall>p \<in> set (take 3 ps). \<forall>ch \<in> set ''*?[]''. ch \<notin> set p)
             \<and> f = rstrip_slash (join_slash
                     (takeWhile (\<lambda>p. \<forall>ch \<in> set ''*?[]''. ch \<notin> set p) ps))))"
proof -
  have mem: "(f, l) \<in> set G \<longleftrightarrow> l \<noteq> [] \<and> l = filter (\<lambda>a. gcs_folder a = Some f) as" for f l
    unfolding assms by (rule group_assets_member)
  have 1: "distinct (map fst G)" unfolding assms by (rule group_assets_map_of(1))
  have 2: "\<forall>(f, l) \<in> set G. l \<noteq> [] \<and> l = filter (\<lambda>a. gcs_folder a = Some f) as"
    using mem by auto
  have 3: "\<forall>a \<in> set as. \<forall>f. gcs_folder a = Some f \<longrightarrow> (\<exists>l. (f, l) \<in> set G \<and> a \<in> set l)"
  proof (intro ballI allI impI)
    fix a f assume a: "a \<in> set as" "gcs_folder a = Some f"
    let ?l = "filter (\<lambda>a. gcs_folder a = Some f) as"
    from a have al: "a \<in> set ?l" by simp
    then have "?l \<noteq> []" by (metis empty_iff empty_set)
    then have "(f, ?l) \<in> set G" unfolding mem by simp
    moreover note al
    ultimately show "\<exists>l. (f, l) \<in> set G \<and> a \<in> set l" by blast
  qed
  have 4: "\<Union> (set ` snd ` set G) = {a \<in> set as. gcs_folder a \<noteq> None}"
  proof (intro set_eqI iffI)
    fix x assume "x \<in> \<Union> (set ` snd ` set G)"
    then obtain f l where "(f, l) \<in> set G" "x \<in> set l" by auto
    then show "x \<in> {a \<in> set as. gcs_folder a \<noteq> None}" unfolding mem by auto
  next
    fix x assume "x \<in> {a \<in> set as. gcs_folder a \<noteq> None}"
    then obtain f where "x \<in> set as" "gcs_folder x = Some f" by auto
    with 3 obtain l where "(f, l) \<in> set G" "x \<in> set l" by blast
    then show "x \<in> \<Union> (set ` snd ` set G)" by force
  qed
  have 5: "mset (concat (map snd G)) = mset (filter (\<lambda>a. gcs_folder a \<noteq> None) as)"
    unfolding assms group_assets_by_folder_def using group_loop_mset [of as "[]"] by simp
  have 6: "\<forall>i < length G. \<forall>j < length G. i \<noteq> j \<longrightarrow> set (snd (G ! i)) \<inter> set (snd (G ! j)) = {}"
  proof (intro allI impI)
    fix i j assume ij: "i < length G" "j < length G" "i \<noteq> j"
    obtain f l where i: "G ! i = (f, l)" by (cases "G ! i")
    obtain f' l' where j: "G ! j = (f', l')" by (cases "G ! j")
    from ij 1 have "fst (G ! i) \<noteq> fst (G ! j)"
      by (metis distinct_conv_nth length_map nth_map)
    then have ne: "f \<noteq> f'" by (simp add: i j)
    from ij i j have "(f, l) \<in> set G" "(f', l') \<in> set G" by (metis nth_mem)+
    then have "l = filter (\<lambda>a. gcs_folder a = Some f) as" "l' = filter (\<lambda>a. gcs_folder a = Some f') as"
      unfolding mem by auto
    with ne show "set (snd (G ! i)) \<inter> set (snd (G ! j)) = {}" by (auto simp: i j)
  qed
  have 7: "\<forall>a. gcs_folder a = None \<longrightarrow> a \<notin> \<Union> (set ` snd ` set G)"
    unfolding 4 by simp
  have 8: "\<forall>a. \<not> gcs_destined a \<longrightarrow> gcs_folder a = None"
    using gcs_folder_destined by (metis not_Some_eq)
  have 9: "\<forall>(a::asset) n. truthy_str (uri a) \<and> startswith (py_str (uri a)) ''gs://''
            \<and> n = normalize_gs_uri (py_str (uri a)) \<longrightarrow>
          (\<forall>f. gcs_folder a = Some f \<longleftrightarrow>
             (\<exists>i. 5 < i \<and> i < length n \<and> n ! i = CHR ''/''
                  \<and> (\<forall>j. i < j \<and> j < length n \<longrightarrow> n ! j \<noteq> CHR ''/'') \<and> f = take i n))"
  proof (intro allI impI)
    fix a :: asset and n f
    assume h: "truthy_str (uri a) \<and> startswith (py_str (uri a)) ''gs://''
            \<and> n = normalize_gs_uri (py_str (uri a))"
    show "gcs_folder a = Some f \<longleftrightarrow>
             (\<exists>i. 5 < i \<and> i < length n \<and> n ! i = CHR ''/''
                  \<and> (\<forall>j. i < j \<and> j < length n \<longrightarrow> n ! j \<noteq> CHR ''/'') \<and> f = take i n)"
    proof (cases "rfind_slash n")
      case None
      then have "\<not> (\<exists>i. i < length n \<and> n ! i = CHR ''/'' \<and> (\<forall>j. i < j \<and> j < length n \<longrightarrow> n ! j \<noteq> CHR ''/''))"
        using rfind_slash_Some_iff [of n] by simp
      moreover have "gcs_folder a = None" using h None by (simp add: gcs_folder_def)
      ultimately show ?thesis by auto
    next
      case (Some k)
      then have k: "k < length n \<and> n ! k = CHR ''/'' \<and> (\<forall>j. k < j \<and> j < length n \<longrightarrow> n ! j \<noteq> CHR ''/'')"
        by (simp add: rfind_slash_Some_iff)
      have g: "gcs_folder a = (if 5 < k then Some (take k n) else None)"
        using h Some by (simp add: gcs_folder_def)
      have uniq: "i = k" if "i < length n \<and> n ! i = CHR ''/'' \<and> (\<forall>j. i < j \<and> j < length n \<longrightarrow> n ! j \<noteq> CHR ''/'')" for i
        using that Some by (simp add: rfind_slash_Some_iff [symmetric])
      show ?thesis
      proof
        assume "gcs_folder a = Some f"
        then have "5 < k" "f = take k n" unfolding g by (auto split: if_splits)
        with k show "\<exists>i. 5 < i \<and> i < length n \<and> n ! i = CHR ''/''
                  \<and> (\<forall>j. i < j \<and> j < length n \<longrightarrow> n ! j \<noteq> CHR ''/'') \<and> f = take i n"
          by blast
      next
        assume "\<exists>i. 5 < i \<and> i < length n \<and> n ! i = CHR ''/''
                  \<and> (\<forall>j. i < j \<and> j < length n \<longrightarrow> n ! j \<noteq> CHR ''/'') \<and> f = take i n"
        then obtain i where i: "5 < i" "f = take i n"
          "i < length n \<and> n ! i = CHR ''/'' \<and> (\<forall>j. i < j \<and> j < length n \<longrightarrow> n ! j \<noteq> CHR ''/'')"
          by blast
        from uniq [OF i(3)] i(1,2) show "gcs_folder a = Some f" unfolding g by simp
      qed
    qed
  qed
  have 10: "\<forall>(a::asset) ps. \<not> (truthy_str (uri a) \<and> startswith (py_str (uri a)) ''gs://'')
            \<and> truthy_str (gcs_glob a) \<and> startswith (py_str (gcs_glob a)) ''gs://''
            \<and> ps = split_slash (normalize_gs_uri (py_str (gcs_glob a))) \<longrightarrow>
          (\<forall>f. gcs_folder a = Some f \<longleftrightarrow>
             2 < length ps \<and> (\<forall>p \<in> set (take 3 ps). \<forall>ch \<in> set ''*?[]''. ch \<notin> set p)
             \<and> f = rstrip_slash (join_slash
                     (takeWhile (\<lambda>p. \<forall>ch \<in> set ''*?[]''. ch \<notin> set p) ps)))"
  proof (intro allI impI)
    fix a :: asset and ps f
    assume h: "\<not> (truthy_str (uri a) \<and> startswith (py_str (uri a)) ''gs://'')
            \<and> truthy_str (gcs_glob a) \<and> startswith (py_str (gcs_glob a)) ''gs://''
            \<and> ps = split_slash (normalize_gs_uri (py_str (gcs_glob a)))"
    let ?P = "\<lambda>p. \<forall>ch \<in> set ''*?[]''. ch \<notin> set p"
    have w: "(\<lambda>part. \<not> has_wildcard part) = ?P"
      by (rule ext) (simp add: has_wildcard_def)
    from h have nu: "\<not> (truthy_str (uri a) \<and> startswith (py_str (uri a)) ''gs://'')"
      and gl: "truthy_str (gcs_glob a) \<and> startswith (py_str (gcs_glob a)) ''gs://''"
      and ps: "ps = split_slash (normalize_gs_uri (py_str (gcs_glob a)))"
      by blast+
    have g: "gcs_folder a = (if 2 < length (takeWhile ?P ps)
                             then Some (rstrip_slash (join_slash (takeWhile ?P ps))) else None)"
      unfolding gcs_folder_def Let_def w ps
      by (simp only: if_not_P [OF nu] if_P [OF gl])
    show "gcs_folder a = Some f \<longleftrightarrow>
             2 < length ps \<and> (\<forall>p \<in> set (take 3 ps). \<forall>ch \<in> set ''*?[]''. ch \<notin> set p)
             \<and> f = rstrip_slash (join_slash (takeWhile ?P ps))"
      unfolding g takeWhile_longer_than_two [of ?P ps] by auto
  qed
  show ?thesis
    apply (intro conjI)
    apply (rule 1, rule 2, rule 3, rule 4, rule 5, rule 6, rule 7, rule 8, rule 9, rule 10)
    done
qed

theorem folder_partition_witness:
  "group_assets_by_folder [asset_d1, asset_in, asset_e1, asset_d2] =
     [(''gs://bkt/d'', [asset_d1, asset_d2]), (''gs://bkt/e'', [asset_e1])]
   \<and> \<Union> (set ` snd ` set (group_assets_by_folder [asset_d1, asset_in, asset_e1, asset_d2]))
        = {asset_d1, asset_e1, asset_d2}
   \<and> asset_in \<notin> \<Union> (set ` snd ` set (group_assets_by_folder [asset_d1, asset_in, asset_e1, asset_d2]))
   \<and> gcs_folder asset_d1 = Some ''gs://bkt/d''
   \<and> gcs_folder asset_bucket_uri = None
   \<and> gcs_folder asset_scheme_only = Some ''gs:''
   \<and> gcs_folder asset_plain_glob = Some ''gs://bkt/d/x.tif''
   \<and> gcs_folder asset_any_bucket = None"
proof -
  let ?as = "[asset_d1, asset_in, asset_e1, asset_d2]"
  let ?G = "group_assets_by_folder ?as"
  have e: "?G = [(''gs://bkt/d'', [asset_d1, asset_d2]), (''gs://bkt/e'', [asset_e1])]"
    by code_simp
  have f: "gcs_folder asset_d1 \<noteq> None" "gcs_folder asset_e1 \<noteq> None" "gcs_folder asset_d2 \<noteq> None"
    "gcs_folder asset_in = None" "\<not> gcs_destined asset_in"
    by code_simp+
  note t = folder_partition [OF refl, of ?as]
  have u: "\<Union> (set ` snd ` set ?G) = {a \<in> set ?as. gcs_folder a \<noteq> None}"
    by (rule t [THEN conjunct2, THEN conjunct2, THEN conjunct2, THEN conjunct1])
  have n: "\<forall>a. gcs_folder a = None \<longrightarrow> a \<notin> \<Union> (set ` snd ` set ?G)"
    by (rule t [THEN conjunct2, THEN conjunct2, THEN conjunct2, THEN conjunct2, THEN conjunct2,
          THEN conjunct2, THEN conjunct1])
  note tu = t [THEN conjunct2, THEN conjunct2, THEN conjunct2, THEN conjunct2, THEN conjunct2,
          THEN conjunct2, THEN conjunct2, THEN conjunct2, THEN conjunct1, rule_format]
  note tg = t [THEN conjunct2, THEN conjunct2, THEN conjunct2, THEN conjunct2, THEN conjunct2,
          THEN conjunct2, THEN conjunct2, THEN conjunct2, THEN conjunct2, rule_format]
  have s: "{a \<in> set ?as. gcs_folder a \<noteq> None} = {asset_d1, asset_e1, asset_d2}"
  proof (intro set_eqI iffI)
    fix x assume "x \<in> {a \<in> set ?as. gcs_folder a \<noteq> None}"
    then have "(x = asset_d1 \<or> x = asset_in \<or> x = asset_e1 \<or> x = asset_d2) \<and> gcs_folder x \<noteq> None"
      by simp
    with f(4) show "x \<in> {asset_d1, asset_e1, asset_d2}" by blast
  next
    fix x assume "x \<in> {asset_d1, asset_e1, asset_d2}"
    then have "x = asset_d1 \<or> x = asset_e1 \<or> x = asset_d2" by simp
    with f(1,2,3) show "x \<in> {a \<in> set ?as. gcs_folder a \<noteq> None}" by auto
  qed
  have 1: "\<Union> (set ` snd ` set ?G) = {asset_d1, asset_e1, asset_d2}"
    unfolding u s ..
  have 2: "asset_in \<notin> \<Union> (set ` snd ` set ?G)"
    by (rule n [rule_format, OF f(4)])
  have hu: "truthy_str (uri asset_d1) \<and> startswith (py_str (uri asset_d1)) ''gs://''
      \<and> ''gs://bkt/d/f.tif'' = normalize_gs_uri (py_str (uri asset_d1))"
    by code_simp
  have "rfind_slash ''gs://bkt/d/f.tif'' = Some 10" by code_simp
  then have lu: "(10::nat) < length ''gs://bkt/d/f.tif'' \<and> ''gs://bkt/d/f.tif'' ! 10 = CHR ''/''
      \<and> (\<forall>j. 10 < j \<and> j < length ''gs://bkt/d/f.tif'' \<longrightarrow> ''gs://bkt/d/f.tif'' ! j \<noteq> CHR ''/'')"
    by (rule rfind_slash_Some_iff [THEN iffD1])
  have "\<exists>i. 5 < i \<and> i < length ''gs://bkt/d/f.tif'' \<and> ''gs://bkt/d/f.tif'' ! i = CHR ''/''
      \<and> (\<forall>j. i < j \<and> j < length ''gs://bkt/d/f.tif'' \<longrightarrow> ''gs://bkt/d/f.tif'' ! j \<noteq> CHR ''/'')
      \<and> ''gs://bkt/d'' = take i ''gs://bkt/d/f.tif''"
    by (rule exI [of _ 10]) (use lu in simp)
  then have 3: "gcs_folder asset_d1 = Some ''gs://bkt/d''"
    by (rule tu [OF hu, THEN iffD2])
  have 4: "gcs_folder asset_bucket_uri = None" by code_simp
  have hg: "\<not> (truthy_str (uri asset_scheme_only) \<and> startswith (py_str (uri asset_scheme_only)) ''gs://'')
      \<and> truthy_str (gcs_glob asset_scheme_only) \<and> startswith (py_str (gcs_glob asset_scheme_only)) ''gs://''
      \<and> [''gs:'', [], []] = split_slash (normalize_gs_uri (py_str (gcs_glob asset_scheme_only)))"
    by code_simp
  have 5: "gcs_folder asset_scheme_only = Some ''gs:''"
    by (rule tg [OF hg, THEN iffD2]) code_simp
  have hp: "\<not> (truthy_str (uri asset_plain_glob) \<and> startswith (py_str (uri asset_plain_glob)) ''gs://'')
      \<and> truthy_str (gcs_glob asset_plain_glob) \<and> startswith (py_str (gcs_glob asset_plain_glob)) ''gs://''
      \<and> [''gs:'', [], ''bkt'', ''d'', ''x.tif'']
          = split_slash (normalize_gs_uri (py_str (gcs_glob asset_plain_glob)))"
    by code_simp
  have 6: "gcs_folder asset_plain_glob = Some ''gs://bkt/d/x.tif''"
    by (rule tg [OF hp, THEN iffD2]) code_simp
  have hw: "\<not> (truthy_str (uri asset_any_bucket) \<and> startswith (py_str (uri asset_any_bucket)) ''gs://'')
      \<and> truthy_str (gcs_glob asset_any_bucket) \<and> startswith (py_str (gcs_glob asset_any_bucket)) ''gs://''
      \<and> [''gs:'', [], ''bkt-*'', ''out'', ''x.tif'']
          = split_slash (normalize_gs_uri (py_str (gcs_glob asset_any_bucket)))"
    by code_simp
  have "\<not> (\<forall>p \<in> set (take 3 [''gs:'', [], ''bkt-*'', ''out'', ''x.tif'']). \<forall>ch \<in> set ''*?[]''. ch \<notin> set p)"
    by code_simp
  then have "gcs_folder asset_any_bucket \<noteq> Some f" for f
    unfolding tg [OF hw] by blast
  then have 7: "gcs_folder asset_any_bucket = None" by (cases "gcs_folder asset_any_bucket") auto
  show ?thesis by (intro conjI) (rule e, rule 1, rule 2, rule 3, rule 4, rule 5, rule 6, rule 7)
qed

text \<open>
  An asset whose only location is a \<^verbatim>\<open>gs://\<close> glob with a wildcard in the bucket name
  is checked against object storage, and is in no folder group.
\<close>

theorem bucket_wildcard_counterexample:
  "gcs_destined asset_any_bucket
   \<and> gcs_folder asset_any_bucket = None
   \<and> group_assets_by_folder [asset_d1, asset_any_bucket] = [(''gs://bkt/d'', [asset_d1])]
   \<and> fst (snd (asset_exists (world_gsutil proc_listing) asset_any_bucket)) = ''gcs_glob''"
  by code_simp

subsection \<open>Existence of an object-storage glob\<close>

text \<open>
  The outcomes of the check for an asset whose only declared location is an
  object-storage glob: a listing that succeeds with no line kept, or that fails with a
  "matched no objects" message, gives existence false with reason \<^verbatim>\<open>gcs_glob\<close>; any
  other failure of the listing gives existence unknown with the reason
  \<^verbatim>\<open>gsutil_ls_failed:\<close> followed by the error text (or the return code when there is no
  text); a missing \<^verbatim>\<open>gsutil\<close> gives existence unknown with reason
  \<^verbatim>\<open>gsutil_unavailable\<close>; a listing that succeeds gives the sorted, duplicate-free
  canonical forms of the lines that start with \<^verbatim>\<open>gs://\<close> and do not end with a slash.
  An asset with no location at all has existence unknown with reason \<^verbatim>\<open>no_location\<close>.
\<close>

lemma gcs_glob_outcomes:
  assumes only_glob: "\<not> truthy_str (local_path a)" "\<not> truthy_str (uri a)"
      "\<not> truthy_str (local_glob a)" "truthy_str (gcs_glob a)"
    and p: "p = gsutil_ls_run w (py_str (gcs_glob a))"
    and err: "err = replace_newlines (strip (stderr p))"
    and items: "items = filter (\<lambda>l. l \<noteq> [] \<and> startswith l ''gs://'' \<and> \<not> endswith l ''/'')
                          (map strip (splitlines (stdout p)))"
  shows "(gsutil_present w \<and> returncode p = 0 \<and> items = [] \<longrightarrow>
            asset_exists w a = (Some False, ''gcs_glob'', []))
       \<and> (gsutil_present w \<and> returncode p \<noteq> 0 \<and> contains (lower err) ''matched no objects'' \<longrightarrow>
            asset_exists w a = (Some False, ''gcs_glob'', []))
       \<and> (gsutil_present w \<and> returncode p \<noteq> 0 \<and> \<not> contains (lower err) ''matched no objects'' \<longrightarrow>
            asset_exists w a =
              (None, ''gsutil_ls_failed:'' @ (if err \<noteq> [] then err else str_int (returncode p)), []))
       \<and> (\<not> gsutil_present w \<longrightarrow> asset_exists w a = (None, ''gsutil_unavailable'', []))
       \<and> (gsutil_present w \<and> returncode p = 0 \<longrightarrow>
            (\<exists>matched. asset_exists w a = (Some (items \<noteq> []), ''gcs_glob'', matched)
               \<and> sorted matched \<and> distinct matched
               \<and> set matched = normalize_gs_uri ` set items))
       \<and> (\<forall>b. \<not> has_location b \<longrightarrow> asset_exists w b = (None, ''no_location'', []))"
proof -
  have items': "ls_items (splitlines (stdout p)) = map normalize_gs_uri items"
    by (simp add: ls_items_def items ls_keep_def [abs_def])
  have ex: "asset_exists w a =
     (case gsutil_ls w (py_str (gcs_glob a)) of
        (None, reason) \<Rightarrow> (None, reason, [])
      | (Some matches, reason) \<Rightarrow> (Some (matches \<noteq> []), reason, matches))"
    by (rule asset_exists_gcs_glob [OF only_glob])
  have 1: "gsutil_present w \<and> returncode p = 0 \<longrightarrow>
      asset_exists w a = (Some (items \<noteq> []), ''gcs_glob'', sorted_set (map normalize_gs_uri items))"
    unfolding ex gsutil_ls_cases using p items' by (simp add: sorted_set_Nil_iff)
  have 2: "gsutil_present w \<and> returncode p \<noteq> 0 \<and> contains (lower err) ''matched no objects'' \<longrightarrow>
            asset_exists w a = (Some False, ''gcs_glob'', [])"
    unfolding ex gsutil_ls_cases using p err by simp
  have 3: "gsutil_present w \<and> returncode p \<noteq> 0 \<and> \<not> contains (lower err) ''matched no objects'' \<longrightarrow>
            asset_exists w a =
              (None, ''gsutil_ls_failed:'' @ (if err \<noteq> [] then err else str_int (returncode p)), [])"
    unfolding ex gsutil_ls_cases using p err by simp
  have 4: "\<not> gsutil_present w \<longrightarrow> asset_exists w a = (None, ''gsutil_unavailable'', [])"
    unfolding ex gsutil_ls_cases by simp
  have 5: "\<forall>b. \<not> has_location b \<longrightarrow> asset_exists w b = (None, ''no_location'', [])"
    by (simp add: has_location_def asset_exists_def)
  have 6: "gsutil_present w \<and> returncode p = 0 \<and> items = [] \<longrightarrow>
            asset_exists w a = (Some False, ''gcs_glob'', [])"
    using 1 by (simp add: sorted_set_def)
  have 7: "gsutil_present w \<and> returncode p = 0 \<longrightarrow>
            (\<exists>matched. asset_exists w a = (Some (items \<noteq> []), ''gcs_glob'', matched)
               \<and> sorted matched \<and> distinct matched
               \<and> set matched = normalize_gs_uri ` set items)"
    using 1 by (simp add: sorted_sorted_set distinct_sorted_set set_sorted_set)
  from 6 2 3 4 7 5 show ?thesis by blast
qed

lemma gcs_glob_outcomes_examples:
  "asset_exists world_local asset_glob = (None, ''gsutil_unavailable'', [])
   \<and> asset_exists (world_gsutil proc_empty_listing) asset_glob = (Some False, ''gcs_glob'', [])
   \<and> asset_exists (world_gsutil proc_no_match) asset_glob = (Some False, ''gcs_glob'', [])
   \<and> asset_exists (world_gsutil proc_denied) asset_glob = (None, ''gsutil_ls_failed:AccessDenied'', [])
   \<and> (\<exists>matched. asset_exists (world_gsutil proc_listing) asset_glob = (Some True, ''gcs_glob'', matched)
         \<and> sorted matched \<and> distinct matched
         \<and> set matched = {''gs://bkt/out/a.tif'', ''gs://bkt/out/b.tif''})
   \<and> asset_exists world_local asset_out = (None, ''no_location'', [])
   \<and> asset_exists (world_gsutil proc_killed) asset_glob = (None, ''gsutil_ls_failed:-9'', [])
   \<and> asset_exists (world_gsutil proc_failed_silent) asset_glob = (None, ''gsutil_ls_failed:2'', [])"
proof -
  have g: "\<not> truthy_str (local_path asset_glob)" "\<not> truthy_str (uri asset_glob)"
    "\<not> truthy_str (local_glob asset_glob)" "truthy_str (gcs_glob asset_glob)"
    by code_simp+
  note t = gcs_glob_outcomes [OF g refl refl refl]
  have "\<not> gsutil_present world_local" by code_simp
  with t [of world_local]
  have 1: "asset_exists world_local asset_glob = (None, ''gsutil_unavailable'', [])"
    by blast
  have "\<not> has_location asset_out" by code_simp
  with t [of world_local]
  have 6: "asset_exists world_local asset_out = (None, ''no_location'', [])"
    by blast
  let ?e = "world_gsutil proc_empty_listing"
  have "gsutil_present ?e"
    "returncode (gsutil_ls_run ?e (py_str (gcs_glob asset_glob))) = 0"
    "filter (\<lambda>l. l \<noteq> [] \<and> startswith l ''gs://'' \<and> \<not> endswith l ''/'')
       (map strip (splitlines (stdout (gsutil_ls_run ?e (py_str (gcs_glob asset_glob)))))) = []"
    by code_simp+
  with t [of ?e]
  have 2: "asset_exists ?e asset_glob = (Some False, ''gcs_glob'', [])"
    by blast
  let ?n = "world_gsutil proc_no_match"
  have "gsutil_present ?n"
    "returncode (gsutil_ls_run ?n (py_str (gcs_glob asset_glob))) \<noteq> 0"
    "contains (lower (replace_newlines (strip (stderr (gsutil_ls_run ?n (py_str (gcs_glob asset_glob)))))))
       ''matched no objects''"
    by code_simp+
  with t [of ?n]
  have 3: "asset_exists ?n asset_glob = (Some False, ''gcs_glob'', [])"
    by blast
  let ?d = "world_gsutil proc_denied"
  have d: "gsutil_present ?d"
    "returncode (gsutil_ls_run ?d (py_str (gcs_glob asset_glob))) \<noteq> 0"
    "\<not> contains (lower (replace_newlines (strip (stderr (gsutil_ls_run ?d (py_str (gcs_glob asset_glob)))))))
       ''matched no objects''"
    by code_simp+
  have d': "''gsutil_ls_failed:'' @
      (if replace_newlines (strip (stderr (gsutil_ls_run ?d (py_str (gcs_glob asset_glob))))) \<noteq> []
       then replace_newlines (strip (stderr (gsutil_ls_run ?d (py_str (gcs_glob asset_glob)))))
       else str_int (returncode (gsutil_ls_run ?d (py_str (gcs_glob asset_glob)))))
      = ''gsutil_ls_failed:AccessDenied''"
    by code_simp
  from t [of ?d] d
  have "asset_exists ?d asset_glob = (None, ''gsutil_ls_failed:'' @
      (if replace_newlines (strip (stderr (gsutil_ls_run ?d (py_str (gcs_glob asset_glob))))) \<noteq> []
       then replace_newlines (strip (stderr (gsutil_ls_run ?d (py_str (gcs_glob asset_glob)))))
       else str_int (returncode (gsutil_ls_run ?d (py_str (gcs_glob asset_glob))))), [])"
    by blast
  then have 4: "asset_exists ?d asset_glob = (None, ''gsutil_ls_failed:AccessDenied'', [])"
    unfolding d' .
  let ?l = "world_gsutil proc_listing"
  let ?items = "filter (\<lambda>l. l \<noteq> [] \<and> startswith l ''gs://'' \<and> \<not> endswith l ''/'')
       (map strip (splitlines (stdout (gsutil_ls_run ?l (py_str (gcs_glob asset_glob))))))"
  have l: "gsutil_present ?l"
    "returncode (gsutil_ls_run ?l (py_str (gcs_glob asset_glob))) = 0"
    by code_simp+
  have l': "?items \<noteq> []"
    "normalize_gs_uri ` set ?items = {''gs://bkt/out/a.tif'', ''gs://bkt/out/b.tif''}"
    by code_simp+
  from t [of ?l] l
  have "\<exists>matched. asset_exists ?l asset_glob = (Some (?items \<noteq> []), ''gcs_glob'', matched)
         \<and> sorted matched \<and> distinct matched \<and> set matched = normalize_gs_uri ` set ?items"
    by blast
  then have 5: "\<exists>matched. asset_exists ?l asset_glob = (Some True, ''gcs_glob'', matched)
         \<and> sorted matched \<and> distinct matched
         \<and> set matched = {''gs://bkt/out/a.tif'', ''gs://bkt/out/b.tif''}"
    using l' by simp
  have 7: "asset_exists (world_gsutil proc_killed) asset_glob = (None, ''gsutil_ls_failed:-9'', [])"
    by code_simp
  have 8: "asset_exists (world_gsutil proc_failed_silent) asset_glob = (None, ''gsutil_ls_failed:2'', [])"
    by code_simp
  show ?thesis
    by (intro conjI) (rule 1, rule 2, rule 3, rule 4, rule 5, rule 6, rule 7, rule 8)
qed

text \<open>
  Claim C6. A successful listing is to give the canonical URIs of the objects, the
  directory entries excluded. The listing is recursive, and \<^verbatim>\<open>gsutil ls -r\<close> names a
  folder in two ways: as an entry that ends with a slash, and as a header line that
  ends with a colon, under which the objects of the folder follow. The check drops
  the lines that end with a slash and keeps the header lines: the header
  \<^verbatim>\<open>gs://bkt/out/sub/:\<close> is among the matches, and a listing that holds a folder and no
  object gives existence true.
\<close>

theorem listing_keeps_folder_headers:
  "asset_exists (world_gsutil proc_recursive_listing) asset_glob_all
     = (Some True, ''gcs_glob'', [''gs://bkt/out/a.tif'', ''gs://bkt/out/sub/:'', ''gs://bkt/out/sub/b.tif''])
   \<and> asset_exists (world_gsutil proc_folder_only) asset_glob_all
     = (Some True, ''gcs_glob'', [''gs://bkt/out/sub/:''])"
  by code_simp

subsection \<open>Corruption auditing\<close>

text \<open>
  Claim C7, as the code has it. During finalize the corruption audit runs only when it
  is enabled, the kind of the asset is \<^verbatim>\<open>metadata\<close> and existence resolved to true;
  otherwise corruption is unknown. When the content read is an object, a boolean
  \<^verbatim>\<open>corrupt\<close> field gives the corruption, and without a \<^verbatim>\<open>corrupt\<close> field a boolean
  \<^verbatim>\<open>success\<close> field gives its negation. Content that is not an object, and every
  failure to read or to parse (no file, a size or a read that fails, a file or an object
  of more than 2,000,000 bytes, no \<^verbatim>\<open>gsutil\<close>, a failed \<^verbatim>\<open>gsutil cat\<close>, text that does
  not parse, no readable location), leave corruption unknown and raise nothing: finalize
  ends with a document whenever the verification data of the caller is absent. A local
  file of more than 2,000,000 bytes is not read.
\<close>

theorem corruption_audit:
  "(\<not> (audit \<and> ex = Some True \<and> kind a = ''metadata'') \<longrightarrow> audit_asset w audit ex a = (None, None))
   \<and> (audit \<and> ex = Some True \<and> kind a = ''metadata'' \<longrightarrow>
        (\<forall>meta b. read_json_from_asset w a max_bytes_default = JObj meta
             \<and> map_of meta ''corrupt'' = Some (JBool b) \<longrightarrow>
           audit_asset w audit ex a = (Some b, Some ''metadata.corrupt''))
        \<and> (\<forall>meta b. read_json_from_asset w a max_bytes_default = JObj meta
             \<and> map_of meta ''corrupt'' = None \<and> map_of meta ''success'' = Some (JBool b) \<longrightarrow>
           audit_asset w audit ex a = (Some (\<not> b), Some ''metadata.success'')))
   \<and> ((\<forall>meta. read_json_from_asset w a max_bytes_default \<noteq> JObj meta) \<longrightarrow>
        audit_asset w audit ex a = (None, None))
   \<and> (corrupt (finalize_asset w audit a), corrupt_reason (finalize_asset w audit a))
        = audit_asset w audit (exists (finalize_asset w audit a)) a
   \<and> (truthy_str (local_path a) \<and>
        (\<not> fs_exists w (py_str (local_path a)) \<or> \<not> fs_is_file w (py_str (local_path a))
         \<or> fs_size w (py_str (local_path a)) = None
         \<or> (\<exists>sz. fs_size w (py_str (local_path a)) = Some sz \<and> sz > mb)
         \<or> fs_read_text w (py_str (local_path a)) = None
         \<or> (\<exists>txt. fs_read_text w (py_str (local_path a)) = Some txt \<and> json_loads w txt = None)) \<longrightarrow>
        read_json_from_asset w a mb = JNull)
   \<and> (\<not> truthy_str (local_path a) \<and> truthy_str (uri a) \<and> startswith (py_str (uri a)) ''gs://'' \<and>
        (\<not> gsutil_present w \<or> returncode (gsutil_cat_run w (py_str (uri a))) \<noteq> 0
         \<or> length (stdout (gsutil_cat_run w (py_str (uri a)))) > mb
         \<or> json_loads w (stdout (gsutil_cat_run w (py_str (uri a)))) = None) \<longrightarrow>
        read_json_from_asset w a mb = JNull)
   \<and> (\<not> truthy_str (local_path a) \<and> \<not> (truthy_str (uri a) \<and> startswith (py_str (uri a)) ''gs://'') \<longrightarrow>
        read_json_from_asset w a mb = JNull)
   \<and> (truthy_str (local_path a) \<longrightarrow> bytes_fetched w a mb \<le> mb)
   \<and> (\<forall>now_iso args c. fa_verification_json args = None \<longrightarrow>
        (\<exists>c' rc. cmd_finalize now_iso w args c = Inr (c', rc)))"
proof -
  have 1: "\<not> (audit \<and> ex = Some True \<and> kind a = ''metadata'') \<longrightarrow> audit_asset w audit ex a = (None, None)"
    by (auto simp: audit_asset_def)
  have 2: "audit \<and> ex = Some True \<and> kind a = ''metadata'' \<longrightarrow>
        (\<forall>meta b. read_json_from_asset w a max_bytes_default = JObj meta
             \<and> map_of meta ''corrupt'' = Some (JBool b) \<longrightarrow>
           audit_asset w audit ex a = (Some b, Some ''metadata.corrupt''))
        \<and> (\<forall>meta b. read_json_from_asset w a max_bytes_default = JObj meta
             \<and> map_of meta ''corrupt'' = None \<and> map_of meta ''success'' = Some (JBool b) \<longrightarrow>
           audit_asset w audit ex a = (Some (\<not> b), Some ''metadata.success''))"
    by (auto simp: audit_asset_def has_key_map_of dict_get_def)
  have 3: "(\<forall>meta. read_json_from_asset w a max_bytes_default \<noteq> JObj meta) \<longrightarrow>
        audit_asset w audit ex a = (None, None)"
    by (auto simp: audit_asset_def split: json.splits)
  note 4 = finalize_asset_corrupt [of w audit a]
  have 5: "truthy_str (local_path a) \<and>
        (\<not> fs_exists w (py_str (local_path a)) \<or> \<not> fs_is_file w (py_str (local_path a))
         \<or> fs_size w (py_str (local_path a)) = None
         \<or> (\<exists>sz. fs_size w (py_str (local_path a)) = Some sz \<and> sz > mb)
         \<or> fs_read_text w (py_str (local_path a)) = None
         \<or> (\<exists>txt. fs_read_text w (py_str (local_path a)) = Some txt \<and> json_loads w txt = None)) \<longrightarrow>
        read_json_from_asset w a mb = JNull"
    by (auto simp: read_json_local json_or_none_def split: option.splits)
  have 6: "\<not> truthy_str (local_path a) \<and> truthy_str (uri a) \<and> startswith (py_str (uri a)) ''gs://'' \<and>
        (\<not> gsutil_present w \<or> returncode (gsutil_cat_run w (py_str (uri a))) \<noteq> 0
         \<or> length (stdout (gsutil_cat_run w (py_str (uri a)))) > mb
         \<or> json_loads w (stdout (gsutil_cat_run w (py_str (uri a)))) = None) \<longrightarrow>
        read_json_from_asset w a mb = JNull"
    by (auto simp: read_json_gs json_or_none_def)
  have 7: "\<not> truthy_str (local_path a) \<and> \<not> (truthy_str (uri a) \<and> startswith (py_str (uri a)) ''gs://'') \<longrightarrow>
        read_json_from_asset w a mb = JNull"
    by (auto simp: read_json_from_asset_def)
  have 8: "truthy_str (local_path a) \<longrightarrow> bytes_fetched w a mb \<le> mb"
    by (auto simp: bytes_fetched_def Let_def split: option.splits)
  have 9: "\<forall>now_iso args c. fa_verification_json args = None \<longrightarrow>
        (\<exists>c' rc. cmd_finalize now_iso w args c = Inr (c', rc))"
    using cmd_finalize_total [of _ w] by (metis option.distinct(1))
  from 1 2 3 4 5 6 7 8 9 show ?thesis by blast
qed

theorem corruption_audit_witness:
  "audit_asset (world_json (JObj [(''success'', JBool False)])) True (Some True) asset_meta
     = (Some True, Some ''metadata.success'')
   \<and> audit_asset (world_json (JObj [(''corrupt'', JBool False), (''success'', JBool False)])) True
       (Some True) asset_meta = (Some False, Some ''metadata.corrupt'')
   \<and> audit_asset (world_json (JList [])) True (Some True) asset_meta = (None, None)
   \<and> audit_asset (world_json (JObj [(''corrupt'', JBool True)])) True (Some True) asset_in = (None, None)
   \<and> audit_asset (world_json (JObj [(''corrupt'', JBool True)])) True (Some False) asset_meta = (None, None)
   \<and> read_json_from_asset world_local (asset_meta\<lparr>local_path := Some ''/data/none.json''\<rparr>)
       max_bytes_default = JNull
   \<and> bytes_fetched world_local asset_meta max_bytes_default \<le> max_bytes_default
   \<and> \<not> isl (cmd_finalize ''t1'' world_local args_strict doc_in)"
proof -
  let ?s = "world_json (JObj [(''success'', JBool False)])"
  have k: "True \<and> Some True = Some True \<and> kind asset_meta = ''metadata''" by code_simp
  have tl: "truthy_str (local_path asset_meta)" by code_simp
  have rj: "read_json_from_asset (world_json j) asset_meta max_bytes_default = j" for j
    unfolding read_json_local [OF tl]
    by (simp add: world_json_def world_local_def asset_meta_def asset_in_def new_asset_def
        py_str_def max_bytes_default_def json_or_none_def)
  have s: "read_json_from_asset ?s asset_meta max_bytes_default = JObj [(''success'', JBool False)]
      \<and> map_of [(''success'', JBool False)] ''corrupt'' = None
      \<and> map_of [(''success'', JBool False)] ''success'' = Some (JBool False)"
    by (simp add: rj)
  from corruption_audit [of True "Some True" asset_meta ?s] k s
  have "audit_asset ?s True (Some True) asset_meta = (Some (\<not> False), Some ''metadata.success'')"
    by blast
  then have 1: "audit_asset ?s True (Some True) asset_meta = (Some True, Some ''metadata.success'')"
    by simp
  let ?c = "world_json (JObj [(''corrupt'', JBool False), (''success'', JBool False)])"
  have c: "read_json_from_asset ?c asset_meta max_bytes_default
        = JObj [(''corrupt'', JBool False), (''success'', JBool False)]
      \<and> map_of [(''corrupt'', JBool False), (''success'', JBool False)] ''corrupt'' = Some (JBool False)"
    by (simp add: rj)
  from corruption_audit [of True "Some True" asset_meta ?c] k c
  have 2: "audit_asset ?c True (Some True) asset_meta = (Some False, Some ''metadata.corrupt'')"
    by blast
  let ?l = "world_json (JList [])"
  have "read_json_from_asset ?l asset_meta max_bytes_default = JList []" by (rule rj)
  then have l: "\<forall>meta. read_json_from_asset ?l asset_meta max_bytes_default \<noteq> JObj meta" by simp
  from corruption_audit [of True "Some True" asset_meta ?l] l
  have 3: "audit_asset ?l True (Some True) asset_meta = (None, None)"
    by blast
  let ?t = "world_json (JObj [(''corrupt'', JBool True)])"
  have o: "\<not> (True \<and> Some True = Some True \<and> kind asset_in = ''metadata'')" by code_simp
  from corruption_audit [of True "Some True" asset_in ?t] o
  have 4: "audit_asset ?t True (Some True) asset_in = (None, None)"
    by blast
  have f: "\<not> (True \<and> Some False = Some True \<and> kind asset_meta = ''metadata'')" by simp
  from corruption_audit [of True "Some False" asset_meta ?t] f
  have 5: "audit_asset ?t True (Some False) asset_meta = (None, None)"
    by blast
  let ?m = "asset_meta\<lparr>local_path := Some ''/data/none.json''\<rparr>"
  have m: "truthy_str (local_path ?m)" "\<not> fs_exists world_local (py_str (local_path ?m))"
    by code_simp+
  from corruption_audit [of _ _ ?m world_local max_bytes_default] m
  have 6: "read_json_from_asset world_local ?m max_bytes_default = JNull"
    by blast
  have p: "truthy_str (local_path asset_meta)" by code_simp
  from corruption_audit [of _ _ asset_meta world_local max_bytes_default] p
  have 7: "bytes_fetched world_local asset_meta max_bytes_default \<le> max_bytes_default"
    by blast
  have v: "fa_verification_json args_strict = None" by code_simp
  from corruption_audit [of _ _ _ world_local] v
  have "\<exists>c' rc. cmd_finalize ''t1'' world_local args_strict doc_in = Inr (c', rc)"
    by blast
  then have 8: "\<not> isl (cmd_finalize ''t1'' world_local args_strict doc_in)" by auto
  from 1 2 3 4 5 6 7 8 show ?thesis by blast
qed

theorem oversized_object_counterexample:
  "bytes_fetched (world_gsutil proc_big) asset_meta_gs max_bytes_default = 2000001
   \<and> max_bytes_default = 2000000
   \<and> audit_asset (world_gsutil proc_big) True (Some True) asset_meta_gs = (None, None)"
proof -
  have a: "\<not> truthy_str (local_path asset_meta_gs)" "truthy_str (uri asset_meta_gs)"
    "startswith (py_str (uri asset_meta_gs)) ''gs://''" "kind asset_meta_gs = ''metadata''"
    by code_simp+
  have g: "gsutil_present (world_gsutil proc_big)"
    "gsutil_cat_run (world_gsutil proc_big) (py_str (uri asset_meta_gs)) = proc_big"
    by (simp_all add: world_gsutil_def world_local_def)
  have l: "length (stdout proc_big) = 2000001" "returncode proc_big = 0"
    by (simp_all only: proc_big_def proc.simps length_replicate)
  have 1: "bytes_fetched (world_gsutil proc_big) asset_meta_gs max_bytes_default = 2000001"
    using a by (simp add: bytes_fetched_def g l)
  have "read_json_from_asset (world_gsutil proc_big) asset_meta_gs max_bytes_default = JNull"
    unfolding read_json_gs [OF a(1,2,3)] g by (simp add: l max_bytes_default_def)
  then have 3: "audit_asset (world_gsutil proc_big) True (Some True) asset_meta_gs = (None, None)"
    by (simp add: audit_asset_def)
  from 1 3 show ?thesis by (simp add: max_bytes_default_def)
qed

subsection \<open>Repair of the task references\<close>

text \<open>
  Claim C8, as the code has it. After the repair step of finalize every asset has a
  non-empty \<^verbatim>\<open>task_id\<close> that is the id of a task of the document, and the
  \<^verbatim>\<open>asset_ids\<close> of that task contain the id of the asset when that id is not empty.
  An asset with an empty \<^verbatim>\<open>task_id\<close> is assigned to the task \<^verbatim>\<open>unassigned\<close>, and a
  task that is missing is added as a placeholder: the step has no failure, it drops no
  asset and no task, and the same holds of the document that finalize writes.
\<close>

theorem task_references_repaired:
  "(\<forall>a \<in> set (assets (repair_references now_iso c)).
       task_id a \<noteq> []
       \<and> (\<exists>t \<in> set (tasks (repair_references now_iso c)). t_task_id t = task_id a
             \<and> (asset_aid a \<noteq> [] \<longrightarrow> asset_aid a \<in> set (t_asset_ids t))))
   \<and> length (assets (repair_references now_iso c)) = length (assets c)
   \<and> length (tasks c) \<le> length (tasks (repair_references now_iso c))
   \<and> (\<forall>c' rc. cmd_finalize now_iso w args c = Inr (c', rc) \<longrightarrow>
         (\<forall>a \<in> set (assets c').
            task_id a \<noteq> []
            \<and> (\<exists>t \<in> set (tasks c'). t_task_id t = task_id a
                  \<and> (asset_aid a \<noteq> [] \<longrightarrow> asset_aid a \<in> set (t_asset_ids t)))))"
proof (intro conjI ballI allI impI)
  fix a assume "a \<in> set (assets (repair_references now_iso c))"
  from repair_references_props [OF this]
  show "task_id a \<noteq> []"
    and "\<exists>t \<in> set (tasks (repair_references now_iso c)). t_task_id t = task_id a
             \<and> (asset_aid a \<noteq> [] \<longrightarrow> asset_aid a \<in> set (t_asset_ids t))"
    by blast+
next
  show "length (assets (repair_references now_iso c)) = length (assets c)"
    by (simp add: repair_references_assets)
  show "length (tasks c) \<le> length (tasks (repair_references now_iso c))"
    using repair_references_grow [of c now_iso] by (simp add: tasks_grow_def)
next
  fix c' rc a
  assume r: "cmd_finalize now_iso w args c = Inr (c', rc)" and a: "a \<in> set (assets c')"
  let ?c1 = "repair_references now_iso c"
  from a cmd_finalize_assets [OF r] obtain b where b: "b \<in> set (assets ?c1)"
    "a = finalize_asset w (parse_bool (fa_audit_corruption args) True) b"
    by auto
  from repair_references_props [OF b(1)] obtain t where t: "task_id b \<noteq> []" "t \<in> set (tasks ?c1)"
    "t_task_id t = task_id b" "asset_aid b \<noteq> [] \<longrightarrow> asset_aid b \<in> set (t_asset_ids t)"
    by blast
  let ?t = "finalize_task now_iso (assets c') (asset_index (assets c')) t"
  have "?t \<in> set (tasks c')" using t(2) cmd_finalize_tasks [OF r] by simp
  then have "\<exists>t \<in> set (tasks c'). t_task_id t = task_id a
                  \<and> (asset_aid a \<noteq> [] \<longrightarrow> asset_aid a \<in> set (t_asset_ids t))"
    using t b(2) by (auto simp: finalize_task_fields finalize_asset_fields intro!: bexI [of _ ?t])
  then show "task_id a \<noteq> []"
    and "\<exists>t \<in> set (tasks c'). t_task_id t = task_id a
                  \<and> (asset_aid a \<noteq> [] \<longrightarrow> asset_aid a \<in> set (t_asset_ids t))"
    using t(1) b(2) by (simp_all add: finalize_asset_fields)
qed

theorem task_references_repaired_witness:
  "map task_id (assets (repair_references ''t1'' doc_orphan)) = [''unassigned'']
   \<and> map t_task_id (tasks (repair_references ''t1'' doc_orphan)) = [''unassigned'']
   \<and> map t_asset_ids (tasks (repair_references ''t1'' doc_orphan)) = [[''out/a'']]
   \<and> (\<exists>t \<in> set (tasks (repair_references ''t1'' doc_orphan)).
         t_task_id t = ''unassigned'' \<and> ''out/a'' \<in> set (t_asset_ids t))"
proof -
  let ?c1 = "repair_references ''t1'' doc_orphan"
  have e: "map task_id (assets ?c1) = [''unassigned'']"
    "map t_task_id (tasks ?c1) = [''unassigned'']"
    "map t_asset_ids (tasks ?c1) = [[''out/a'']]"
    by code_simp+
  have m: "hd (assets ?c1) \<in> set (assets ?c1)" "task_id (hd (assets ?c1)) = ''unassigned''"
    "asset_aid (hd (assets ?c1)) = ''out/a''" "asset_aid (hd (assets ?c1)) \<noteq> []"
    by code_simp+
  from task_references_repaired [of "''t1''" doc_orphan] m
  have "\<exists>t \<in> set (tasks ?c1). t_task_id t = ''unassigned'' \<and> ''out/a'' \<in> set (t_asset_ids t)"
    by metis
  with e show ?thesis by blast
qed

theorem empty_asset_id_counterexample:
  "map task_id (assets (repair_references ''t1'' doc_orphan_noid)) = [''ghost'']
   \<and> map asset_id (assets (repair_references ''t1'' doc_orphan_noid)) = [Some []]
   \<and> map t_task_id (tasks (repair_references ''t1'' doc_orphan_noid)) = [''ghost'']
   \<and> map t_asset_ids (tasks (repair_references ''t1'' doc_orphan_noid)) = [[]]"
  by code_simp

subsection \<open>The value an operation returns\<close>

text \<open>
  Claim C9, as the code has it. Finalize returns 2 exactly when it runs in strict mode
  and one of the lists of required missing, corrupt and unverified asset ids in the
  verification report is not empty or a task is \<^verbatim>\<open>failed\<close>, and 0 otherwise; when the
  caller supplies no verification data, those lists are not empty exactly when a
  required asset is \<^verbatim>\<open>missing\<close>, \<^verbatim>\<open>failed\<close>, \<^verbatim>\<open>corrupt\<close> or \<^verbatim>\<open>unknown\<close>. Preflight
  returns 2 exactly when it runs in strict mode and a required input asset is
  \<^verbatim>\<open>missing\<close>, and 0 otherwise. The document is written in each of these cases.
\<close>

theorem strict_completion_signal:
  "(\<forall>c' rc. cmd_finalize now_iso w args c = Inr (c', rc) \<longrightarrow>
      rc = (if fa_strict args
               \<and> (truthy (dict_get (verification c') ''missing_required_asset_ids'')
                  \<or> truthy (dict_get (verification c') ''corrupt_required_asset_ids'')
                  \<or> truthy (dict_get (verification c') ''unverified_required_asset_ids'')
                  \<or> (\<exists>t \<in> set (tasks c'). t_status t = ''failed''))
            then 2 else 0)
      \<and> (fa_verification_json args = None \<longrightarrow>
            rc = (if fa_strict args
                     \<and> ((\<exists>a \<in> set (assets c'). required a
                            \<and> status a \<in> {''missing'', ''failed'', ''corrupt'', ''unknown''})
                        \<or> (\<exists>t \<in> set (tasks c'). t_status t = ''failed''))
                  then 2 else 0)))
   \<and> snd (cmd_preflight now_iso w strict c) =
       (if strict \<and> (\<exists>a \<in> set (assets (fst (cmd_preflight now_iso w strict c))).
                        role a = ''input'' \<and> required a \<and> status a = ''missing'')
        then 2 else 0)"
proof (intro conjI allI impI)
  fix c' rc
  assume r: "cmd_finalize now_iso w args c = Inr (c', rc)"
  show g: "rc = (if fa_strict args
               \<and> (truthy (dict_get (verification c') ''missing_required_asset_ids'')
                  \<or> truthy (dict_get (verification c') ''corrupt_required_asset_ids'')
                  \<or> truthy (dict_get (verification c') ''unverified_required_asset_ids'')
                  \<or> (\<exists>t \<in> set (tasks c'). t_status t = ''failed''))
            then 2 else 0)"
    unfolding cmd_finalize_rc [OF r] strict_failure_def failed_count_pos by simp
  assume n: "fa_verification_json args = None"
  have v: "verification c' = build_verification now_iso (assets c') (tasks c')"
    by (rule cmd_finalize_verification_plain [OF r n])
  have e: "(missing_required_of (assets c') \<noteq> [] \<or> corrupt_required_of (assets c') \<noteq> []
            \<or> unknown_required_of (assets c') \<noteq> [])
       \<longleftrightarrow> (\<exists>a \<in> set (assets c'). required a
                            \<and> status a \<in> {''missing'', ''failed'', ''corrupt'', ''unknown''})"
    unfolding missing_required_nonempty corrupt_required_nonempty unknown_required_nonempty
    by blast
  show "rc = (if fa_strict args
                     \<and> ((\<exists>a \<in> set (assets c'). required a
                            \<and> status a \<in> {''missing'', ''failed'', ''corrupt'', ''unknown''})
                        \<or> (\<exists>t \<in> set (tasks c'). t_status t = ''failed''))
                  then 2 else 0)"
    unfolding g v verification_lists truthy_ids_json e [symmetric] by auto
next
  let ?P = "cmd_preflight now_iso w strict c"
  have "(\<exists>a \<in> set (assets (fst ?P)). role a = ''input'' \<and> exists a = Some False \<and> required a)
      \<longleftrightarrow> (\<exists>a \<in> set (assets (fst ?P)). role a = ''input'' \<and> required a \<and> status a = ''missing'')"
    using preflight_input_status [of _ now_iso w strict c]
    by (auto simp: preflight_status_def split: if_splits)
  then show "snd ?P = (if strict \<and> (\<exists>a \<in> set (assets (fst ?P)).
                        role a = ''input'' \<and> required a \<and> status a = ''missing'')
        then 2 else 0)"
    using cmd_preflight_rc [of now_iso w strict c] by simp
qed

theorem strict_completion_signal_witness:
  "exit_code (cmd_finalize ''t1'' world_local args_strict doc_in) = 2
   \<and> snd (cmd_preflight ''t1'' world_local True doc_in) = 0"
proof -
  let ?R = "cmd_finalize ''t1'' world_local args_strict doc_in"
  let ?P = "cmd_preflight ''t1'' world_local True doc_in"
  have r: "?R = Inr (fst (projr ?R), snd (projr ?R))" by code_simp
  have x: "exit_code ?R = snd (projr ?R)" by code_simp
  have s: "fa_strict args_strict" "fa_verification_json args_strict = None" by code_simp+
  have f: "\<exists>t \<in> set (tasks (fst (projr ?R))). t_status t = ''failed''" by code_simp
  have p: "\<not> (\<exists>a \<in> set (assets (fst ?P)). role a = ''input'' \<and> required a \<and> status a = ''missing'')"
    by code_simp
  note t = strict_completion_signal [of "''t1''" world_local args_strict doc_in True]
  from t r s f have 1: "snd (projr ?R) = 2" by (metis (no_types, lifting))
  from t p have 2: "snd ?P = 0" by (metis (no_types, lifting))
  from 1 2 x show ?thesis by simp
qed

theorem strict_signal_counterexample:
  "snd (cmd_preflight ''t1'' world_local True doc_remote_in) = 0
   \<and> map status (assets (fst (cmd_preflight ''t1'' world_local True doc_remote_in))) = [''unknown'']
   \<and> map required (assets (fst (cmd_preflight ''t1'' world_local True doc_remote_in))) = [True]
   \<and> exit_code (cmd_finalize ''t1'' world_local args_lenient doc_in) = 0
   \<and> map t_status (tasks_written (cmd_finalize ''t1'' world_local args_lenient doc_in)) = [''failed'']"
  by code_simp

subsection \<open>Precedence of the location descriptors\<close>

text \<open>
  Claim C10. The existence check looks at the local path first, then at a URI that
  starts with \<^verbatim>\<open>gs://\<close>, then at the local glob, then at the object-storage glob, and
  the first of these that is present decides alone: clearing the other descriptors does
  not change the result. A URI without the \<^verbatim>\<open>gs://\<close> prefix is skipped, so an asset
  with only such a URI has existence unknown with reason \<^verbatim>\<open>no_location\<close>. Recording
  an asset as produced never clears a location field that was set.
\<close>

theorem existence_precedence:
  "(truthy_str (local_path a) \<longrightarrow>
      asset_exists w a = asset_exists w (a\<lparr>uri := None, local_glob := None, gcs_glob := None\<rparr>)
      \<and> fst (snd (asset_exists w a)) = ''local_path'')
   \<and> (\<not> truthy_str (local_path a) \<and> truthy_str (uri a) \<and> startswith (py_str (uri a)) ''gs://'' \<longrightarrow>
      asset_exists w a = asset_exists w (a\<lparr>local_path := None, local_glob := None, gcs_glob := None\<rparr>)
      \<and> fst (snd (asset_exists w a)) \<in> {''gcs_uri'', ''gsutil_unavailable''})
   \<and> (\<not> truthy_str (local_path a) \<and> \<not> (truthy_str (uri a) \<and> startswith (py_str (uri a)) ''gs://'')
        \<and> truthy_str (local_glob a) \<longrightarrow>
      asset_exists w a = asset_exists w (a\<lparr>local_path := None, uri := None, gcs_glob := None\<rparr>)
      \<and> fst (snd (asset_exists w a)) = ''local_glob'')
   \<and> (\<not> truthy_str (local_path a) \<and> \<not> (truthy_str (uri a) \<and> startswith (py_str (uri a)) ''gs://'')
        \<and> \<not> truthy_str (local_glob a) \<and> truthy_str (gcs_glob a) \<longrightarrow>
      asset_exists w a = asset_exists w (a\<lparr>local_path := None, uri := None, local_glob := None\<rparr>))
   \<and> (truthy_str (uri a) \<and> \<not> startswith (py_str (uri a)) ''gs://'' \<and> \<not> truthy_str (local_path a)
        \<and> \<not> truthy_str (local_glob a) \<and> \<not> truthy_str (gcs_glob a) \<longrightarrow>
      asset_exists w a = (None, ''no_location'', []))
   \<and> (truthy_str (uri a) \<longrightarrow> truthy_str (uri (record_produced_asset args tid a)))
   \<and> (truthy_str (local_path a) \<longrightarrow> truthy_str (local_path (record_produced_asset args tid a)))
   \<and> (truthy_str (local_glob a) \<longrightarrow> truthy_str (local_glob (record_produced_asset args tid a)))
   \<and> (truthy_str (gcs_glob a) \<longrightarrow> truthy_str (gcs_glob (record_produced_asset args tid a)))"
proof -
  have n: "truthy_str None = False" by (simp add: truthy_str_def)
  have 1: "truthy_str (local_path a) \<longrightarrow>
      asset_exists w a = asset_exists w (a\<lparr>uri := None, local_glob := None, gcs_glob := None\<rparr>)
      \<and> fst (snd (asset_exists w a)) = ''local_path''"
    by (simp add: asset_exists_def Let_def)
  have 2: "\<not> truthy_str (local_path a) \<and> truthy_str (uri a) \<and> startswith (py_str (uri a)) ''gs://'' \<longrightarrow>
      asset_exists w a = asset_exists w (a\<lparr>local_path := None, local_glob := None, gcs_glob := None\<rparr>)
      \<and> fst (snd (asset_exists w a)) \<in> {''gcs_uri'', ''gsutil_unavailable''}"
    by (simp add: asset_exists_def Let_def n gsutil_exists_def)
  have 3: "\<not> truthy_str (local_path a) \<and> \<not> (truthy_str (uri a) \<and> startswith (py_str (uri a)) ''gs://'')
        \<and> truthy_str (local_glob a) \<longrightarrow>
      asset_exists w a = asset_exists w (a\<lparr>local_path := None, uri := None, gcs_glob := None\<rparr>)
      \<and> fst (snd (asset_exists w a)) = ''local_glob''"
    by (auto simp add: asset_exists_def Let_def n)
  have 4: "\<not> truthy_str (local_path a) \<and> \<not> (truthy_str (uri a) \<and> startswith (py_str (uri a)) ''gs://'')
        \<and> \<not> truthy_str (local_glob a) \<and> truthy_str (gcs_glob a) \<longrightarrow>
      asset_exists w a = asset_exists w (a\<lparr>local_path := None, uri := None, local_glob := None\<rparr>)"
    by (auto simp add: asset_exists_def Let_def n)
  have 5: "truthy_str (uri a) \<and> \<not> startswith (py_str (uri a)) ''gs://'' \<and> \<not> truthy_str (local_path a)
        \<and> \<not> truthy_str (local_glob a) \<and> \<not> truthy_str (gcs_glob a) \<longrightarrow>
      asset_exists w a = (None, ''no_location'', [])"
    by (simp add: asset_exists_def)
  have 6: "(truthy_str (uri a) \<longrightarrow> truthy_str (uri (record_produced_asset args tid a)))
   \<and> (truthy_str (local_path a) \<longrightarrow> truthy_str (local_path (record_produced_asset args tid a)))
   \<and> (truthy_str (local_glob a) \<longrightarrow> truthy_str (local_glob (record_produced_asset args tid a)))
   \<and> (truthy_str (gcs_glob a) \<longrightarrow> truthy_str (gcs_glob (record_produced_asset args tid a)))"
    by (simp add: record_produced_asset_def or_str_def)
  from 1 2 3 4 5 6 show ?thesis by blast
qed

theorem existence_precedence_witness:
  "asset_exists world_local
     (asset_in\<lparr>uri := Some ''gs://bkt/in.csv'', local_glob := Some ''/data/*.csv'',
               gcs_glob := Some ''gs://bkt/*.csv''\<rparr>)
     = asset_exists world_local (asset_in\<lparr>uri := None, local_glob := None, gcs_glob := None\<rparr>)
   \<and> asset_exists world_local (asset_out\<lparr>uri := Some ''https://host/a.tif''\<rparr>)
     = (None, ''no_location'', [])
   \<and> truthy_str (local_path (record_produced_asset
        \<lparr>pa_task_id = ''build'', pa_asset_id = Some ''in/a'', pa_kind = None, pa_required = None,
         pa_uri = Some ''gs://bkt/in.csv'', pa_local_path = None, pa_local_glob = None,
         pa_gcs_glob = None, pa_extra_json = None\<rparr> ''build'' asset_in))"
proof -
  let ?a = "asset_in\<lparr>uri := Some ''gs://bkt/in.csv'', local_glob := Some ''/data/*.csv'',
               gcs_glob := Some ''gs://bkt/*.csv''\<rparr>"
  have a: "truthy_str (local_path ?a)" by code_simp
  have a': "?a\<lparr>uri := None, local_glob := None, gcs_glob := None\<rparr>
            = asset_in\<lparr>uri := None, local_glob := None, gcs_glob := None\<rparr>"
    by simp
  from existence_precedence [of ?a world_local] a
  have 1: "asset_exists world_local ?a
           = asset_exists world_local (?a\<lparr>uri := None, local_glob := None, gcs_glob := None\<rparr>)"
    by blast
  let ?b = "asset_out\<lparr>uri := Some ''https://host/a.tif''\<rparr>"
  have b: "truthy_str (uri ?b)" "\<not> startswith (py_str (uri ?b)) ''gs://''"
    "\<not> truthy_str (local_path ?b)" "\<not> truthy_str (local_glob ?b)" "\<not> truthy_str (gcs_glob ?b)"
    by code_simp+
  from existence_precedence [of ?b world_local] b
  have 2: "asset_exists world_local ?b = (None, ''no_location'', [])"
    by blast
  have c: "truthy_str (local_path asset_in)" by code_simp
  from existence_precedence [of asset_in _ _ "''build''"] c
  have 3: "truthy_str (local_path (record_produced_asset
        \<lparr>pa_task_id = ''build'', pa_asset_id = Some ''in/a'', pa_kind = None, pa_required = None,
         pa_uri = Some ''gs://bkt/in.csv'', pa_local_path = None, pa_local_glob = None,
         pa_gcs_glob = None, pa_extra_json = None\<rparr> ''build'' asset_in))"
    by blast
  from 1 2 3 show ?thesis unfolding a' by blast
qed

end
